theory Spec2Isabelle
  imports Main
begin

section \<open>Values, truthiness and strings\<close>

text \<open>
  The editor keeps its data in plain JavaScript objects. The scalar values that
  occur in them are strings, integers and booleans; a value that may be missing
  is an \<open>option\<close>, where \<open>None\<close> stands for \<^verbatim>\<open>undefined\<close> (and for \<^verbatim>\<open>null\<close>
  where the code treats the two alike).
\<close>

datatype scalar = SStr string | SNum int | SBool bool

text \<open>A numeric condition field: \<^verbatim>\<open>parseInt\<close> can store \<^verbatim>\<open>NaN\<close> in it.\<close>

datatype jsnumber = NaN | Finite int

text \<open>A number as the comparisons of the validator and the sorter see it.\<close>

datatype jsnum = NegInfinity | Num int | Infinity

fun js_lt :: "jsnum \<Rightarrow> jsnum \<Rightarrow> bool" where
  "js_lt NegInfinity NegInfinity = False"
| "js_lt NegInfinity _ = True"
| "js_lt (Num a) NegInfinity = False"
| "js_lt (Num a) (Num b) = (a < b)"
| "js_lt (Num a) Infinity = True"
| "js_lt Infinity _ = False"

definition js_gt :: "jsnum \<Rightarrow> jsnum \<Rightarrow> bool" where
  "js_gt a b = js_lt b a"

subsection \<open>Truthiness\<close>

fun truthy :: "scalar \<Rightarrow> bool" where
  "truthy (SStr s) = (s \<noteq> [])"
| "truthy (SNum n) = (n \<noteq> 0)"
| "truthy (SBool b) = b"

definition truthy_str :: "string option \<Rightarrow> bool" where
  "truthy_str v = (case v of None \<Rightarrow> False | Some s \<Rightarrow> s \<noteq> [])"

definition truthy_opt :: "scalar option \<Rightarrow> bool" where
  "truthy_opt v = (case v of None \<Rightarrow> False | Some x \<Rightarrow> truthy x)"

fun truthy_number :: "jsnumber option \<Rightarrow> bool" where
  "truthy_number None = False"
| "truthy_number (Some NaN) = False"
| "truthy_number (Some (Finite n)) = (n \<noteq> 0)"

subsection \<open>Numbers as text\<close>

definition digit_char :: "nat \<Rightarrow> char" where
  "digit_char d = ''0123456789'' ! d"

fun show_nat :: "nat \<Rightarrow> string" where
  "show_nat n = (if n < 10 then [digit_char n] else show_nat (n div 10) @ [digit_char (n mod 10)])"

declare show_nat.simps [simp del]

definition show_int :: "int \<Rightarrow> string" where
  "show_int i = (if i < 0 then CHR ''-'' # show_nat (nat (- i)) else show_nat (nat i))"

fun show_number :: "jsnumber \<Rightarrow> string" where
  "show_number NaN = ''NaN''"
| "show_number (Finite i) = show_int i"

text \<open>\<^verbatim>\<open>String(v)\<close> and the interpolation of a scalar in a template string.\<close>

fun js_string :: "scalar \<Rightarrow> string" where
  "js_string (SStr s) = s"
| "js_string (SNum n) = show_int n"
| "js_string (SBool b) = (if b then ''true'' else ''false'')"

text \<open>
  \<^verbatim>\<open>toUpperCase\<close>. The strings of this development are ASCII strings, as the
  option and mode names of the configuration format are; on them the function
  maps the letters a to z and leaves every other character as it is. Text
  with other letters, which \<^verbatim>\<open>toUpperCase\<close> maps by the Unicode tables, is
  not covered.
\<close>

definition upper_char :: "char \<Rightarrow> char" where
  "upper_char c =
     (case map_of (zip ''abcdefghijklmnopqrstuvwxyz'' ''ABCDEFGHIJKLMNOPQRSTUVWXYZ'') c of
        Some u \<Rightarrow> u
      | None \<Rightarrow> c)"

definition toUpperCase :: "string \<Rightarrow> string" where
  "toUpperCase s = map upper_char s"

text \<open>\<^verbatim>\<open>parts.join(sep)\<close>.\<close>

fun join :: "string \<Rightarrow> string list \<Rightarrow> string" where
  "join sep [] = []"
| "join sep [p] = p"
| "join sep (p # q # ps) = p @ sep @ join sep (q # ps)"

definition startsWith :: "string \<Rightarrow> string \<Rightarrow> bool" where
  "startsWith s p = (take (length p) s = p)"

text \<open>The sign \<^verbatim>\<open>U+2264\<close> of the generated titles, in UTF-8.\<close>

definition le_sign :: string where
  "le_sign = [CHR 0xE2, CHR 0x89, CHR 0xA4]"

subsection \<open>\<^verbatim>\<open>parseInt\<close>\<close>

definition is_space :: "char \<Rightarrow> bool" where
  "is_space c = (c \<in> set [CHR 0x09, CHR 0x0A, CHR 0x0B, CHR 0x0C, CHR 0x0D, CHR '' ''])"

fun index_of :: "char \<Rightarrow> string \<Rightarrow> nat option" where
  "index_of c [] = None"
| "index_of c (d # ds) = (if c = d then Some 0 else map_option Suc (index_of c ds))"

definition lower_char :: "char \<Rightarrow> char" where
  "lower_char c =
     (case map_of (zip ''ABCDEFGHIJKLMNOPQRSTUVWXYZ'' ''abcdefghijklmnopqrstuvwxyz'') c of
        Some l \<Rightarrow> l
      | None \<Rightarrow> c)"

definition digit_val :: "nat \<Rightarrow> char \<Rightarrow> nat option" where
  "digit_val radix c =
     (case index_of (lower_char c) ''0123456789abcdefghijklmnopqrstuvwxyz'' of
        None \<Rightarrow> None
      | Some d \<Rightarrow> if d < radix then Some d else None)"

fun parse_digits :: "nat \<Rightarrow> nat option \<Rightarrow> string \<Rightarrow> nat option" where
  "parse_digits radix acc [] = acc"
| "parse_digits radix acc (c # cs) =
     (case digit_val radix c of
        None \<Rightarrow> acc
      | Some d \<Rightarrow> parse_digits radix (Some ((case acc of None \<Rightarrow> 0 | Some a \<Rightarrow> a) * radix + d)) cs)"

definition parse_unsigned :: "string \<Rightarrow> nat option" where
  "parse_unsigned s =
     (if take 2 s = ''0x'' \<or> take 2 s = ''0X'' then parse_digits 16 None (drop 2 s)
      else parse_digits 10 None s)"

definition parseInt_string :: "string \<Rightarrow> jsnumber" where
  "parseInt_string s =
     (let t = dropWhile is_space s in
      case t of
        [] \<Rightarrow> NaN
      | c # cs \<Rightarrow>
         (if c = CHR ''-'' then (case parse_unsigned cs of None \<Rightarrow> NaN | Some n \<Rightarrow> Finite (- int n))
          else if c = CHR ''+'' then (case parse_unsigned cs of None \<Rightarrow> NaN | Some n \<Rightarrow> Finite (int n))
          else (case parse_unsigned t of None \<Rightarrow> NaN | Some n \<Rightarrow> Finite (int n))))"

definition parseInt :: "scalar \<Rightarrow> jsnumber" where
  "parseInt v = parseInt_string (js_string v)"

subsection \<open>Objects used as dictionaries\<close>

text \<open>
  A JavaScript object that is filled key by key keeps its string keys in
  insertion order; it is an association list of its own properties. The keys
  that the program itself computes (group identifiers such as \<^verbatim>\<open>ranges-3\<close>,
  grouping keys, section type names) are never array indices and never names
  inherited from the object prototype, for which JavaScript behaves
  differently; \<open>obj_get\<close> reads an own property under such a key.
\<close>

fun obj_get :: "(string \<times> 'a) list \<Rightarrow> string \<Rightarrow> 'a option" where
  "obj_get [] k = None"
| "obj_get ((k', v) # ps) k = (if k' = k then Some v else obj_get ps k)"

fun obj_set :: "string \<Rightarrow> 'a \<Rightarrow> (string \<times> 'a) list \<Rightarrow> (string \<times> 'a) list" where
  "obj_set k v [] = [(k, v)]"
| "obj_set k v ((k', v') # ps) = (if k' = k then (k, v) # ps else (k', v') # obj_set k v ps)"

definition obj_delete :: "string \<Rightarrow> (string \<times> 'a) list \<Rightarrow> (string \<times> 'a) list" where
  "obj_delete k ps = filter (\<lambda>p. fst p \<noteq> k) ps"

text \<open>
  A read \<^verbatim>\<open>obj[k]\<close> under a key that the caller supplies finds, where the
  object has no property of its own, what every plain object inherits from
  \<^verbatim>\<open>Object.prototype\<close>: eleven functions, and under \<^verbatim>\<open>__proto__\<close> the prototype
  object itself. All twelve are truthy, and none of them has a property
  \<^verbatim>\<open>type\<close>, \<^verbatim>\<open>rules\<close> or \<^verbatim>\<open>commonParams\<close>.
\<close>

definition inherited_functions :: "string list" where
  "inherited_functions =
     [''constructor'', ''hasOwnProperty'', ''isPrototypeOf'', ''propertyIsEnumerable'',
      ''toLocaleString'', ''toString'', ''valueOf'', ''__defineGetter__'', ''__defineSetter__'',
      ''__lookupGetter__'', ''__lookupSetter__'']"


datatype 'a member = Own 'a | Inherited_function | Prototype_object | Undefined

definition obj_member :: "(string \<times> 'a) list \<Rightarrow> string \<Rightarrow> 'a member" where
  "obj_member obj k =
    (case obj_get obj k of
       Some v \<Rightarrow> Own v
     | None \<Rightarrow> if k = ''__proto__'' then Prototype_object
               else if k \<in> set inherited_functions then Inherited_function
               else Undefined)"

text \<open>
  An assignment \<^verbatim>\<open>obj[k] = v\<close> of a scalar under a key that the caller
  supplies: under \<^verbatim>\<open>__proto__\<close> it reaches the inherited setter, which ignores
  a value that is no object; under every other key it writes an own property.
\<close>

definition obj_assign :: "string \<Rightarrow> 'a \<Rightarrow> (string \<times> 'a) list \<Rightarrow> (string \<times> 'a) list" where
  "obj_assign k v obj = (if k = ''__proto__'' then obj else obj_set k v obj)"

text \<open>
  The idiom \<^verbatim>\<open>if (!groups[key]) groups[key] = []; groups[key].push(x)\<close>, and a
  whole \<^verbatim>\<open>forEach\<close> loop made of it.
\<close>

fun obj_push :: "string \<Rightarrow> 'a \<Rightarrow> (string \<times> 'a list) list \<Rightarrow> (string \<times> 'a list) list" where
  "obj_push k x [] = [(k, [x])]"
| "obj_push k x ((k', xs) # ps) = (if k' = k then (k', xs @ [x]) # ps else (k', xs) # obj_push k x ps)"

definition group_by :: "('a \<Rightarrow> string) \<Rightarrow> 'a list \<Rightarrow> (string \<times> 'a list) list" where
  "group_by key xs = foldl (\<lambda>groups x. obj_push (key x) x groups) [] xs"

text \<open>The pairs visited by \<^verbatim>\<open>for (i ...) for (j = i + 1 ...)\<close>, in that order.\<close>

fun pairs :: "'a list \<Rightarrow> ('a \<times> 'a) list" where
  "pairs [] = []"
| "pairs (x # xs) = map (Pair x) xs @ pairs xs"

section \<open>Data model\<close>

subsection \<open>Flat entries of the configuration\<close>

record conditions =
  delivery_mode :: "scalar option"
  marketplace :: "scalar option"
  vertical_types :: "scalar list option"
  pdt_greater_than :: "jsnumber option"
  pdt_less_than_or_equal_to :: "jsnumber option"
  mean_delay_greater_than :: "jsnumber option"
  mean_delay_less_than_or_equal_to :: "jsnumber option"
  other_keys :: "(string \<times> scalar) list"

definition empty_conditions :: conditions where
  "empty_conditions = \<lparr> delivery_mode = None, marketplace = None, vertical_types = None,
     pdt_greater_than = None, pdt_less_than_or_equal_to = None,
     mean_delay_greater_than = None, mean_delay_less_than_or_equal_to = None,
     other_keys = [] \<rparr>"

text \<open>\<^verbatim>\<open>Object.keys(conditions).length\<close>.\<close>

definition count_opt :: "'a option \<Rightarrow> nat" where
  "count_opt v = (case v of None \<Rightarrow> 0 | Some _ \<Rightarrow> 1)"

definition conditions_key_count :: "conditions \<Rightarrow> nat" where
  "conditions_key_count c =
     count_opt (delivery_mode c) + count_opt (marketplace c) + count_opt (vertical_types c) +
     count_opt (pdt_greater_than c) + count_opt (pdt_less_than_or_equal_to c) +
     count_opt (mean_delay_greater_than c) + count_opt (mean_delay_less_than_or_equal_to c) +
     length (other_keys c)"

record bound_pair =
  lower_bound_of :: "int option"
  upper_bound_of :: "int option"

record capping_single =
  single_min :: "int option"
  single_max :: "int option"

record capping_ranges =
  ranges_min :: bound_pair
  ranges_max :: bound_pair

record entry =
  entry_format :: "string option"
  delivery_option :: "scalar option"
  lower_bound :: "int option"
  upper_bound :: "int option"
  entry_conditions :: "conditions option"
  single :: "capping_single option"
  entry_ranges :: "capping_ranges option"
  strategy :: "scalar option"
  entry_title :: "string option"

definition empty_entry :: entry where
  "empty_entry = \<lparr> entry_format = None, delivery_option = None, lower_bound = None,
     upper_bound = None, entry_conditions = None, single = None, entry_ranges = None,
     strategy = None, entry_title = None \<rparr>"

text \<open>
  An element of \<^verbatim>\<open>config.pdt\<close>: an object with (normally) one of the four
  section keys, holding an array of entries.
\<close>

record pdt_section =
  display_format :: "entry list option"
  ranges :: "entry list option"
  capping :: "entry list option"
  rounding :: "entry list option"

definition empty_section :: pdt_section where
  "empty_section = \<lparr> display_format = None, ranges = None, capping = None, rounding = None \<rparr>"

record config =
  configFormatVersion :: string
  variant :: string
  platform :: string
  countryCode :: string
  pdt :: "pdt_section list"

subsection \<open>Groups and rules\<close>

text \<open>
  A rule is an object whose fields appear and disappear with its shape; it is
  one record in which every field is optional. \<open>None\<close> stands for both \<^verbatim>\<open>null\<close>
  and \<^verbatim>\<open>undefined\<close>, which the code never tells apart on rule fields.
\<close>

record rule =
  rtype :: "string option"
  format :: "string option"
  rule_conditions :: "conditions option"
  lowerBound :: "int option"
  upperBound :: "int option"
  pdtGreaterThan :: "int option"
  pdtLessThanOrEqualTo :: "int option"
  meanDelayGreaterThan :: "int option"
  meanDelayLessThanOrEqualTo :: "int option"
  rmin :: "int option"
  rmax :: "int option"
  minLowerBound :: "int option"
  minUpperBound :: "int option"
  maxLowerBound :: "int option"
  maxUpperBound :: "int option"

definition empty_rule :: rule where
  "empty_rule = \<lparr> rtype = None, format = None, rule_conditions = None,
     lowerBound = None, upperBound = None,
     pdtGreaterThan = None, pdtLessThanOrEqualTo = None,
     meanDelayGreaterThan = None, meanDelayLessThanOrEqualTo = None,
     rmin = None, rmax = None, minLowerBound = None, minUpperBound = None,
     maxLowerBound = None, maxUpperBound = None \<rparr>"

record group =
  gid :: string
  gtype :: string
  title :: string
  commonParams :: "(string \<times> scalar) list"
  rules :: "rule list"

section \<open>ValidationManager\<close>

record duplicate_issue =
  group1 :: string
  group2 :: string
  issue_type :: string
  dup_message :: string

datatype overlap_issue =
  RulePair string nat nat string
| RuleIndices string "nat list" string

fun overlap_groupId :: "overlap_issue \<Rightarrow> string" where
  "overlap_groupId (RulePair g _ _ _) = g"
| "overlap_groupId (RuleIndices g _ _) = g"

fun overlap_message :: "overlap_issue \<Rightarrow> string" where
  "overlap_message (RulePair _ _ _ m) = m"
| "overlap_message (RuleIndices _ _ m) = m"

record required_issue =
  req_groupId :: string
  req_message :: string

record validationIssues =
  duplicateGroups :: "duplicate_issue list"
  overlappingRules :: "overlap_issue list"
  requiredFields :: "required_issue list"

definition no_issues :: validationIssues where
  "no_issues = \<lparr> duplicateGroups = [], overlappingRules = [], requiredFields = [] \<rparr>"

definition isValid :: "validationIssues \<Rightarrow> bool" where
  "isValid v = (length (duplicateGroups v) = 0 \<and> length (overlappingRules v) = 0 \<and>
     length (requiredFields v) = 0)"

subsection \<open>Duplicate groups\<close>

definition areGroupsEqual :: "group \<Rightarrow> group \<Rightarrow> bool" where
  "areGroupsEqual g1 g2 =
    (let params1 = commonParams g1; params2 = commonParams g2;
         keys1 = map fst params1; keys2 = map fst params2
     in if length keys1 \<noteq> length keys2 then False
        else list_all (\<lambda>key. obj_get params1 key = obj_get params2 key) keys1)"

definition checkDuplicateGroups :: "group list \<Rightarrow> validationIssues \<Rightarrow> validationIssues" where
  "checkDuplicateGroups gs v =
    (let groupsByType = group_by gtype gs;
         found = concat (map (\<lambda>(ty, typeGroups).
           if length typeGroups \<le> 1 then []
           else map (\<lambda>(a, b). \<lparr> group1 = gid a, group2 = gid b, issue_type = ty,
                   dup_message = ''Groups '' @ [CHR 0x27] @ title a @ [CHR 0x27] @ '' and '' @
                     [CHR 0x27] @ title b @ [CHR 0x27] @ '' have identical parameters'' \<rparr>)
                (filter (\<lambda>(a, b). areGroupsEqual a b) (pairs typeGroups))) groupsByType)
     in v\<lparr> duplicateGroups := duplicateGroups v @ found \<rparr>)"

definition param_exists :: "(string \<times> scalar) list \<Rightarrow> string \<Rightarrow> bool" where
  "param_exists params key = (obj_get params key \<noteq> None \<and> obj_get params key \<noteq> Some (SStr []))"

definition haveMatchingParameters :: "(string \<times> scalar) list \<Rightarrow> (string \<times> scalar) list \<Rightarrow> bool" where
  "haveMatchingParameters params1 params2 =
    list_all (\<lambda>key.
       let param1Exists = param_exists params1 key; param2Exists = param_exists params2 key
       in \<not> (param1Exists \<noteq> param2Exists) \<and>
          \<not> (param1Exists \<and> param2Exists \<and> obj_get params1 key \<noteq> obj_get params2 key))
     [''deliveryMode'', ''marketplace'', ''pdtLessThanOrEqualTo'', ''verticalType'']"

definition format_text :: "string option \<Rightarrow> string" where
  "format_text f = (case f of None \<Rightarrow> [] | Some s \<Rightarrow> s)"

definition checkDuplicateDisplayFormats :: "group list \<Rightarrow> validationIssues \<Rightarrow> validationIssues" where
  "checkDuplicateDisplayFormats gs v =
    (let displayFormatGroups = filter (\<lambda>g. gtype g = ''display-format'') gs in
     if length displayFormatGroups < 2 then v
     else
      (let tooMany = map (\<lambda>g. \<lparr> req_groupId = gid g,
                req_message = ''Display Format group '' @ [CHR 0x27] @ title g @ [CHR 0x27] @
                  '' has multiple format rules. Only one format rule is allowed per group.'' \<rparr>)
              (filter (\<lambda>g. length (rules g) > 1) displayFormatGroups);
           dups = concat (map (\<lambda>(a, b).
              if haveMatchingParameters (commonParams a) (commonParams b) then
                (let group1Formats = map format (rules a);
                     group2Formats = map format (rules b);
                     duplicateFormats = filter (\<lambda>f. f \<in> set group2Formats) group1Formats
                 in if length duplicateFormats > 0 then
                      [\<lparr> group1 = gid a, group2 = gid b, issue_type = ''display-format'',
                         dup_message = ''Groups '' @ [CHR 0x27] @ title a @ [CHR 0x27] @ '' and '' @
                           [CHR 0x27] @ title b @ [CHR 0x27] @
                           '' have identical parameters with the same format: '' @
                           join '', '' (map format_text duplicateFormats) \<rparr>]
                    else [])
              else []) (pairs displayFormatGroups))
       in v\<lparr> requiredFields := requiredFields v @ tooMany,
             duplicateGroups := duplicateGroups v @ dups \<rparr>))"

subsection \<open>Overlapping ranges rules\<close>

definition from_bound :: "int option \<Rightarrow> jsnum" where
  "from_bound b = (case b of Some v \<Rightarrow> Num v | None \<Rightarrow> NegInfinity)"

definition to_bound :: "int option \<Rightarrow> jsnum" where
  "to_bound b = (case b of Some v \<Rightarrow> Num v | None \<Rightarrow> Infinity)"

text \<open>
  \<^verbatim>\<open>doRangesRulesOverlap(rule1, rule2)\<close>, with its early returns in the order
  of the source: the two exact-boundary tests on PDT, the closed-interval test
  on PDT, the shortcut for a rule without Mean-Delay bounds, the two
  exact-boundary tests on Mean Delay, the closed-interval test on Mean Delay.
\<close>

definition doRangesRulesOverlap :: "rule \<Rightarrow> rule \<Rightarrow> bool" where
  "doRangesRulesOverlap rule1 rule2 =
    (let rule1HasPdtGreaterThan = (pdtGreaterThan rule1 \<noteq> None);
         rule1HasPdtLessThanOrEqual = (pdtLessThanOrEqualTo rule1 \<noteq> None);
         rule2HasPdtGreaterThan = (pdtGreaterThan rule2 \<noteq> None);
         rule2HasPdtLessThanOrEqual = (pdtLessThanOrEqualTo rule2 \<noteq> None)
     in
     if rule1HasPdtLessThanOrEqual \<and> rule2HasPdtGreaterThan \<and>
        pdtLessThanOrEqualTo rule1 = pdtGreaterThan rule2 then False
     else if rule2HasPdtLessThanOrEqual \<and> rule1HasPdtGreaterThan \<and>
        pdtLessThanOrEqualTo rule2 = pdtGreaterThan rule1 then False
     else
      (let pdt1From = from_bound (pdtGreaterThan rule1);
           pdt1To = to_bound (pdtLessThanOrEqualTo rule1);
           pdt2From = from_bound (pdtGreaterThan rule2);
           pdt2To = to_bound (pdtLessThanOrEqualTo rule2)
       in
       if js_lt pdt1To pdt2From \<or> js_gt pdt1From pdt2To then False
       else
        (let rule1HasMeanDelayGreaterThan = (meanDelayGreaterThan rule1 \<noteq> None);
             rule1HasMeanDelayLessThanOrEqual = (meanDelayLessThanOrEqualTo rule1 \<noteq> None);
             rule2HasMeanDelayGreaterThan = (meanDelayGreaterThan rule2 \<noteq> None);
             rule2HasMeanDelayLessThanOrEqual = (meanDelayLessThanOrEqualTo rule2 \<noteq> None)
         in
         if (\<not> rule1HasMeanDelayGreaterThan \<and> \<not> rule1HasMeanDelayLessThanOrEqual) \<or>
            (\<not> rule2HasMeanDelayGreaterThan \<and> \<not> rule2HasMeanDelayLessThanOrEqual) then True
         else if rule1HasMeanDelayLessThanOrEqual \<and> rule2HasMeanDelayGreaterThan \<and>
            meanDelayLessThanOrEqualTo rule1 = meanDelayGreaterThan rule2 then False
         else if rule2HasMeanDelayLessThanOrEqual \<and> rule1HasMeanDelayGreaterThan \<and>
            meanDelayLessThanOrEqualTo rule2 = meanDelayGreaterThan rule1 then False
         else
          (let md1From = from_bound (meanDelayGreaterThan rule1);
               md1To = to_bound (meanDelayLessThanOrEqualTo rule1);
               md2From = from_bound (meanDelayGreaterThan rule2);
               md2To = to_bound (meanDelayLessThanOrEqualTo rule2)
           in
           if js_lt md1To md2From \<or> js_gt md1From md2To then False
           else True))))"

definition checkOverlappingRangesRules :: "string \<Rightarrow> rule list \<Rightarrow> validationIssues \<Rightarrow> validationIssues" where
  "checkOverlappingRangesRules groupId rs v =
    (let found = map (\<lambda>((i, ri), (j, rj)). RulePair groupId i j
                   (''Rules '' @ show_nat (i + 1) @ '' and '' @ show_nat (j + 1) @
                    '' have overlapping conditions''))
                 (filter (\<lambda>((i, ri), (j, rj)). doRangesRulesOverlap ri rj)
                    (pairs (enumerate 0 rs)))
     in v\<lparr> overlappingRules := overlappingRules v @ found \<rparr>)"

subsection \<open>Capping cardinality\<close>

definition indices_of_type :: "string \<Rightarrow> rule list \<Rightarrow> nat list" where
  "indices_of_type ty rs = map fst (filter (\<lambda>(index, r). rtype r = Some ty) (enumerate 0 rs))"

definition multiple_single_message :: string where
  "multiple_single_message =
     ''Multiple '' @ [CHR 0x27] @ ''single'' @ [CHR 0x27] @ '' rules found. Only one is allowed.''"

definition multiple_ranges_message :: string where
  "multiple_ranges_message =
     ''Multiple '' @ [CHR 0x27] @ ''ranges'' @ [CHR 0x27] @ '' rules found. Only one is allowed.''"

definition checkOverlappingCappingRules :: "string \<Rightarrow> rule list \<Rightarrow> validationIssues \<Rightarrow> validationIssues" where
  "checkOverlappingCappingRules groupId rs v =
    (let singleRules = filter (\<lambda>r. rtype r = Some ''single'') rs;
         rangesRules = filter (\<lambda>r. rtype r = Some ''ranges'') rs;
         v1 = (if length singleRules > 1
               then v\<lparr> overlappingRules := overlappingRules v @
                      [RuleIndices groupId (indices_of_type ''single'' rs) multiple_single_message] \<rparr>
               else v)
     in if length rangesRules > 1
        then v1\<lparr> overlappingRules := overlappingRules v1 @
               [RuleIndices groupId (indices_of_type ''ranges'' rs) multiple_ranges_message] \<rparr>
        else v1)"

definition checkOverlappingRules :: "group \<Rightarrow> validationIssues \<Rightarrow> validationIssues" where
  "checkOverlappingRules g v =
    (if gtype g = ''ranges'' then checkOverlappingRangesRules (gid g) (rules g) v
     else if gtype g = ''capping'' then checkOverlappingCappingRules (gid g) (rules g) v
     else v)"

text \<open>
  \<^verbatim>\<open>validateConfiguration()\<close> on the values of the group index; the result's
  \<^verbatim>\<open>valid\<close> flag is \<open>isValid\<close> of the issues returned.
\<close>

definition check_group_rules :: "validationIssues \<Rightarrow> group \<Rightarrow> validationIssues" where
  "check_group_rules v g = (if length (rules g) > 1 then checkOverlappingRules g v else v)"

definition validateConfiguration :: "group list \<Rightarrow> validationIssues" where
  "validateConfiguration allGroups =
    (let v1 = checkDuplicateGroups allGroups no_issues;
         v2 = checkDuplicateDisplayFormats allGroups v1
     in foldl check_group_rules v2 allGroups)"

section \<open>ConfigManager\<close>

text \<open>
  The manager's state: the flat configuration, the index of groups (an object
  keyed by group identifier), the counter for fresh identifiers, and the
  browser's storage slot \<^verbatim>\<open>pdtConfig\<close> with the number of writes attempted on
  it. Groups are values here; two groups created from one template object
  share their rule array in the program, which none of the properties below
  depends on.
\<close>

record manager =
  config :: config
  groups :: "(string \<times> group) list"
  idCounter :: nat
  localStorage :: "config option"
  storageWrites :: nat

definition saveConfig :: "manager \<Rightarrow> manager" where
  "saveConfig st = st\<lparr> localStorage := Some (config st), storageWrites := storageWrites st + 1 \<rparr>"

subsection \<open>From groups to the flat configuration\<close>

definition cp :: "group \<Rightarrow> string \<Rightarrow> scalar option" where
  "cp g k = obj_get (commonParams g) k"

text \<open>\<^verbatim>\<open>v || d\<close> on a possibly missing scalar.\<close>

definition scalar_or :: "scalar option \<Rightarrow> scalar \<Rightarrow> scalar" where
  "scalar_or v d = (case v of None \<Rightarrow> d | Some x \<Rightarrow> if truthy x then x else d)"

definition marketplace_is_set :: "group \<Rightarrow> bool" where
  "marketplace_is_set g = (cp g ''marketplace'' \<noteq> None \<and> cp g ''marketplace'' \<noteq> Some (SStr []))"

definition parsed_param :: "group \<Rightarrow> string \<Rightarrow> jsnumber option" where
  "parsed_param g k = (case cp g k of None \<Rightarrow> None | Some v \<Rightarrow> Some (parseInt v))"

definition vertical_list :: "group \<Rightarrow> scalar list option" where
  "vertical_list g = (case cp g ''verticalType'' of None \<Rightarrow> None | Some v \<Rightarrow> Some [v])"

text \<open>The conditions of a display-format entry, absent when no parameter is set.\<close>

definition display_format_conditions :: "group \<Rightarrow> conditions option" where
  "display_format_conditions g =
    (let c0 = empty_conditions;
         c1 = (if truthy_opt (cp g ''deliveryMode'')
               then c0\<lparr> delivery_mode := cp g ''deliveryMode'' \<rparr> else c0);
         c2 = (if marketplace_is_set g
               then c1\<lparr> marketplace := Some (SBool (cp g ''marketplace'' = Some (SStr ''true''))) \<rparr>
               else c1);
         c3 = (if truthy_opt (cp g ''pdtLessThanOrEqualTo'')
               then c2\<lparr> pdt_less_than_or_equal_to := parsed_param g ''pdtLessThanOrEqualTo'' \<rparr>
               else c2);
         c4 = (if truthy_opt (cp g ''verticalType'')
               then c3\<lparr> vertical_types := vertical_list g \<rparr> else c3);
         hasConditions = (truthy_opt (cp g ''deliveryMode'') \<or> marketplace_is_set g \<or>
            truthy_opt (cp g ''pdtLessThanOrEqualTo'') \<or> truthy_opt (cp g ''verticalType''))
     in if hasConditions then Some c4 else None)"

definition display_format_entries :: "group \<Rightarrow> entry list" where
  "display_format_entries g =
     map (\<lambda>r. empty_entry\<lparr> entry_format := format r, entry_title := Some (title g),
                 entry_conditions := display_format_conditions g \<rparr>) (rules g)"

definition number_of :: "int option \<Rightarrow> jsnumber option" where
  "number_of v = map_option Finite v"

text \<open>The conditions of a ranges entry: always an object, possibly empty.\<close>

definition ranges_conditions :: "group \<Rightarrow> rule \<Rightarrow> conditions" where
  "ranges_conditions g r =
    (let c0 = empty_conditions\<lparr>
           pdt_greater_than := number_of (pdtGreaterThan r),
           pdt_less_than_or_equal_to := number_of (pdtLessThanOrEqualTo r),
           mean_delay_greater_than := number_of (meanDelayGreaterThan r),
           mean_delay_less_than_or_equal_to := number_of (meanDelayLessThanOrEqualTo r) \<rparr>;
         c1 = (if truthy_opt (cp g ''deliveryMode'')
               then c0\<lparr> delivery_mode := cp g ''deliveryMode'' \<rparr> else c0);
         c2 = (if marketplace_is_set g
               then c1\<lparr> marketplace := Some (SBool (cp g ''marketplace'' = Some (SStr ''true''))) \<rparr>
               else c1)
     in if truthy_opt (cp g ''verticalType'')
        then c2\<lparr> vertical_types := vertical_list g \<rparr> else c2)"

definition ranges_entries :: "group \<Rightarrow> entry list" where
  "ranges_entries g =
     map (\<lambda>r. empty_entry\<lparr>
            delivery_option := Some (scalar_or (cp g ''deliveryOption'') (SStr ''STANDARD'')),
            lower_bound := lowerBound r, upper_bound := upperBound r,
            entry_title := Some (title g),
            entry_conditions := Some (ranges_conditions g r) \<rparr>) (rules g)"

definition capping_conditions :: "group \<Rightarrow> conditions option" where
  "capping_conditions g =
    (let c0 = empty_conditions;
         c1 = (if truthy_opt (cp g ''deliveryMode'')
               then c0\<lparr> delivery_mode := cp g ''deliveryMode'' \<rparr> else c0);
         c2 = (if marketplace_is_set g
               then c1\<lparr> marketplace := Some (SBool (cp g ''marketplace'' = Some (SStr ''true''))) \<rparr>
               else c1);
         c3 = (if truthy_opt (cp g ''pdtGreaterThan'')
               then c2\<lparr> pdt_greater_than := parsed_param g ''pdtGreaterThan'' \<rparr> else c2);
         c4 = (if truthy_opt (cp g ''pdtLessThanOrEqualTo'')
               then c3\<lparr> pdt_less_than_or_equal_to := parsed_param g ''pdtLessThanOrEqualTo'' \<rparr>
               else c3);
         c5 = (if truthy_opt (cp g ''meanDelayGreaterThan'')
               then c4\<lparr> mean_delay_greater_than := parsed_param g ''meanDelayGreaterThan'' \<rparr>
               else c4);
         c6 = (if truthy_opt (cp g ''meanDelayLessThanOrEqualTo'')
               then c5\<lparr> mean_delay_less_than_or_equal_to :=
                      parsed_param g ''meanDelayLessThanOrEqualTo'' \<rparr>
               else c5);
         c7 = (if truthy_opt (cp g ''verticalType'')
               then c6\<lparr> vertical_types := vertical_list g \<rparr> else c6);
         hasConditions = (truthy_opt (cp g ''deliveryMode'') \<or> marketplace_is_set g \<or>
            truthy_opt (cp g ''pdtGreaterThan'') \<or> truthy_opt (cp g ''pdtLessThanOrEqualTo'') \<or>
            truthy_opt (cp g ''meanDelayGreaterThan'') \<or>
            truthy_opt (cp g ''meanDelayLessThanOrEqualTo'') \<or> truthy_opt (cp g ''verticalType''))
     in if hasConditions then Some c7 else None)"

text \<open>One capping entry per group, holding the first rule of each variant.\<close>

definition capping_entry :: "group \<Rightarrow> entry" where
  "capping_entry g =
    (let singleRules = filter (\<lambda>r. rtype r = Some ''single'') (rules g);
         rangesRules = filter (\<lambda>r. rtype r = Some ''ranges'') (rules g)
     in empty_entry\<lparr>
          delivery_option := Some (scalar_or (cp g ''deliveryOption'') (SStr ''STANDARD'')),
          entry_title := Some (title g),
          entry_conditions := capping_conditions g,
          single := (case singleRules of [] \<Rightarrow> None
                     | r # _ \<Rightarrow> Some \<lparr> single_min = rmin r, single_max = rmax r \<rparr>),
          entry_ranges := (case rangesRules of [] \<Rightarrow> None
                     | r # _ \<Rightarrow> Some \<lparr>
                         ranges_min = \<lparr> lower_bound_of = minLowerBound r,
                                         upper_bound_of = minUpperBound r \<rparr>,
                         ranges_max = \<lparr> lower_bound_of = maxLowerBound r,
                                         upper_bound_of = maxUpperBound r \<rparr> \<rparr>) \<rparr>)"

definition rounding_entry :: "group \<Rightarrow> entry" where
  "rounding_entry g = empty_entry\<lparr>
     strategy := Some (scalar_or (cp g ''strategy'') (SStr ''NEAREST_5'')),
     entry_title := Some (title g) \<rparr>"

definition groups_of_type :: "string \<Rightarrow> manager \<Rightarrow> group list" where
  "groups_of_type ty st = filter (\<lambda>g. gtype g = ty) (map snd (groups st))"

definition sections_from_groups :: "manager \<Rightarrow> pdt_section list" where
  "sections_from_groups st =
    (let dfs = groups_of_type ''display-format'' st;
         rgs = groups_of_type ''ranges'' st;
         cps = groups_of_type ''capping'' st;
         rds = groups_of_type ''rounding'' st
     in (if length dfs > 0
         then [empty_section\<lparr> display_format := Some (concat (map display_format_entries dfs)) \<rparr>]
         else []) @
        (if length rgs > 0
         then [empty_section\<lparr> ranges := Some (concat (map ranges_entries rgs)) \<rparr>]
         else []) @
        (if length cps > 0
         then [empty_section\<lparr> capping := Some (map capping_entry cps) \<rparr>]
         else []) @
        (if length rds > 0
         then [empty_section\<lparr> rounding := Some (map rounding_entry rds) \<rparr>]
         else []))"

definition updateConfigFromGroups :: "manager \<Rightarrow> manager" where
  "updateConfigFromGroups st =
     saveConfig (st\<lparr> config := (config st)\<lparr> pdt := sections_from_groups st \<rparr> \<rparr>)"

subsection \<open>Mutators\<close>

definition sectionTypeToDisplayName :: "string \<Rightarrow> string" where
  "sectionTypeToDisplayName sectionType =
    (if sectionType = ''display-format'' then ''Display Format''
     else if sectionType = ''ranges'' then ''Range''
     else if sectionType = ''capping'' then ''Capping''
     else if sectionType = ''rounding'' then ''Rounding''
     else sectionType)"

definition default_ranges_rule :: rule where
  "default_ranges_rule = empty_rule\<lparr> lowerBound := Some (- 10), upperBound := Some 5 \<rparr>"

definition default_single_rule :: rule where
  "default_single_rule = empty_rule\<lparr> rtype := Some ''single'', rmin := Some 5, rmax := Some 180 \<rparr>"

definition default_capping_ranges_rule :: rule where
  "default_capping_ranges_rule = empty_rule\<lparr> rtype := Some ''ranges'',
     minLowerBound := Some 10, minUpperBound := Some 20,
     maxLowerBound := Some 160, maxUpperBound := Some 180 \<rparr>"

definition display_rule :: "string \<Rightarrow> rule" where
  "display_rule f = empty_rule\<lparr> format := Some f, rule_conditions := Some empty_conditions \<rparr>"

definition createDefaultRules :: "string \<Rightarrow> rule list" where
  "createDefaultRules sectionType =
    (if sectionType = ''display-format'' then [display_rule ''DISPLAY_FORMAT_MINUTE_RANGE'']
     else if sectionType = ''ranges'' then [default_ranges_rule]
     else if sectionType = ''capping'' then [default_single_rule]
     else [])"

definition adaptTemplateToSectionType :: "group \<Rightarrow> string \<Rightarrow> string \<Rightarrow> group" where
  "adaptTemplateToSectionType templateGroup targetSectionType newId =
    (let tp = (\<lambda>k. obj_get (commonParams templateGroup) k);
         adapted = \<lparr> gid = newId, gtype = targetSectionType,
           title = ''New '' @ sectionTypeToDisplayName targetSectionType,
           commonParams = [], rules = [] \<rparr>;
         adapted1 =
          (if targetSectionType = ''display-format'' then
             adapted\<lparr> commonParams :=
                 [(''deliveryMode'', scalar_or (tp ''deliveryMode'') (SStr ''DELIVERY'')),
                  (''marketplace'', scalar_or (tp ''marketplace'') (SStr ''false''))],
               rules := createDefaultRules ''display-format'' \<rparr>
           else if targetSectionType = ''ranges'' then
             adapted\<lparr> commonParams :=
                 [(''deliveryOption'', scalar_or (tp ''deliveryOption'') (SStr ''STANDARD'')),
                  (''deliveryMode'', scalar_or (tp ''deliveryMode'') (SStr ''DELIVERY'')),
                  (''marketplace'', scalar_or (tp ''marketplace'') (SStr ''false'')),
                  (''verticalType'', scalar_or (tp ''verticalType'') (SStr []))],
               rules := createDefaultRules ''ranges'' \<rparr>
           else if targetSectionType = ''capping'' then
             adapted\<lparr> commonParams :=
                 [(''deliveryOption'', scalar_or (tp ''deliveryOption'') (SStr ''STANDARD'')),
                  (''deliveryMode'', scalar_or (tp ''deliveryMode'') (SStr ''DELIVERY''))],
               rules := createDefaultRules ''capping'' \<rparr>
           else if targetSectionType = ''rounding'' then
             adapted\<lparr> commonParams := [(''strategy'', SStr ''NEAREST_5'')], rules := [] \<rparr>
           else adapted)
     in if title templateGroup \<noteq> [] then adapted1\<lparr> title := title templateGroup \<rparr>
        else adapted1)"

definition addGroup :: "string \<Rightarrow> group option \<Rightarrow> manager \<Rightarrow> string \<times> manager" where
  "addGroup sectionType templateGroup st =
    (let newId = sectionType @ ''-'' @ show_nat (idCounter st);
         st1 = st\<lparr> idCounter := idCounter st + 1 \<rparr>;
         g = (case templateGroup of
                Some t \<Rightarrow> if gtype t \<noteq> sectionType
                          then adaptTemplateToSectionType t sectionType newId
                          else t\<lparr> gid := newId \<rparr>
              | None \<Rightarrow> \<lparr> gid = newId, gtype = sectionType,
                          title = ''New '' @ sectionTypeToDisplayName sectionType,
                          commonParams = [], rules = createDefaultRules sectionType \<rparr>);
         st2 = st1\<lparr> groups := obj_set newId g (groups st1) \<rparr>
     in (newId, updateConfigFromGroups st2))"

text \<open>
  The seven mutators below look the group up with \<^verbatim>\<open>this.groups[groupId]\<close>, the
  identifier coming from the caller. Where the index has no such group, the
  read still finds a member inherited from \<^verbatim>\<open>Object.prototype\<close> when the
  identifier is one of its names, and the guard \<^verbatim>\<open>if (!group)\<close> lets it pass.
  What follows then is written out per mutator. A mutator that can throw
  returns an outcome: the returned value with the state, or the exception with
  the state at the throw. \<^verbatim>\<open>deleteGroup\<close>, \<^verbatim>\<open>addRule\<close> and \<^verbatim>\<open>updateGroupTitle\<close>
  have no statement that throws, on a group or on an inherited member, and
  return the pair of their value and the state.

  \<^verbatim>\<open>cloneGroup('__proto__')\<close> copies the prototype object itself: it puts an
  object without type, parameters and rules into the index, under the
  identifier \<^verbatim>\<open>undefined-n\<close>. The group record cannot hold it; the outcome
  \<open>Leaves_model\<close> marks this one call, after which the state is followed no
  further.

  \<^verbatim>\<open>updateGroupTitle\<close> on an inherited member assigns the title to that member,
  an object outside the manager. No read in the manager sees it, since every
  group carries a title of its own.
\<close>

datatype error = TypeError | SyntaxError

datatype 'a outcome = Returns 'a manager | Throws error manager | Leaves_model

text \<open>
  \<^verbatim>\<open>cloneGroup\<close> returns the new identifier, or \<^verbatim>\<open>null\<close> (here \<open>None\<close>). On an
  inherited function the counter is incremented while the identifier is
  built, then \<^verbatim>\<open>JSON.parse(JSON.stringify(f))\<close>, that is \<^verbatim>\<open>JSON.parse(undefined)\<close>,
  throws.
\<close>

definition cloneGroup :: "string \<Rightarrow> manager \<Rightarrow> string option outcome" where
  "cloneGroup groupId st =
    (case obj_member (groups st) groupId of
       Undefined \<Rightarrow> Returns None st
     | Own sourceGroup \<Rightarrow>
        (let newId = gtype sourceGroup @ ''-'' @ show_nat (idCounter st);
             st1 = st\<lparr> idCounter := idCounter st + 1 \<rparr>;
             g = sourceGroup\<lparr> gid := newId, title := ''Copy of '' @ title sourceGroup \<rparr>;
             st2 = st1\<lparr> groups := obj_set newId g (groups st1) \<rparr>
         in Returns (Some newId) (updateConfigFromGroups st2))
     | Inherited_function \<Rightarrow> Throws SyntaxError (st\<lparr> idCounter := idCounter st + 1 \<rparr>)
     | Prototype_object \<Rightarrow> Leaves_model)"

text \<open>
  \<^verbatim>\<open>deleteGroup\<close>: on an inherited member \<^verbatim>\<open>delete\<close> finds no own property and
  removes nothing; the configuration is rebuilt and stored all the same.
\<close>

definition deleteGroup :: "string \<Rightarrow> string \<Rightarrow> manager \<Rightarrow> bool \<times> manager" where
  "deleteGroup sectionType groupId st =
    (case obj_member (groups st) groupId of
       Undefined \<Rightarrow> (False, st)
     | Own g \<Rightarrow> (True, updateConfigFromGroups (st\<lparr> groups := obj_delete groupId (groups st) \<rparr>))
     | _ \<Rightarrow> (True, updateConfigFromGroups st))"

text \<open>
  \<^verbatim>\<open>updateGroupCommonParam\<close>: an inherited member has no \<^verbatim>\<open>commonParams\<close>, and the
  assignment to a property of \<^verbatim>\<open>undefined\<close> throws.
\<close>

definition updateGroupCommonParam :: "string \<Rightarrow> string \<Rightarrow> scalar \<Rightarrow> manager \<Rightarrow> bool outcome" where
  "updateGroupCommonParam groupId paramName v st =
    (case obj_member (groups st) groupId of
       Undefined \<Rightarrow> Returns False st
     | Own g \<Rightarrow>
         Returns True (updateConfigFromGroups (st\<lparr> groups :=
            obj_set groupId (g\<lparr> commonParams := obj_assign paramName v (commonParams g) \<rparr>)
              (groups st) \<rparr>))
     | _ \<Rightarrow> Throws TypeError st)"

definition format_or_default :: "string option \<Rightarrow> string" where
  "format_or_default f = (if truthy_str f then format_text f else ''DISPLAY_FORMAT_MINUTE_RANGE'')"

definition new_rule_for :: "group \<Rightarrow> string option \<Rightarrow> rule list" where
  "new_rule_for g fmt =
    (if gtype g = ''display-format'' then [display_rule (format_or_default fmt)]
     else if gtype g = ''ranges'' then
       (if length (rules g) > 0 then [last (rules g)] else [default_ranges_rule])
     else if gtype g = ''capping'' then [default_single_rule]
     else [])"

text \<open>
  \<^verbatim>\<open>addRule\<close>: the \<^verbatim>\<open>type\<close> of an inherited member is \<^verbatim>\<open>undefined\<close>, no case of
  the \<^verbatim>\<open>switch\<close> applies, and the configuration is rebuilt and stored.
\<close>

definition addRule :: "string \<Rightarrow> string option \<Rightarrow> manager \<Rightarrow> bool \<times> manager" where
  "addRule groupId fmt st =
    (case obj_member (groups st) groupId of
       Undefined \<Rightarrow> (False, st)
     | Own g \<Rightarrow>
         (True, updateConfigFromGroups (st\<lparr> groups :=
            obj_set groupId (g\<lparr> rules := rules g @ new_rule_for g fmt \<rparr>) (groups st) \<rparr>))
     | _ \<Rightarrow> (True, updateConfigFromGroups st))"

text \<open>
  \<^verbatim>\<open>group.rules[ruleIndex]\<close>: \<^verbatim>\<open>undefined\<close> outside the array. A field value
  passed to \<^verbatim>\<open>updateRule\<close> is a string, an integer or \<^verbatim>\<open>null\<close>.
\<close>

definition rule_at :: "rule list \<Rightarrow> int \<Rightarrow> rule option" where
  "rule_at rs i = (if 0 \<le> i \<and> nat i < length rs then Some (rs ! nat i) else None)"

datatype field_value = FNull | FStr string | FNum int

fun as_number :: "field_value \<Rightarrow> int option" where
  "as_number (FNum n) = Some n"
| "as_number _ = None"

fun as_text :: "field_value \<Rightarrow> string option" where
  "as_text (FStr s) = Some s"
| "as_text _ = None"

text \<open>
  The assignment \<^verbatim>\<open>rule[field] = value\<close> on the fields of the rule record. A
  field name outside the record, which the program would add to the object as
  a property that nothing reads, leaves the record as it is.
\<close>

definition set_rule_field :: "string \<Rightarrow> field_value \<Rightarrow> rule \<Rightarrow> rule" where
  "set_rule_field field v r =
    (if field = ''type'' then r\<lparr> rtype := as_text v \<rparr>
     else if field = ''format'' then r\<lparr> format := as_text v \<rparr>
     else if field = ''lowerBound'' then r\<lparr> lowerBound := as_number v \<rparr>
     else if field = ''upperBound'' then r\<lparr> upperBound := as_number v \<rparr>
     else if field = ''pdtGreaterThan'' then r\<lparr> pdtGreaterThan := as_number v \<rparr>
     else if field = ''pdtLessThanOrEqualTo'' then r\<lparr> pdtLessThanOrEqualTo := as_number v \<rparr>
     else if field = ''meanDelayGreaterThan'' then r\<lparr> meanDelayGreaterThan := as_number v \<rparr>
     else if field = ''meanDelayLessThanOrEqualTo''
       then r\<lparr> meanDelayLessThanOrEqualTo := as_number v \<rparr>
     else if field = ''min'' then r\<lparr> rmin := as_number v \<rparr>
     else if field = ''max'' then r\<lparr> rmax := as_number v \<rparr>
     else if field = ''minLowerBound'' then r\<lparr> minLowerBound := as_number v \<rparr>
     else if field = ''minUpperBound'' then r\<lparr> minUpperBound := as_number v \<rparr>
     else if field = ''maxLowerBound'' then r\<lparr> maxLowerBound := as_number v \<rparr>
     else if field = ''maxUpperBound'' then r\<lparr> maxUpperBound := as_number v \<rparr>
     else r)"

definition updated_rule :: "group \<Rightarrow> rule \<Rightarrow> string \<Rightarrow> field_value \<Rightarrow> rule" where
  "updated_rule g r field v =
    (if gtype g = ''capping'' \<and> field = ''type'' then
       (if v = FStr ''single'' then default_single_rule
        else if v = FStr ''ranges'' then default_capping_ranges_rule
        else r)
     else set_rule_field field v r)"

text \<open>
  \<^verbatim>\<open>updateRule\<close> and \<^verbatim>\<open>deleteRule\<close> test \<^verbatim>\<open>!group || !group.rules[ruleIndex]\<close>: an
  inherited member has no \<^verbatim>\<open>rules\<close>, and the read of an element of
  \<^verbatim>\<open>undefined\<close> throws.
\<close>

definition updateRule :: "string \<Rightarrow> int \<Rightarrow> string \<Rightarrow> field_value \<Rightarrow> manager \<Rightarrow> bool outcome" where
  "updateRule groupId ruleIndex field v st =
    (case obj_member (groups st) groupId of
       Undefined \<Rightarrow> Returns False st
     | Own g \<Rightarrow>
        (case rule_at (rules g) ruleIndex of
           None \<Rightarrow> Returns False st
         | Some r \<Rightarrow>
            Returns True (updateConfigFromGroups (st\<lparr> groups :=
               obj_set groupId (g\<lparr> rules := (rules g)[nat ruleIndex := updated_rule g r field v] \<rparr>)
                 (groups st) \<rparr>)))
     | _ \<Rightarrow> Throws TypeError st)"

definition splice1 :: "nat \<Rightarrow> 'a list \<Rightarrow> 'a list" where
  "splice1 i xs = take i xs @ drop (Suc i) xs"

definition deleteRule :: "string \<Rightarrow> int \<Rightarrow> manager \<Rightarrow> bool outcome" where
  "deleteRule groupId ruleIndex st =
    (case obj_member (groups st) groupId of
       Undefined \<Rightarrow> Returns False st
     | Own g \<Rightarrow>
        (case rule_at (rules g) ruleIndex of
           None \<Rightarrow> Returns False st
         | Some r \<Rightarrow>
            Returns True (updateConfigFromGroups (st\<lparr> groups :=
               obj_set groupId (g\<lparr> rules := splice1 (nat ruleIndex) (rules g) \<rparr>) (groups st) \<rparr>)))
     | _ \<Rightarrow> Throws TypeError st)"

text \<open>
  \<^verbatim>\<open>updateGroupTitle\<close>: a ranges group whose rules reach from a lower bound of at
  most zero up to an upper bound of at least 100 is retitled.
\<close>

definition covers_all_positive :: "rule list \<Rightarrow> bool" where
  "covers_all_positive rs =
    (let hasZeroLowerBound = list_ex (\<lambda>r.
           (case pdtGreaterThan r of None \<Rightarrow> True | Some g \<Rightarrow> g \<le> 0) \<and>
           pdtLessThanOrEqualTo r \<noteq> None) rs;
         uppers = concat (map (\<lambda>r. case pdtLessThanOrEqualTo r of None \<Rightarrow> [] | Some u \<Rightarrow> [u]) rs)
     in hasZeroLowerBound \<and> (case uppers of [] \<Rightarrow> False | u # us \<Rightarrow> fold max us u \<ge> 100))"

definition updateGroupTitle :: "string \<Rightarrow> string \<Rightarrow> manager \<Rightarrow> bool \<times> manager" where
  "updateGroupTitle groupId newTitle st =
    (case obj_member (groups st) groupId of
       Undefined \<Rightarrow> (False, st)
     | Own g \<Rightarrow>
        (let newTitle1 =
              (if gtype g = ''ranges'' \<and> \<not> startsWith newTitle ''Copy of'' \<and>
                  covers_all_positive (rules g)
               then ''Ranges (All Positive PDT)'' else newTitle);
             st1 = st\<lparr> groups := obj_set groupId (g\<lparr> title := newTitle1 \<rparr>) (groups st) \<rparr>
         in (True, saveConfig (updateConfigFromGroups st1)))
     | _ \<Rightarrow> (True, saveConfig (updateConfigFromGroups st)))"
subsection \<open>The grouping key\<close>

text \<open>
  The key that \<^verbatim>\<open>groupByCommonParams\<close> computes for one entry, from the three
  cases of the source: no conditions at all, only a delivery option without a
  conditions object, full conditions.
\<close>

definition hasAnyConditions :: "entry \<Rightarrow> bool" where
  "hasAnyConditions e =
     (case entry_conditions e of None \<Rightarrow> False | Some c \<Rightarrow> conditions_key_count c > 0)"

definition hasOnlyDeliveryOption :: "entry \<Rightarrow> bool" where
  "hasOnlyDeliveryOption e =
     (\<not> hasAnyConditions e \<and> truthy_opt (delivery_option e) \<and> entry_conditions e = None)"

definition scalar_text :: "scalar option \<Rightarrow> string" where
  "scalar_text v = (case v of None \<Rightarrow> ''undefined'' | Some x \<Rightarrow> js_string x)"

definition number_text :: "jsnumber option \<Rightarrow> string" where
  "number_text v = (case v of None \<Rightarrow> ''undefined'' | Some x \<Rightarrow> show_number x)"

definition delivery_option_part :: "entry \<Rightarrow> string" where
  "delivery_option_part e = ''delivery_option:'' @ toUpperCase (scalar_text (delivery_option e))"

definition param_key_parts :: "conditions \<Rightarrow> string \<Rightarrow> string list" where
  "param_key_parts c key =
    (if key = ''delivery_mode'' \<and> truthy_opt (delivery_mode c) then
       [''delivery_mode:'' @ toUpperCase (scalar_text (delivery_mode c))]
     else if key = ''marketplace'' \<and> marketplace c \<noteq> None then
       [''marketplace:'' @
          (if marketplace c = Some (SBool True) \<or> marketplace c = Some (SStr ''true'')
           then ''true'' else ''false'')]
     else if key = ''vertical_types'' then
       [''vertical_types:'' @
          (case vertical_types c of
             None \<Rightarrow> ''ANY''
           | Some vs \<Rightarrow> if length vs > 0 then join '','' (map js_string vs) else ''ANY'')]
     else if key = ''pdt_less_than_or_equal_to'' \<and> pdt_less_than_or_equal_to c \<noteq> None then
       [''pdt_less_than_or_equal_to:'' @ number_text (pdt_less_than_or_equal_to c)]
     else [])"

definition common_params_key_parts :: "entry \<Rightarrow> string list \<Rightarrow> string list" where
  "common_params_key_parts e paramKeys =
    (if \<not> hasAnyConditions e \<and> \<not> hasOnlyDeliveryOption e then [''conditions:none'']
     else if hasOnlyDeliveryOption e then
       [delivery_option_part e, ''conditions:delivery_option_only'']
     else
       (if truthy_opt (delivery_option e) then [delivery_option_part e] else []) @
       (case entry_conditions e of
          None \<Rightarrow> []
        | Some c \<Rightarrow> concat (map (param_key_parts c) paramKeys)))"

definition common_params_key :: "entry \<Rightarrow> string list \<Rightarrow> string" where
  "common_params_key e paramKeys =
    (let key = join ''|'' (common_params_key_parts e paramKeys)
     in if key = [] then ''default'' else key)"

definition groupByCommonParams :: "entry list \<Rightarrow> string list \<Rightarrow> (string \<times> entry list) list" where
  "groupByCommonParams entries paramKeys = group_by (\<lambda>e. common_params_key e paramKeys) entries"

subsection \<open>Sorting ranges entries\<close>

text \<open>
  The comparator of \<^verbatim>\<open>sortRangeEntries\<close> compares two numbers with \<^verbatim>\<open>!==\<close> and
  returns their difference; what matters of the difference is its sign, where
  \<^verbatim>\<open>NaN\<close> counts as zero.
\<close>

datatype xnum = XNaN | XNegInf | XFin int | XPosInf

datatype sign = Negative | Zero | Positive

fun strictly_differ :: "xnum \<Rightarrow> xnum \<Rightarrow> bool" where
  "strictly_differ XNaN _ = True"
| "strictly_differ _ XNaN = True"
| "strictly_differ a b = (a \<noteq> b)"

fun difference_sign :: "xnum \<Rightarrow> xnum \<Rightarrow> sign" where
  "difference_sign XNaN _ = Zero"
| "difference_sign _ XNaN = Zero"
| "difference_sign XNegInf XNegInf = Zero"
| "difference_sign XNegInf _ = Negative"
| "difference_sign XPosInf XPosInf = Zero"
| "difference_sign XPosInf _ = Positive"
| "difference_sign (XFin a) XNegInf = Positive"
| "difference_sign (XFin a) XPosInf = Negative"
| "difference_sign (XFin a) (XFin b) = (if a < b then Negative else if a = b then Zero else Positive)"

fun lower_or_neg_infinity :: "jsnumber option \<Rightarrow> xnum" where
  "lower_or_neg_infinity None = XNegInf"
| "lower_or_neg_infinity (Some NaN) = XNaN"
| "lower_or_neg_infinity (Some (Finite n)) = XFin n"

fun upper_or_infinity :: "jsnumber option \<Rightarrow> xnum" where
  "upper_or_infinity None = XPosInf"
| "upper_or_infinity (Some NaN) = XNaN"
| "upper_or_infinity (Some (Finite n)) = XFin n"

definition plain_number :: "int option \<Rightarrow> xnum" where
  "plain_number v = (case v of None \<Rightarrow> XNaN | Some n \<Rightarrow> XFin n)"

definition cond_number :: "entry \<Rightarrow> (conditions \<Rightarrow> jsnumber option) \<Rightarrow> jsnumber option" where
  "cond_number e f = (case entry_conditions e of None \<Rightarrow> None | Some c \<Rightarrow> f c)"

definition compare_range_entries :: "entry \<Rightarrow> entry \<Rightarrow> sign" where
  "compare_range_entries a b =
    (let aPdtLower = lower_or_neg_infinity (cond_number a pdt_greater_than);
         aPdtUpper = upper_or_infinity (cond_number a pdt_less_than_or_equal_to);
         bPdtLower = lower_or_neg_infinity (cond_number b pdt_greater_than);
         bPdtUpper = upper_or_infinity (cond_number b pdt_less_than_or_equal_to)
     in if strictly_differ aPdtLower bPdtLower then difference_sign aPdtLower bPdtLower
        else if strictly_differ aPdtUpper bPdtUpper then difference_sign aPdtUpper bPdtUpper
        else
         (let aMdLower = lower_or_neg_infinity (cond_number a mean_delay_greater_than);
              aMdUpper = upper_or_infinity (cond_number a mean_delay_less_than_or_equal_to);
              bMdLower = lower_or_neg_infinity (cond_number b mean_delay_greater_than);
              bMdUpper = upper_or_infinity (cond_number b mean_delay_less_than_or_equal_to)
          in if strictly_differ aMdLower bMdLower then difference_sign aMdLower bMdLower
             else if strictly_differ aMdUpper bMdUpper then difference_sign aMdUpper bMdUpper
             else if lower_bound a \<noteq> lower_bound b
               then difference_sign (plain_number (lower_bound a)) (plain_number (lower_bound b))
             else difference_sign (plain_number (upper_bound a)) (plain_number (upper_bound b))))"

text \<open>
  \<^verbatim>\<open>Array.prototype.sort\<close> is stable; it is modelled by a stable insertion
  sort. Where the comparator is not a consistent order (a \<^verbatim>\<open>NaN\<close> bound), the
  order that JavaScript produces is implementation-defined, and only the fact
  that sorting permutes the entries is used below.
\<close>

fun insert_by :: "('a \<Rightarrow> 'a \<Rightarrow> sign) \<Rightarrow> 'a \<Rightarrow> 'a list \<Rightarrow> 'a list" where
  "insert_by cmp x [] = [x]"
| "insert_by cmp x (y # ys) =
     (if cmp x y \<noteq> Positive then x # y # ys else y # insert_by cmp x ys)"

definition sort_by :: "('a \<Rightarrow> 'a \<Rightarrow> sign) \<Rightarrow> 'a list \<Rightarrow> 'a list" where
  "sort_by cmp xs = foldr (insert_by cmp) xs []"

definition sortRangeEntries :: "entry list \<Rightarrow> entry list" where
  "sortRangeEntries entries = sort_by compare_range_entries entries"

subsection \<open>From the flat configuration to groups\<close>

definition getSectionType :: "pdt_section \<Rightarrow> string" where
  "getSectionType s =
    (if display_format s \<noteq> None then ''display-format''
     else if ranges s \<noteq> None then ''ranges''
     else if capping s \<noteq> None then ''capping''
     else if rounding s \<noteq> None then ''rounding''
     else ''unknown'')"

fun str_includes :: "string \<Rightarrow> string \<Rightarrow> bool" where
  "str_includes [] p = (p = [])"
| "str_includes (c # cs) p = (startsWith (c # cs) p \<or> str_includes cs p)"

definition key_without_conditions :: "string \<Rightarrow> bool" where
  "key_without_conditions commonParamsKey =
     (commonParamsKey = ''conditions:none'' \<or>
      str_includes commonParamsKey ''conditions:delivery_option_only'')"

definition cond_scalar :: "entry \<Rightarrow> (conditions \<Rightarrow> scalar option) \<Rightarrow> scalar option" where
  "cond_scalar e f = (case entry_conditions e of None \<Rightarrow> None | Some c \<Rightarrow> f c)"

definition cond_verticals :: "entry \<Rightarrow> scalar list option" where
  "cond_verticals e = (case entry_conditions e of None \<Rightarrow> None | Some c \<Rightarrow> vertical_types c)"

text \<open>\<^verbatim>\<open>conditions?.marketplace?.toString() || 'false'\<close>.\<close>

definition marketplace_text :: "entry \<Rightarrow> scalar" where
  "marketplace_text e =
    (case cond_scalar e marketplace of
       None \<Rightarrow> SStr ''false''
     | Some v \<Rightarrow> if js_string v = [] then SStr ''false'' else SStr (js_string v))"

text \<open>\<^verbatim>\<open>number || ''\<close> and \<^verbatim>\<open>number || null\<close>: zero and \<^verbatim>\<open>NaN\<close> are falsy.\<close>

fun number_or_blank :: "jsnumber option \<Rightarrow> scalar" where
  "number_or_blank (Some (Finite n)) = (if n \<noteq> 0 then SNum n else SStr [])"
| "number_or_blank _ = SStr []"

fun number_or_null :: "jsnumber option \<Rightarrow> int option" where
  "number_or_null (Some (Finite n)) = (if n \<noteq> 0 then Some n else None)"
| "number_or_null _ = None"

definition first_vertical_or_blank :: "entry \<Rightarrow> scalar" where
  "first_vertical_or_blank e =
    (case cond_verticals e of
       Some (v # _) \<Rightarrow> if truthy v then v else SStr []
     | _ \<Rightarrow> SStr [])"

definition blank_if :: "bool \<Rightarrow> scalar \<Rightarrow> scalar" where
  "blank_if b v = (if b then SStr [] else v)"

definition display_format_group :: "string \<Rightarrow> string \<Rightarrow> entry \<Rightarrow> entry list \<Rightarrow> group" where
  "display_format_group newId commonParamsKey firstEntry entries =
    (let bare = key_without_conditions commonParamsKey;
         title0 = (if bare then ''Display Format (Any)''
                   else ''Display Format'' @
                     (if truthy_opt (cond_scalar firstEntry delivery_mode)
                      then '' '' @ scalar_text (cond_scalar firstEntry delivery_mode) else []));
         title1 = (if truthy_str (entry_title firstEntry)
                   then format_text (entry_title firstEntry) else title0)
     in \<lparr> gid = newId, gtype = ''display-format'', title = title1,
          commonParams =
            [(''deliveryMode'', blank_if bare (scalar_or (cond_scalar firstEntry delivery_mode) (SStr []))),
             (''marketplace'', blank_if bare (marketplace_text firstEntry)),
             (''pdtLessThanOrEqualTo'',
                blank_if bare (number_or_blank (cond_number firstEntry pdt_less_than_or_equal_to))),
             (''verticalType'', blank_if bare (first_vertical_or_blank firstEntry))],
          rules = map (\<lambda>e. empty_rule\<lparr> format := entry_format e,
                     rule_conditions := Some (case entry_conditions e of
                        None \<Rightarrow> empty_conditions | Some c \<Rightarrow> c) \<rparr>) entries \<rparr>)"

text \<open>The rule that the ranges branch builds from one flat entry.\<close>

definition ranges_rule_of_entry :: "entry \<Rightarrow> rule" where
  "ranges_rule_of_entry e = empty_rule\<lparr>
     lowerBound := lower_bound e,
     upperBound := upper_bound e,
     pdtGreaterThan := number_or_null (cond_number e pdt_greater_than),
     pdtLessThanOrEqualTo := number_or_null (cond_number e pdt_less_than_or_equal_to),
     meanDelayGreaterThan := number_or_null (cond_number e mean_delay_greater_than),
     meanDelayLessThanOrEqualTo := number_or_null (cond_number e mean_delay_less_than_or_equal_to) \<rparr>"

definition ranges_group :: "string \<Rightarrow> string \<Rightarrow> entry \<Rightarrow> entry list \<Rightarrow> group" where
  "ranges_group newId commonParamsKey firstEntry entries =
    (let bare = key_without_conditions commonParamsKey;
         verticalType = (if bare then SStr []
                         else (case cond_verticals firstEntry of
                                 Some (v # _) \<Rightarrow> v | _ \<Rightarrow> SStr []));
         title0 =
          (if bare then ''Ranges Default''
           else if truthy_str (entry_title firstEntry) then format_text (entry_title firstEntry)
           else ''Ranges'' @
             (if cond_number firstEntry pdt_less_than_or_equal_to \<noteq> None
              then '' PDT '' @ le_sign @ number_text (cond_number firstEntry pdt_less_than_or_equal_to)
              else if cond_number firstEntry pdt_greater_than \<noteq> None
              then '' PDT >'' @ number_text (cond_number firstEntry pdt_greater_than)
              else []))
     in \<lparr> gid = newId, gtype = ''ranges'', title = title0,
          commonParams =
            [(''deliveryOption'', scalar_or (delivery_option firstEntry) (SStr ''STANDARD'')),
             (''deliveryMode'',
                blank_if bare (scalar_or (cond_scalar firstEntry delivery_mode) (SStr ''DELIVERY''))),
             (''marketplace'', blank_if bare (marketplace_text firstEntry)),
             (''verticalType'', verticalType)],
          rules = map ranges_rule_of_entry (sortRangeEntries entries) \<rparr>)"

definition capping_rules_of_entry :: "entry \<Rightarrow> rule list" where
  "capping_rules_of_entry e =
    (case single e of
       None \<Rightarrow> []
     | Some s \<Rightarrow> [empty_rule\<lparr> rtype := Some ''single'', rmin := single_min s, rmax := single_max s \<rparr>]) @
    (case entry_ranges e of
       None \<Rightarrow> []
     | Some r \<Rightarrow> [empty_rule\<lparr> rtype := Some ''ranges'',
          minLowerBound := lower_bound_of (ranges_min r),
          minUpperBound := upper_bound_of (ranges_min r),
          maxLowerBound := lower_bound_of (ranges_max r),
          maxUpperBound := upper_bound_of (ranges_max r) \<rparr>])"

definition capping_group :: "string \<Rightarrow> string \<Rightarrow> entry \<Rightarrow> entry list \<Rightarrow> group" where
  "capping_group newId commonParamsKey firstEntry entries =
    (let bare = key_without_conditions commonParamsKey;
         title0 =
          (if bare then ''Capping Default''
           else if truthy_str (entry_title firstEntry) then format_text (entry_title firstEntry)
           else ''Capping '' @
             (if truthy_opt (delivery_option firstEntry)
              then scalar_text (delivery_option firstEntry) else []))
     in \<lparr> gid = newId, gtype = ''capping'', title = title0,
          commonParams =
            [(''deliveryOption'', scalar_or (delivery_option firstEntry) (SStr ''STANDARD'')),
             (''deliveryMode'', blank_if bare (scalar_or (cond_scalar firstEntry delivery_mode) (SStr []))),
             (''marketplace'', blank_if bare (marketplace_text firstEntry)),
             (''pdtGreaterThan'', blank_if bare (number_or_blank (cond_number firstEntry pdt_greater_than))),
             (''pdtLessThanOrEqualTo'',
                blank_if bare (number_or_blank (cond_number firstEntry pdt_less_than_or_equal_to))),
             (''meanDelayGreaterThan'',
                blank_if bare (number_or_blank (cond_number firstEntry mean_delay_greater_than))),
             (''meanDelayLessThanOrEqualTo'',
                blank_if bare (number_or_blank (cond_number firstEntry mean_delay_less_than_or_equal_to))),
             (''verticalType'', blank_if bare (first_vertical_or_blank firstEntry))],
          rules = concat (map capping_rules_of_entry entries) \<rparr>)"

definition rounding_group :: "string \<Rightarrow> nat \<Rightarrow> entry \<Rightarrow> group" where
  "rounding_group newId index e =
     \<lparr> gid = newId, gtype = ''rounding'',
       title = (if truthy_str (entry_title e) then format_text (entry_title e)
                else ''Rounding '' @ show_nat (index + 1)),
       commonParams = [(''strategy'', scalar_or (strategy e) (SStr ''NEAREST_5''))],
       rules = [] \<rparr>"

text \<open>
  Registering one group under a fresh identifier. Every key of a grouping holds
  at least one entry, so the first entry exists.
\<close>

definition register_group ::
  "string \<Rightarrow> (string \<Rightarrow> string \<Rightarrow> entry \<Rightarrow> entry list \<Rightarrow> group) \<Rightarrow> manager \<Rightarrow> string \<times> entry list \<Rightarrow> manager" where
  "register_group prefix build st keyed =
    (case snd keyed of
       [] \<Rightarrow> st
     | firstEntry # _ \<Rightarrow>
        (let newId = prefix @ ''-'' @ show_nat (idCounter st)
         in st\<lparr> idCounter := idCounter st + 1,
                groups := obj_set newId (build newId (fst keyed) firstEntry (snd keyed)) (groups st) \<rparr>))"

definition register_rounding :: "manager \<Rightarrow> nat \<times> entry \<Rightarrow> manager" where
  "register_rounding st indexed =
    (let newId = ''rounding-'' @ show_nat (idCounter st)
     in st\<lparr> idCounter := idCounter st + 1,
            groups := obj_set newId (rounding_group newId (fst indexed) (snd indexed)) (groups st) \<rparr>)"

definition rebuild_section :: "manager \<Rightarrow> pdt_section \<Rightarrow> manager" where
  "rebuild_section st s =
    (let sectionType = getSectionType s in
     if sectionType = ''display-format'' then
       (case display_format s of None \<Rightarrow> st
        | Some es \<Rightarrow> foldl (register_group ''display-format'' display_format_group) st
            (groupByCommonParams es
               [''delivery_mode'', ''marketplace'', ''pdt_less_than_or_equal_to'', ''vertical_types'']))
     else if sectionType = ''ranges'' then
       (case ranges s of None \<Rightarrow> st
        | Some es \<Rightarrow> foldl (register_group ''ranges'' ranges_group) st
            (groupByCommonParams es
               [''delivery_option'', ''delivery_mode'', ''marketplace'', ''vertical_types'']))
     else if sectionType = ''capping'' then
       (case capping s of None \<Rightarrow> st
        | Some es \<Rightarrow> foldl (register_group ''capping'' capping_group) st
            (groupByCommonParams es
               [''delivery_option'', ''delivery_mode'', ''marketplace'', ''vertical_types'']))
     else if sectionType = ''rounding'' then
       (case rounding s of None \<Rightarrow> st
        | Some es \<Rightarrow> foldl register_rounding st (enumerate 0 es))
     else st)"

definition rebuildGroupsMapping :: "manager \<Rightarrow> manager" where
  "rebuildGroupsMapping st =
     foldl rebuild_section (st\<lparr> groups := [], idCounter := 0 \<rparr>) (pdt (config st))"

section \<open>ExportImportManager: merging imported sections\<close>

text \<open>The value of \<^verbatim>\<open>conditions[key]\<close> for a key given by name.\<close>

datatype cond_value = CScalar scalar | CNumber jsnumber | CArray "scalar list"

definition condition_value :: "conditions \<Rightarrow> string \<Rightarrow> cond_value option" where
  "condition_value c key =
    (if key = ''delivery_mode'' then map_option CScalar (delivery_mode c)
     else if key = ''marketplace'' then map_option CScalar (marketplace c)
     else if key = ''vertical_types'' then map_option CArray (vertical_types c)
     else if key = ''pdt_greater_than'' then map_option CNumber (pdt_greater_than c)
     else if key = ''pdt_less_than_or_equal_to'' then map_option CNumber (pdt_less_than_or_equal_to c)
     else if key = ''mean_delay_greater_than'' then map_option CNumber (mean_delay_greater_than c)
     else if key = ''mean_delay_less_than_or_equal_to''
       then map_option CNumber (mean_delay_less_than_or_equal_to c)
     else map_option CScalar (obj_get (other_keys c) key))"

fun cond_value_text :: "cond_value \<Rightarrow> string" where
  "cond_value_text (CScalar v) = js_string v"
| "cond_value_text (CNumber n) = show_number n"
| "cond_value_text (CArray vs) = join '','' (map js_string vs)"

definition generateEntryKey :: "entry \<Rightarrow> string list \<Rightarrow> string" where
  "generateEntryKey e paramKeys =
    (let condParts =
          (case entry_conditions e of
             None \<Rightarrow> []
           | Some c \<Rightarrow> concat (map (\<lambda>key. case condition_value c key of
                                   None \<Rightarrow> []
                                 | Some v \<Rightarrow> [key @ '':'' @ cond_value_text v]) paramKeys));
         optionParts =
          (if truthy_opt (delivery_option e)
           then [''delivery_option:'' @ scalar_text (delivery_option e)] else [])
     in join ''|'' (condParts @ optionParts))"

text \<open>The key of a pair of bounds, shared by the PDT and the Mean-Delay grouping.\<close>

definition bounds_key :: "jsnumber option \<Rightarrow> jsnumber option \<Rightarrow> string" where
  "bounds_key gt le =
    (if gt \<noteq> None \<and> le \<noteq> None then number_text gt @ ''-'' @ number_text le
     else if gt \<noteq> None then ''>'' @ number_text gt
     else if le \<noteq> None then le_sign @ number_text le
     else ''default'')"

definition pdt_bounds_key :: "entry \<Rightarrow> string" where
  "pdt_bounds_key e =
     bounds_key (cond_number e pdt_greater_than) (cond_number e pdt_less_than_or_equal_to)"

definition mean_delay_key :: "entry \<Rightarrow> string" where
  "mean_delay_key e =
     bounds_key (cond_number e mean_delay_greater_than)
       (cond_number e mean_delay_less_than_or_equal_to)"

definition groupRangesByPdtBounds :: "entry list \<Rightarrow> (string \<times> entry list) list" where
  "groupRangesByPdtBounds entries = group_by pdt_bounds_key entries"

definition groupEntriesByMeanDelay :: "entry list \<Rightarrow> (string \<times> entry list) list" where
  "groupEntriesByMeanDelay entries = group_by mean_delay_key entries"

definition bounds_description :: "jsnumber option \<Rightarrow> jsnumber option \<Rightarrow> string" where
  "bounds_description gt le =
    (if gt \<noteq> None \<and> le \<noteq> None then number_text gt @ ''-'' @ number_text le
     else if gt \<noteq> None then ''>'' @ number_text gt
     else if le \<noteq> None then le_sign @ number_text le
     else [])"

definition getMeanDelayDescription :: "conditions option \<Rightarrow> string" where
  "getMeanDelayDescription cs =
    (case cs of
       None \<Rightarrow> []
     | Some c \<Rightarrow>
        if mean_delay_greater_than c \<noteq> None \<or> mean_delay_less_than_or_equal_to c \<noteq> None
        then ''Mean Delay '' @
             bounds_description (mean_delay_greater_than c) (mean_delay_less_than_or_equal_to c)
        else ''Default Mean Delay'')"

definition getPdtRangeDescription :: "conditions option \<Rightarrow> string" where
  "getPdtRangeDescription cs =
    (case cs of
       None \<Rightarrow> ''Default''
     | Some c \<Rightarrow>
        if pdt_greater_than c \<noteq> None \<or> pdt_less_than_or_equal_to c \<noteq> None
        then ''PDT '' @ bounds_description (pdt_greater_than c) (pdt_less_than_or_equal_to c)
        else ''Default'')"

text \<open>\<^verbatim>\<open>type.charAt(0).toUpperCase() + type.slice(1)\<close>.\<close>

definition capitalize :: "string \<Rightarrow> string" where
  "capitalize s = toUpperCase (take 1 s) @ drop 1 s"

text \<open>\<^verbatim>\<open>entry._title || fallback\<close>.\<close>

definition title_or :: "entry \<Rightarrow> string \<Rightarrow> string" where
  "title_or e fallback = (if truthy_str (entry_title e) then format_text (entry_title e) else fallback)"

definition first_conditions :: "entry list \<Rightarrow> conditions option" where
  "first_conditions es = (case es of [] \<Rightarrow> None | e # _ \<Rightarrow> entry_conditions e)"

definition string_text :: "string option \<Rightarrow> string" where
  "string_text v = (case v of None \<Rightarrow> ''undefined'' | Some s \<Rightarrow> s)"

definition merge_display_format :: "entry list \<Rightarrow> string list \<Rightarrow> entry list" where
  "merge_display_format entries commonParamKeys =
     concat (map (\<lambda>(key, entriesGroup).
        map (\<lambda>e. empty_entry\<lparr> entry_format := entry_format e,
                    entry_conditions := entry_conditions e,
                    entry_title := Some (title_or e (''Format: '' @ string_text (entry_format e))) \<rparr>)
          entriesGroup)
       (group_by (\<lambda>e. generateEntryKey e commonParamKeys) entries))"

definition titled_mean_delay_group :: "string \<Rightarrow> nat \<Rightarrow> string \<times> entry list \<Rightarrow> entry list" where
  "titled_mean_delay_group baseTitle groupCount keyed =
    (let meanDelayKey = fst keyed; meanDelayEntries = snd keyed;
         groupTitle =
          (if groupCount > 1 \<and> meanDelayKey \<noteq> ''default''
           then baseTitle @ '', '' @ getMeanDelayDescription (first_conditions meanDelayEntries)
           else baseTitle)
     in map (\<lambda>(index, e). e\<lparr> entry_title := Some (title_or e
                 (if length meanDelayEntries > 1 then groupTitle @ '' '' @ show_nat (index + 1)
                  else groupTitle)) \<rparr>)
          (enumerate 0 meanDelayEntries))"

definition merge_ranges_subgroup :: "string \<Rightarrow> entry list \<Rightarrow> entry list" where
  "merge_ranges_subgroup ty entriesGroup =
    (let pdtDesc = getPdtRangeDescription (first_conditions entriesGroup);
         baseTitle = capitalize ty @ '' '' @ pdtDesc;
         meanDelayGroups = groupEntriesByMeanDelay entriesGroup
     in concat (map (titled_mean_delay_group baseTitle (length meanDelayGroups)) meanDelayGroups))"

definition merge_ranges :: "string \<Rightarrow> entry list \<Rightarrow> string list \<Rightarrow> entry list" where
  "merge_ranges ty entries commonParamKeys =
    (let otherKeys = filter (\<lambda>k. k \<noteq> ''pdt_greater_than'' \<and> k \<noteq> ''pdt_less_than_or_equal_to'')
                       commonParamKeys
     in concat (map (\<lambda>(pdtKey, pdtEntries).
          concat (map (\<lambda>(key, entriesGroup). merge_ranges_subgroup ty entriesGroup)
                    (group_by (\<lambda>e. generateEntryKey e otherKeys) pdtEntries)))
         (groupRangesByPdtBounds entries)))"

definition merge_capping :: "string \<Rightarrow> entry list \<Rightarrow> string list \<Rightarrow> entry list" where
  "merge_capping ty entries commonParamKeys =
     concat (map (\<lambda>(key, entriesGroup).
        map (\<lambda>(index, e). e\<lparr> entry_title := Some (title_or e
                (capitalize ty @ '' '' @
                 (if truthy_opt (delivery_option e) then scalar_text (delivery_option e) else []) @
                 '' '' @ (if index > 0 then show_nat (index + 1) else []))) \<rparr>)
          (enumerate 0 entriesGroup))
       (group_by (\<lambda>e. generateEntryKey e commonParamKeys) entries))"

definition merge_other :: "string \<Rightarrow> entry list \<Rightarrow> entry list" where
  "merge_other ty entries =
     map (\<lambda>(index, e). if \<not> truthy_str (entry_title e)
                        then e\<lparr> entry_title := Some (capitalize ty @ '' '' @ show_nat (index + 1)) \<rparr>
                        else e)
       (enumerate 0 entries)"

definition mergeEntriesByCommonParams :: "entry list \<Rightarrow> string \<Rightarrow> string list \<Rightarrow> entry list" where
  "mergeEntriesByCommonParams entries ty commonParamKeys =
    (if ty = ''display_format'' then merge_display_format entries commonParamKeys
     else if ty = ''ranges'' then merge_ranges ty entries commonParamKeys
     else if ty = ''capping'' then merge_capping ty entries commonParamKeys
     else merge_other ty entries)"

text \<open>
  The first loop of \<^verbatim>\<open>mergePdtSectionsByCommonParams\<close>: every section adds its
  entries to the list of the first section key it has.
\<close>

record sections_by_type =
  all_display_format :: "entry list"
  all_ranges :: "entry list"
  all_capping :: "entry list"
  all_rounding :: "entry list"

definition collect_section :: "sections_by_type \<Rightarrow> pdt_section \<Rightarrow> sections_by_type" where
  "collect_section acc s =
    (case display_format s of
       Some es \<Rightarrow> acc\<lparr> all_display_format := all_display_format acc @ es \<rparr>
     | None \<Rightarrow>
    (case ranges s of
       Some es \<Rightarrow> acc\<lparr> all_ranges := all_ranges acc @ es \<rparr>
     | None \<Rightarrow>
    (case capping s of
       Some es \<Rightarrow> acc\<lparr> all_capping := all_capping acc @ es \<rparr>
     | None \<Rightarrow>
    (case rounding s of
       Some es \<Rightarrow> acc\<lparr> all_rounding := all_rounding acc @ es \<rparr>
     | None \<Rightarrow> acc))))"

definition collect_sections :: "pdt_section list \<Rightarrow> sections_by_type" where
  "collect_sections pdtSections =
     foldl collect_section
       \<lparr> all_display_format = [], all_ranges = [], all_capping = [], all_rounding = [] \<rparr>
       pdtSections"

definition display_format_keys :: "string list" where
  "display_format_keys = [''delivery_mode'', ''marketplace'', ''pdt_less_than_or_equal_to'', ''vertical_types'']"

definition ranges_capping_keys :: "string list" where
  "ranges_capping_keys = [''delivery_option'', ''delivery_mode'', ''marketplace'', ''vertical_types'',
     ''pdt_greater_than'', ''pdt_less_than_or_equal_to'']"

definition mergePdtSectionsByCommonParams :: "pdt_section list \<Rightarrow> pdt_section list" where
  "mergePdtSectionsByCommonParams pdtSections =
    (let sectionsByType = collect_sections pdtSections
     in (if length (all_display_format sectionsByType) > 0
         then [empty_section\<lparr> display_format := Some (mergeEntriesByCommonParams
                 (all_display_format sectionsByType) ''display_format'' display_format_keys) \<rparr>]
         else []) @
        (if length (all_ranges sectionsByType) > 0
         then [empty_section\<lparr> ranges := Some (mergeEntriesByCommonParams
                 (all_ranges sectionsByType) ''ranges'' ranges_capping_keys) \<rparr>]
         else []) @
        (if length (all_capping sectionsByType) > 0
         then [empty_section\<lparr> capping := Some (mergeEntriesByCommonParams
                 (all_capping sectionsByType) ''capping'' ranges_capping_keys) \<rparr>]
         else []) @
        (if length (all_rounding sectionsByType) > 0
         then [empty_section\<lparr> rounding := Some (all_rounding sectionsByType) \<rparr>]
         else []))"

section \<open>Notions of the specification\<close>

subsection \<open>Half-open intervals\<close>

text \<open>
  The interval \<open>(greaterThan, lessThanOrEqualTo]\<close> as a set of integers; an
  absent side is unbounded. Two intervals intersect when they share a point.
\<close>

definition half_open :: "int option \<Rightarrow> int option \<Rightarrow> int set" where
  "half_open gt le =
     {x. (case gt of None \<Rightarrow> True | Some g \<Rightarrow> g < x) \<and>
         (case le of None \<Rightarrow> True | Some l \<Rightarrow> x \<le> l)}"

definition intersect :: "int set \<Rightarrow> int set \<Rightarrow> bool" where
  "intersect A B = (\<exists>x. x \<in> A \<and> x \<in> B)"

definition pdt_interval :: "rule \<Rightarrow> int set" where
  "pdt_interval r = half_open (pdtGreaterThan r) (pdtLessThanOrEqualTo r)"

definition md_interval :: "rule \<Rightarrow> int set" where
  "md_interval r = half_open (meanDelayGreaterThan r) (meanDelayLessThanOrEqualTo r)"

definition no_mean_delay :: "rule \<Rightarrow> bool" where
  "no_mean_delay r = (meanDelayGreaterThan r = None \<and> meanDelayLessThanOrEqualTo r = None)"

text \<open>
  One rule's \<open>lessThanOrEqualTo\<close> equal to the other rule's \<open>greaterThan\<close>, in
  either direction.
\<close>

definition adjacent :: "int option \<Rightarrow> int option \<Rightarrow> int option \<Rightarrow> int option \<Rightarrow> bool" where
  "adjacent g1 l1 g2 l2 = ((l1 \<noteq> None \<and> l1 = g2) \<or> (l2 \<noteq> None \<and> l2 = g1))"

definition pdt_adjacent :: "rule \<Rightarrow> rule \<Rightarrow> bool" where
  "pdt_adjacent r1 r2 = adjacent (pdtGreaterThan r1) (pdtLessThanOrEqualTo r1)
     (pdtGreaterThan r2) (pdtLessThanOrEqualTo r2)"

definition md_adjacent :: "rule \<Rightarrow> rule \<Rightarrow> bool" where
  "md_adjacent r1 r2 = adjacent (meanDelayGreaterThan r1) (meanDelayLessThanOrEqualTo r1)
     (meanDelayGreaterThan r2) (meanDelayLessThanOrEqualTo r2)"

text \<open>A pair of bounds is proper when the interval it describes is not empty.\<close>

definition proper_bounds :: "int option \<Rightarrow> int option \<Rightarrow> bool" where
  "proper_bounds gt le = (case (gt, le) of (Some g, Some l) \<Rightarrow> g < l | _ \<Rightarrow> True)"

definition proper_rule :: "rule \<Rightarrow> bool" where
  "proper_rule r = (proper_bounds (pdtGreaterThan r) (pdtLessThanOrEqualTo r) \<and>
     proper_bounds (meanDelayGreaterThan r) (meanDelayLessThanOrEqualTo r))"

text \<open>A ranges rule with the given PDT and Mean-Delay bounds.\<close>

definition ranges_rule :: "int option \<Rightarrow> int option \<Rightarrow> int option \<Rightarrow> int option \<Rightarrow> rule" where
  "ranges_rule pg pl mg ml = default_ranges_rule\<lparr>
     pdtGreaterThan := pg, pdtLessThanOrEqualTo := pl,
     meanDelayGreaterThan := mg, meanDelayLessThanOrEqualTo := ml \<rparr>"

text \<open>The test of \<^verbatim>\<open>doRangesRulesOverlap\<close> on one dimension.\<close>

definition dimension_overlap :: "int option \<Rightarrow> int option \<Rightarrow> int option \<Rightarrow> int option \<Rightarrow> bool" where
  "dimension_overlap g1 l1 g2 l2 =
    (\<not> (l1 \<noteq> None \<and> g2 \<noteq> None \<and> l1 = g2) \<and>
     \<not> (l2 \<noteq> None \<and> g1 \<noteq> None \<and> l2 = g1) \<and>
     \<not> (js_lt (to_bound l1) (from_bound g2) \<or> js_gt (from_bound g1) (to_bound l2)))"

subsection \<open>Issues found for one group\<close>

text \<open>The overlap issues that \<^verbatim>\<open>checkOverlappingRules\<close> adds for a group.\<close>

definition overlap_found :: "group \<Rightarrow> overlap_issue list" where
  "overlap_found g = overlappingRules (checkOverlappingRules g no_issues)"

definition group_overlaps :: "group \<Rightarrow> overlap_issue list" where
  "group_overlaps g = (if length (rules g) > 1 then overlap_found g else [])"

definition single_rules :: "group \<Rightarrow> rule list" where
  "single_rules g = filter (\<lambda>r. rtype r = Some ''single'') (rules g)"

definition ranges_rules :: "group \<Rightarrow> rule list" where
  "ranges_rules g = filter (\<lambda>r. rtype r = Some ''ranges'') (rules g)"

text \<open>Example groups.\<close>

definition display_group :: "string \<Rightarrow> string \<Rightarrow> string list \<Rightarrow> group" where
  "display_group i t fs = \<lparr> gid = i, gtype = ''display-format'', title = t,
     commonParams = [(''deliveryMode'', SStr ''DELIVERY''), (''marketplace'', SStr ''false'')],
     rules = map display_rule fs \<rparr>"

definition capping_example :: "rule list \<Rightarrow> group" where
  "capping_example rs = \<lparr> gid = ''capping-0'', gtype = ''capping'', title = ''New Capping'',
     commonParams = [], rules = rs \<rparr>"

subsection \<open>The shape of the section list\<close>

text \<open>
  The section keys that an element of \<^verbatim>\<open>config.pdt\<close> carries, and the fixed
  order of the four kinds. A kind has a group when some group of the index has
  the corresponding type.
\<close>

definition section_keys :: "pdt_section \<Rightarrow> string list" where
  "section_keys s =
     (if display_format s \<noteq> None then [''display_format''] else []) @
     (if ranges s \<noteq> None then [''ranges''] else []) @
     (if capping s \<noteq> None then [''capping''] else []) @
     (if rounding s \<noteq> None then [''rounding''] else [])"

definition section_kinds :: "string list" where
  "section_kinds = [''display_format'', ''ranges'', ''capping'', ''rounding'']"

definition group_type_of_kind :: "string \<Rightarrow> string" where
  "group_type_of_kind kind = (if kind = ''display_format'' then ''display-format'' else kind)"

definition kind_has_group :: "manager \<Rightarrow> string \<Rightarrow> bool" where
  "kind_has_group st kind = list_ex (\<lambda>g. gtype g = group_type_of_kind kind) (map snd (groups st))"

text \<open>
  The section list consists of exactly one single-keyed section for each kind
  that has a group, in the fixed order.
\<close>

definition sections_in_order :: "manager \<Rightarrow> bool" where
  "sections_in_order st =
     (map section_keys (pdt (config st)) = map (\<lambda>kind. [kind]) (filter (kind_has_group st) section_kinds))"

text \<open>A manager state to try the operations on: one ranges group, one capping group.\<close>

definition example_manager :: manager where
  "example_manager =
     \<lparr> config = \<lparr> configFormatVersion = ''1'', variant = ''config-a'', platform = ''talabat'',
                   countryCode = ''bh'',
                   pdt = [empty_section\<lparr> capping := Some [] \<rparr>, empty_section\<lparr> ranges := Some [] \<rparr>] \<rparr>,
       groups = [(''capping-0'', capping_example [default_single_rule]),
                 (''ranges-1'', \<lparr> gid = ''ranges-1'', gtype = ''ranges'', title = ''New Range'',
                                  commonParams = [], rules = [default_ranges_rule] \<rparr>)],
       idCounter = 2, localStorage = None, storageWrites = 0 \<rparr>"

subsection \<open>Two ranges groups with two delivery options\<close>

text \<open>The manager as its constructor leaves it.\<close>

definition new_manager :: manager where
  "new_manager =
     \<lparr> config = \<lparr> configFormatVersion = ''1'', variant = ''config-a'', platform = ''talabat'',
                   countryCode = ''bh'', pdt = [] \<rparr>,
       groups = [], idCounter = 0, localStorage = None, storageWrites = 0 \<rparr>"

text \<open>
  Two ranges groups are added to it, and the second is given the delivery
  option \<^verbatim>\<open>EXPRESS\<close>.
\<close>

definition two_ranges_manager :: manager where
  "two_ranges_manager = snd (addGroup ''ranges'' None (snd (addGroup ''ranges'' None new_manager)))"

definition two_option_manager :: manager where
  "two_option_manager =
    (case updateGroupCommonParam ''ranges-1'' ''deliveryOption'' (SStr ''EXPRESS'') two_ranges_manager of
       Returns changed st \<Rightarrow> st
     | _ \<Rightarrow> two_ranges_manager)"

text \<open>The ranges entry that the second group is written as.\<close>

definition express_entry :: entry where
  "express_entry = empty_entry\<lparr> delivery_option := Some (SStr ''EXPRESS''),
     lower_bound := Some (- 10), upper_bound := Some 5, entry_title := Some ''New Range'',
     entry_conditions := Some empty_conditions \<rparr>"

subsection \<open>Bounds of rebuilt ranges rules\<close>

definition no_zero_bound :: "rule \<Rightarrow> bool" where
  "no_zero_bound r = (pdtGreaterThan r \<noteq> Some 0 \<and> pdtLessThanOrEqualTo r \<noteq> Some 0 \<and>
     meanDelayGreaterThan r \<noteq> Some 0 \<and> meanDelayLessThanOrEqualTo r \<noteq> Some 0)"

text \<open>The entries of the sections that the rebuild handles as ranges sections.\<close>

definition flat_ranges_entries :: "config \<Rightarrow> entry list" where
  "flat_ranges_entries cfg =
     concat (map (\<lambda>s. if getSectionType s = ''ranges''
                       then (case ranges s of None \<Rightarrow> [] | Some es \<Rightarrow> es) else []) (pdt cfg))"

text \<open>Every rule of every ranges group comes from an entry of the set \<open>E\<close>.\<close>

definition ranges_from :: "entry set \<Rightarrow> manager \<Rightarrow> bool" where
  "ranges_from E st = (\<forall>(k, g) \<in> set (groups st). gtype g = ''ranges'' \<longrightarrow>
      set (rules g) \<subseteq> ranges_rule_of_entry ` E)"

text \<open>
  The identifiers of the index were all made from one of the four type names
  and a counter value below the current one.
\<close>

definition id_prefixes :: "string list" where
  "id_prefixes = [''display-format'', ''ranges'', ''capping'', ''rounding'']"

definition fresh_ids :: "manager \<Rightarrow> bool" where
  "fresh_ids st =
     list_all (\<lambda>k. list_ex (\<lambda>p. list_ex (\<lambda>n. k = p @ ''-'' @ show_nat n) [0..<idCounter st])
                           id_prefixes)
       (map fst (groups st))"

text \<open>Some ranges group of the index holds the rule built from the entry.\<close>

definition holds_rule_of :: "entry \<Rightarrow> manager \<Rightarrow> bool" where
  "holds_rule_of e st =
     list_ex (\<lambda>g. gtype g = ''ranges'' \<and> ranges_rule_of_entry e \<in> set (rules g))
       (map snd (groups st))"

text \<open>
  A ranges entry with the given bounds for standard delivery, and a manager
  whose flat configuration is one ranges section.
\<close>

definition ranges_entry :: "jsnumber option \<Rightarrow> jsnumber option \<Rightarrow> entry" where
  "ranges_entry gt le = empty_entry\<lparr> delivery_option := Some (SStr ''STANDARD''),
     lower_bound := Some (- 10), upper_bound := Some 5,
     entry_conditions := Some (empty_conditions\<lparr> pdt_greater_than := gt,
        pdt_less_than_or_equal_to := le,
        vertical_types := Some [SStr ''restaurants''] \<rparr>) \<rparr>"

definition loaded_manager :: "entry list \<Rightarrow> manager" where
  "loaded_manager es =
     \<lparr> config = \<lparr> configFormatVersion = ''1'', variant = ''config-a'', platform = ''talabat'',
                   countryCode = ''bh'', pdt = [empty_section\<lparr> ranges := Some es \<rparr>] \<rparr>,
       groups = [], idCounter = 0, localStorage = None, storageWrites = 0 \<rparr>"

subsection \<open>Groupings\<close>

text \<open>
  A list of keyed blocks as a grouping produces it: the keys are distinct, no
  block is empty, and every element of a block has the key of the block.
\<close>

definition keyed_blocks :: "('a \<Rightarrow> string) \<Rightarrow> (string \<times> 'a list) list \<Rightarrow> bool" where
  "keyed_blocks key blocks =
     (distinct (map fst blocks) \<and>
      list_all (\<lambda>b. snd b \<noteq> [] \<and> list_all (\<lambda>y. key y = fst b) (snd b)) blocks)"

text \<open>Every entry carries a non-empty title.\<close>

definition all_titled :: "entry list \<Rightarrow> bool" where
  "all_titled es = list_all (\<lambda>e. truthy_str (entry_title e)) es"

text \<open>No display-format entry of the sections carries a delivery option.\<close>

definition display_formats_without_option :: "pdt_section list \<Rightarrow> bool" where
  "display_formats_without_option pdtSections =
     list_all (\<lambda>s. case display_format s of
                      None \<Rightarrow> True
                    | Some es \<Rightarrow> list_all (\<lambda>e. \<not> truthy_opt (delivery_option e)) es) pdtSections"

text \<open>Three display-format entries, the first of which carries a delivery option.\<close>

definition format_entry :: "string \<Rightarrow> entry" where
  "format_entry f = empty_entry\<lparr> entry_format := Some f \<rparr>"

definition mixed_display_formats :: "pdt_section list" where
  "mixed_display_formats =
     [empty_section\<lparr> display_format := Some
        [(format_entry ''A'')\<lparr> delivery_option := Some (SStr ''EXPRESS'') \<rparr>,
         (format_entry ''B'')\<lparr> entry_conditions :=
            Some (empty_conditions\<lparr> delivery_mode := Some (SStr ''DELIVERY'') \<rparr>) \<rparr>,
         format_entry ''C''] \<rparr>]"

text \<open>The display-format entry that the merge emits for an entry.\<close>

definition rebuilt_format_entry :: "entry \<Rightarrow> entry" where
  "rebuilt_format_entry e = empty_entry\<lparr> entry_format := entry_format e,
     entry_conditions := entry_conditions e,
     entry_title := Some (title_or e (''Format: '' @ string_text (entry_format e))) \<rparr>"

text \<open>The entries of \<open>ys\<close> are entries of \<open>xs\<close> with another title.\<close>

definition retitled :: "entry list \<Rightarrow> entry list \<Rightarrow> bool" where
  "retitled xs ys = (\<forall>y \<in> set ys. \<exists>x \<in> set xs. \<exists>t. y = x\<lparr> entry_title := t \<rparr>)"

text \<open>The ranges entries of one PDT group, split by the other parameters.\<close>

definition merge_pdt_group :: "string \<Rightarrow> string list \<Rightarrow> entry list \<Rightarrow> entry list" where
  "merge_pdt_group ty otherKeys pdtEntries =
     concat (map (\<lambda>(key, entriesGroup). merge_ranges_subgroup ty entriesGroup)
               (group_by (\<lambda>e. generateEntryKey e otherKeys) pdtEntries))"

text \<open>What the merge emits for one block of each kind's grouping.\<close>

definition display_block :: "string \<times> entry list \<Rightarrow> entry list" where
  "display_block b = map rebuilt_format_entry (snd b)"

definition capping_block :: "string \<Rightarrow> string \<times> entry list \<Rightarrow> entry list" where
  "capping_block ty b =
     map (\<lambda>(index, e). e\<lparr> entry_title := Some (title_or e
            (capitalize ty @ '' '' @
             (if truthy_opt (delivery_option e) then scalar_text (delivery_option e) else []) @
             '' '' @ (if index > 0 then show_nat (index + 1) else []))) \<rparr>)
       (enumerate 0 (snd b))"

definition pdt_block :: "string \<Rightarrow> string list \<Rightarrow> string \<times> entry list \<Rightarrow> entry list" where
  "pdt_block ty ks b =
     merge_pdt_group ty
       (filter (\<lambda>k. k \<noteq> ''pdt_greater_than'' \<and> k \<noteq> ''pdt_less_than_or_equal_to'') ks) (snd b)"

text \<open>
  An imported document that spells one ranges group as several flat entries,
  beside a display-format entry and a capping entry.
\<close>

definition imported_sections :: "pdt_section list" where
  "imported_sections =
     [empty_section\<lparr> ranges := Some
        [ranges_entry (Some (Finite 13)) (Some (Finite 18)),
         ranges_entry None (Some (Finite 13))] \<rparr>,
      empty_section\<lparr> display_format := Some [format_entry ''DISPLAY_FORMAT_MINUTE_RANGE''] \<rparr>,
      empty_section\<lparr> ranges := Some
        [ranges_entry (Some (Finite 13)) (Some (Finite 18)),
         ranges_entry (Some (Finite 18)) (Some (Finite 23))] \<rparr>,
      empty_section\<lparr> capping := Some
        [empty_entry\<lparr> delivery_option := Some (SStr ''STANDARD''),
           single := Some \<lparr> single_min = Some 5, single_max = Some 180 \<rparr> \<rparr>] \<rparr>]"

section \<open>Properties of the validator\<close>

subsection \<open>Overlap of ranges rules\<close>

lemma dimension_overlap_meet:
  assumes "proper_bounds g1 l1" and "proper_bounds g2 l2"
  shows "dimension_overlap g1 l1 g2 l2 \<longleftrightarrow> intersect (half_open g1 l1) (half_open g2 l2)"
  using assms
  by (cases g1; cases l1; cases g2; cases l2;
      simp add: dimension_overlap_def intersect_def half_open_def proper_bounds_def
        from_bound_def to_bound_def js_gt_def; presburger)

lemma overlap_as_dimensions:
  "doRangesRulesOverlap r1 r2 \<longleftrightarrow>
     dimension_overlap (pdtGreaterThan r1) (pdtLessThanOrEqualTo r1)
       (pdtGreaterThan r2) (pdtLessThanOrEqualTo r2) \<and>
     (no_mean_delay r1 \<or> no_mean_delay r2 \<or>
      dimension_overlap (meanDelayGreaterThan r1) (meanDelayLessThanOrEqualTo r1)
       (meanDelayGreaterThan r2) (meanDelayLessThanOrEqualTo r2))"
  unfolding doRangesRulesOverlap_def dimension_overlap_def no_mean_delay_def Let_def
  by (simp only: split: if_splits) blast

lemma adjacent_no_dimension_overlap:
  "adjacent g1 l1 g2 l2 \<Longrightarrow> \<not> dimension_overlap g1 l1 g2 l2"
  by (auto simp: adjacent_def dimension_overlap_def)

lemma md_adjacent_has_mean_delay:
  "md_adjacent r1 r2 \<Longrightarrow> \<not> no_mean_delay r1 \<and> \<not> no_mean_delay r2"
  by (auto simp: md_adjacent_def adjacent_def no_mean_delay_def)

lemmas ranges_rule_eval = ranges_rule_def default_ranges_rule_def empty_rule_def
  doRangesRulesOverlap_def from_bound_def to_bound_def js_gt_def

text \<open>
  Claim C2, as stated, fails on a rule whose bounds describe an empty interval:
  the rule with PDT bounds \<open>(5, 3]\<close> has no PDT value at all, yet the code
  reports that it overlaps the rule with PDT bounds \<open>(0, 10]\<close>.
\<close>

theorem C2_empty_interval_counterexample:
  "doRangesRulesOverlap (ranges_rule (Some 5) (Some 3) None None)
     (ranges_rule (Some 0) (Some 10) None None) \<and>
   \<not> intersect (pdt_interval (ranges_rule (Some 5) (Some 3) None None))
       (pdt_interval (ranges_rule (Some 0) (Some 10) None None))"
  by (simp add: ranges_rule_eval pdt_interval_def intersect_def half_open_def)

text \<open>
  Claim C2, amended: for two ranges rules whose bounds are integers or absent
  and none of whose intervals is empty (a lower bound is below the upper bound
  when both are given), \<^verbatim>\<open>doRangesRulesOverlap\<close> returns true if and only if the
  half-open PDT intervals intersect and the Mean-Delay intervals intersect,
  where the Mean-Delay dimension counts as intersecting when either rule has no
  Mean-Delay bound. For all rules, exact boundary adjacency in either dimension
  is not an overlap; and the rules with PDT bounds \<open>(0, 18]\<close> and \<open>(18, 23]\<close>,
  without Mean-Delay bounds, do not overlap.
\<close>

theorem C2_ranges_overlap:
  "(proper_rule r1 \<and> proper_rule r2 \<longrightarrow>
      (doRangesRulesOverlap r1 r2 \<longleftrightarrow>
         intersect (pdt_interval r1) (pdt_interval r2) \<and>
         (no_mean_delay r1 \<or> no_mean_delay r2 \<or> intersect (md_interval r1) (md_interval r2)))) \<and>
   (pdt_adjacent r1 r2 \<or> md_adjacent r1 r2 \<longrightarrow> \<not> doRangesRulesOverlap r1 r2) \<and>
   \<not> doRangesRulesOverlap (ranges_rule (Some 0) (Some 18) None None)
       (ranges_rule (Some 18) (Some 23) None None)"
proof (intro conjI impI)
  assume p: "proper_rule r1 \<and> proper_rule r2"
  then show "doRangesRulesOverlap r1 r2 \<longleftrightarrow>
         intersect (pdt_interval r1) (pdt_interval r2) \<and>
         (no_mean_delay r1 \<or> no_mean_delay r2 \<or> intersect (md_interval r1) (md_interval r2))"
    by (simp add: overlap_as_dimensions proper_rule_def pdt_interval_def md_interval_def
          dimension_overlap_meet)
next
  assume "pdt_adjacent r1 r2 \<or> md_adjacent r1 r2"
  then show "\<not> doRangesRulesOverlap r1 r2"
    using adjacent_no_dimension_overlap md_adjacent_has_mean_delay
    by (auto simp: overlap_as_dimensions pdt_adjacent_def md_adjacent_def)
next
  show "\<not> doRangesRulesOverlap (ranges_rule (Some 0) (Some 18) None None)
       (ranges_rule (Some 18) (Some 23) None None)"
    by (simp add: ranges_rule_eval)
qed

text \<open>
  The theorem at the overlapping pair of the specification (PDT \<open>(0, 23]\<close> with
  Mean Delay up to 6 against PDT \<open>(10, 30]\<close> with Mean Delay above 4), and at an
  adjacent pair in the Mean-Delay dimension.
\<close>

theorem C2_ranges_overlap_witness:
  "proper_rule (ranges_rule (Some 0) (Some 23) None (Some 6)) \<and>
   proper_rule (ranges_rule (Some 10) (Some 30) (Some 4) None) \<and>
   doRangesRulesOverlap (ranges_rule (Some 0) (Some 23) None (Some 6))
     (ranges_rule (Some 10) (Some 30) (Some 4) None) \<and>
   intersect (pdt_interval (ranges_rule (Some 0) (Some 23) None (Some 6)))
     (pdt_interval (ranges_rule (Some 10) (Some 30) (Some 4) None)) \<and>
   intersect (md_interval (ranges_rule (Some 0) (Some 23) None (Some 6)))
     (md_interval (ranges_rule (Some 10) (Some 30) (Some 4) None)) \<and>
   md_adjacent (ranges_rule None None None (Some 4)) (ranges_rule None None (Some 4) None) \<and>
   \<not> doRangesRulesOverlap (ranges_rule None None None (Some 4))
       (ranges_rule None None (Some 4) None)"
proof -
  let ?a = "ranges_rule (Some 0) (Some 23) None (Some 6)"
  let ?b = "ranges_rule (Some 10) (Some 30) (Some 4) None"
  let ?c = "ranges_rule None None None (Some 4)"
  let ?d = "ranges_rule None None (Some 4) None"
  have p: "proper_rule ?a \<and> proper_rule ?b"
    by (simp add: proper_rule_def proper_bounds_def ranges_rule_eval)
  have o: "doRangesRulesOverlap ?a ?b"
    by (simp add: ranges_rule_eval)
  have m: "\<not> no_mean_delay ?a \<and> \<not> no_mean_delay ?b"
    by (simp add: no_mean_delay_def ranges_rule_eval)
  have adj: "md_adjacent ?c ?d"
    by (simp add: md_adjacent_def adjacent_def ranges_rule_eval)
  from C2_ranges_overlap [of ?a ?b] p o m
  have "intersect (pdt_interval ?a) (pdt_interval ?b) \<and>
        intersect (md_interval ?a) (md_interval ?b)"
    by blast
  moreover from C2_ranges_overlap [of ?c ?d] adj
  have "\<not> doRangesRulesOverlap ?c ?d" by blast
  ultimately show ?thesis using p o adj by blast
qed

subsection \<open>The overlap issues of a whole validation\<close>

lemma checkOverlappingRules_appends:
  "checkOverlappingRules g v = v\<lparr> overlappingRules := overlappingRules v @ overlap_found g \<rparr>"
  by (simp add: overlap_found_def checkOverlappingRules_def checkOverlappingRangesRules_def
      checkOverlappingCappingRules_def no_issues_def Let_def)

lemma check_group_rules_appends:
  "check_group_rules v g = v\<lparr> overlappingRules := overlappingRules v @ group_overlaps g \<rparr>"
  by (simp add: check_group_rules_def group_overlaps_def checkOverlappingRules_appends)

lemma overlap_loop:
  "foldl check_group_rules v gs =
     v\<lparr> overlappingRules := overlappingRules v @ concat (map group_overlaps gs) \<rparr>"
proof (induction gs arbitrary: v)
  case Nil
  show ?case by simp
next
  case (Cons g gs)
  have "foldl check_group_rules v (g # gs) =
      (check_group_rules v g)\<lparr> overlappingRules :=
         overlappingRules (check_group_rules v g) @ concat (map group_overlaps gs) \<rparr>"
    by (simp add: Cons.IH)
  also have "\<dots> = v\<lparr> overlappingRules :=
      overlappingRules v @ concat (map group_overlaps (g # gs)) \<rparr>"
    by (simp add: check_group_rules_appends)
  finally show ?case .
qed

lemma duplicate_checks_keep_overlaps:
  "overlappingRules (checkDuplicateGroups gs v) = overlappingRules v"
  "overlappingRules (checkDuplicateDisplayFormats gs v) = overlappingRules v"
  by (simp_all add: checkDuplicateGroups_def checkDuplicateDisplayFormats_def Let_def)

lemma validation_overlaps:
  "overlappingRules (validateConfiguration gs) = concat (map group_overlaps gs)"
  by (simp add: validateConfiguration_def Let_def overlap_loop duplicate_checks_keep_overlaps
      no_issues_def)

lemma overlap_found_groupId:
  "i \<in> set (overlap_found g) \<Longrightarrow> overlap_groupId i = gid g"
  by (auto simp: overlap_found_def checkOverlappingRules_def checkOverlappingRangesRules_def
      checkOverlappingCappingRules_def no_issues_def Let_def split: if_splits)

lemma overlap_found_capping:
  "gtype g = ''capping'' \<Longrightarrow> overlap_found g =
     (if length (single_rules g) > 1
      then [RuleIndices (gid g) (indices_of_type ''single'' (rules g)) multiple_single_message]
      else []) @
     (if length (ranges_rules g) > 1
      then [RuleIndices (gid g) (indices_of_type ''ranges'' (rules g)) multiple_ranges_message]
      else [])"
  by (simp add: overlap_found_def checkOverlappingRules_def checkOverlappingCappingRules_def
      no_issues_def Let_def single_rules_def ranges_rules_def)

lemma filter_longer_than_one:
  "1 < length (filter P xs) \<Longrightarrow> 1 < length xs"
  using length_filter_le [of P xs] by linarith

text \<open>
  Claim C6: a capping group with more than one rule of type \<open>single\<close> gets an
  overlapping-rules issue whose message starts with \<open>Multiple 'single' rules\<close>;
  independently, a capping group with more than one rule of type \<open>ranges\<close> gets
  one for \<open>ranges\<close>; a capping group with exactly one \<open>single\<close> rule and one
  \<open>ranges\<close> rule gets no overlapping-rules issue.
\<close>

theorem C6_capping_cardinality:
  assumes "g \<in> set gs" and "gtype g = ''capping''"
  shows "(length (single_rules g) > 1 \<longrightarrow>
            RuleIndices (gid g) (indices_of_type ''single'' (rules g)) multiple_single_message
              \<in> set (overlappingRules (validateConfiguration gs))) \<and>
         (length (ranges_rules g) > 1 \<longrightarrow>
            RuleIndices (gid g) (indices_of_type ''ranges'' (rules g)) multiple_ranges_message
              \<in> set (overlappingRules (validateConfiguration gs))) \<and>
         (length (single_rules g) = 1 \<and> length (ranges_rules g) = 1 \<and>
          (\<forall>h \<in> set gs. gid h = gid g \<longrightarrow> h = g) \<longrightarrow>
            (\<forall>i \<in> set (overlappingRules (validateConfiguration gs)). overlap_groupId i \<noteq> gid g)) \<and>
         startsWith multiple_single_message
           (''Multiple '' @ [CHR 0x27] @ ''single'' @ [CHR 0x27] @ '' rules'')"
proof (intro conjI impI)
  assume m: "length (single_rules g) > 1"
  then have "1 < length (rules g)"
    unfolding single_rules_def by (rule filter_longer_than_one)
  with m assms show "RuleIndices (gid g) (indices_of_type ''single'' (rules g))
      multiple_single_message \<in> set (overlappingRules (validateConfiguration gs))"
    by (auto simp: validation_overlaps group_overlaps_def overlap_found_capping
        intro!: bexI [of _ g])
next
  assume m: "length (ranges_rules g) > 1"
  then have "1 < length (rules g)"
    unfolding ranges_rules_def by (rule filter_longer_than_one)
  with m assms show "RuleIndices (gid g) (indices_of_type ''ranges'' (rules g))
      multiple_ranges_message \<in> set (overlappingRules (validateConfiguration gs))"
    by (auto simp: validation_overlaps group_overlaps_def overlap_found_capping
        intro!: bexI [of _ g])
next
  assume h: "length (single_rules g) = 1 \<and> length (ranges_rules g) = 1 \<and>
          (\<forall>h \<in> set gs. gid h = gid g \<longrightarrow> h = g)"
  with assms have e: "overlap_found g = []"
    by (simp add: overlap_found_capping)
  show "\<forall>i \<in> set (overlappingRules (validateConfiguration gs)). overlap_groupId i \<noteq> gid g"
  proof
    fix i assume "i \<in> set (overlappingRules (validateConfiguration gs))"
    then obtain k where k: "k \<in> set gs" "i \<in> set (overlap_found k)"
      by (auto simp: validation_overlaps group_overlaps_def split: if_splits)
    show "overlap_groupId i \<noteq> gid g"
    proof
      assume "overlap_groupId i = gid g"
      with k have "gid k = gid g" by (simp add: overlap_found_groupId)
      with h k have "k = g" by blast
      with k e show False by simp
    qed
  qed
next
  show "startsWith multiple_single_message
           (''Multiple '' @ [CHR 0x27] @ ''single'' @ [CHR 0x27] @ '' rules'')"
    by (simp add: startsWith_def multiple_single_message_def)
qed

text \<open>
  The theorem at the capping groups of the specification: two \<open>single\<close> rules
  are flagged, one \<open>single\<close> and one \<open>ranges\<close> rule are not.
\<close>

theorem C6_capping_cardinality_witness:
  "RuleIndices ''capping-0'' [0, 1] multiple_single_message
     \<in> set (overlappingRules (validateConfiguration
          [capping_example [default_single_rule, default_single_rule]])) \<and>
   filter (\<lambda>i. overlap_groupId i = ''capping-0'')
     (overlappingRules (validateConfiguration
          [capping_example [default_single_rule, default_capping_ranges_rule]])) = []"
proof -
  let ?two = "capping_example [default_single_rule, default_single_rule]"
  let ?mixed = "capping_example [default_single_rule, default_capping_ranges_rule]"
  have a: "length (single_rules ?two) > 1" "gtype ?two = ''capping''" "gid ?two = ''capping-0''"
    "indices_of_type ''single'' (rules ?two) = [0, 1]"
    by (simp_all add: single_rules_def capping_example_def default_single_rule_def
        empty_rule_def indices_of_type_def enumerate_eq_zip upt_rec [of 0] upt_rec [of 1])
  have b: "length (single_rules ?mixed) = 1" "length (ranges_rules ?mixed) = 1"
    "gtype ?mixed = ''capping''" "gid ?mixed = ''capping-0''"
    by (simp_all add: single_rules_def ranges_rules_def capping_example_def
        default_single_rule_def default_capping_ranges_rule_def empty_rule_def)
  from C6_capping_cardinality [of ?two "[?two]"] a
  have "RuleIndices ''capping-0'' [0, 1] multiple_single_message
     \<in> set (overlappingRules (validateConfiguration [?two]))"
    by simp
  moreover from C6_capping_cardinality [of ?mixed "[?mixed]"] b
  have "\<forall>i \<in> set (overlappingRules (validateConfiguration [?mixed])).
      overlap_groupId i \<noteq> ''capping-0''"
    by simp
  then have "filter (\<lambda>i. overlap_groupId i = ''capping-0'')
     (overlappingRules (validateConfiguration [?mixed])) = []"
    by (simp add: filter_empty_conv)
  ultimately show ?thesis by blast
qed

subsection \<open>Display-format groups\<close>

lemmas validation_eval = validateConfiguration_def checkDuplicateGroups_def
  checkDuplicateDisplayFormats_def check_group_rules_def checkOverlappingRules_def
  areGroupsEqual_def haveMatchingParameters_def param_exists_def group_by_def
  no_issues_def display_group_def display_rule_def empty_rule_def Let_def

text \<open>
  Claim C7 asks that a display-format group with more than one rule be flagged
  in every configuration, also when it is the only display-format group. The
  check for it stands behind the early return for fewer than two display-format
  groups: a configuration whose only display-format group has two rules gets
  no entry in \<open>requiredFields\<close>.
\<close>

theorem C7_only_group_not_flagged:
  "length (rules (display_group ''display-format-0'' ''Display Format''
       [''DISPLAY_FORMAT_MINUTE_RANGE'', ''DISPLAY_FORMAT_MINUTE''])) = 2 \<and>
   requiredFields (validateConfiguration
     [display_group ''display-format-0'' ''Display Format''
       [''DISPLAY_FORMAT_MINUTE_RANGE'', ''DISPLAY_FORMAT_MINUTE'']]) = []"
  by (simp add: validation_eval)

text \<open>Beside a second display-format group, the same group is flagged.\<close>

lemma too_many_formats_beside_another_group:
  "map req_groupId (requiredFields (validateConfiguration
     [display_group ''display-format-0'' ''Display Format''
        [''DISPLAY_FORMAT_MINUTE_RANGE'', ''DISPLAY_FORMAT_MINUTE''],
      display_group ''display-format-1'' ''Other'' [''DISPLAY_FORMAT_TIME'']])) =
   [''display-format-0'']"
  by (simp add: validation_eval)

text \<open>
  Claim C4 asks that two display-format groups be reported as duplicates only
  when their common parameters are identical and they share a format. The
  generic \<^verbatim>\<open>checkDuplicateGroups\<close>, which \<^verbatim>\<open>validateConfiguration\<close> runs on the
  groups of every type, reports two display-format groups with identical
  common parameters although their formats differ; the check that looks at
  the formats, \<^verbatim>\<open>checkDuplicateDisplayFormats\<close>, adds nothing for them.
\<close>

theorem C4_different_formats_flagged:
  "haveMatchingParameters
     (commonParams (display_group ''display-format-0'' ''A'' [''DISPLAY_FORMAT_MINUTE_RANGE'']))
     (commonParams (display_group ''display-format-1'' ''B'' [''DISPLAY_FORMAT_TIME''])) \<and>
   set (map format (rules (display_group ''display-format-0'' ''A'' [''DISPLAY_FORMAT_MINUTE_RANGE''])))
     \<inter> set (map format (rules (display_group ''display-format-1'' ''B'' [''DISPLAY_FORMAT_TIME''])))
     = {} \<and>
   map (\<lambda>i. (group1 i, group2 i, issue_type i))
     (duplicateGroups (validateConfiguration
       [display_group ''display-format-0'' ''A'' [''DISPLAY_FORMAT_MINUTE_RANGE''],
        display_group ''display-format-1'' ''B'' [''DISPLAY_FORMAT_TIME'']])) =
   [(''display-format-0'', ''display-format-1'', ''display-format'')] \<and>
   duplicateGroups (checkDuplicateDisplayFormats
       [display_group ''display-format-0'' ''A'' [''DISPLAY_FORMAT_MINUTE_RANGE''],
        display_group ''display-format-1'' ''B'' [''DISPLAY_FORMAT_TIME'']] no_issues) = []"
  by (simp add: validation_eval)

section \<open>Properties of the grouping key\<close>

lemma join_head:
  assumes "ps \<noteq> []" and "\<forall>p \<in> set ps. p \<noteq> [] \<and> hd p \<noteq> c"
  shows "join sep ps \<noteq> [] \<and> hd (join sep ps) \<noteq> c"
  using assms by (induction sep ps rule: join.induct) auto

lemma param_key_parts_head:
  "p \<in> set (param_key_parts c key) \<Longrightarrow> p \<noteq> [] \<and> hd p \<noteq> CHR ''c''"
  by (auto simp: param_key_parts_def split: if_splits)

lemma delivery_option_part_head:
  "delivery_option_part e \<noteq> [] \<and> hd (delivery_option_part e) \<noteq> CHR ''c''"
  by (simp add: delivery_option_part_def)

lemma full_key_not_none:
  assumes "hasAnyConditions e"
  shows "common_params_key e pk \<noteq> ''conditions:none''"
proof -
  from assms obtain c where c: "entry_conditions e = Some c"
    by (auto simp: hasAnyConditions_def split: option.splits)
  let ?ps = "common_params_key_parts e pk"
  have parts: "\<forall>p \<in> set ?ps. p \<noteq> [] \<and> hd p \<noteq> CHR ''c''"
    using assms c param_key_parts_head delivery_option_part_head
    by (auto simp: common_params_key_parts_def hasOnlyDeliveryOption_def)
  show ?thesis
  proof (cases "?ps = []")
    case True
    then show ?thesis by (simp add: common_params_key_def)
  next
    case False
    from False parts have "join ''|'' ?ps \<noteq> [] \<and> hd (join ''|'' ?ps) \<noteq> CHR ''c''"
      by (rule join_head)
    then show ?thesis by (auto simp: common_params_key_def Let_def)
  qed
qed

lemmas key_eval = common_params_key_def common_params_key_parts_def hasAnyConditions_def
  hasOnlyDeliveryOption_def conditions_key_count_def count_opt_def truthy_opt_def
  delivery_option_part_def param_key_parts_def scalar_text_def number_text_def
  toUpperCase_def upper_char_def empty_entry_def empty_conditions_def Let_def

text \<open>
  Two of the three cases of the grouping key, for every entry (of ASCII
  strings, where \<open>toUpperCase\<close> is the program's). An entry with a
  delivery option and no conditions object gets
  \<open>delivery_option:<OPT>|conditions:delivery_option_only\<close>, the option in upper
  case. An entry whose conditions object has at least one key gets the key
  joined from the delivery option (when present) and the part of each
  parameter key, \<open>default\<close> when no part results, and never \<open>conditions:none\<close>.
\<close>

lemma delivery_option_only_key:
  assumes "truthy_opt (delivery_option e)" and "entry_conditions e = None"
  shows "common_params_key e pk =
        ''delivery_option:'' @ toUpperCase (scalar_text (delivery_option e)) @
        ''|conditions:delivery_option_only''"
  using assms
  by (simp add: common_params_key_def common_params_key_parts_def hasOnlyDeliveryOption_def
      hasAnyConditions_def delivery_option_part_def)

lemma full_conditions_key:
  assumes "hasAnyConditions e"
  shows "\<exists>c. entry_conditions e = Some c \<and>
           common_params_key e pk =
             (let key = join ''|''
                ((if truthy_opt (delivery_option e)
                  then [''delivery_option:'' @ toUpperCase (scalar_text (delivery_option e))]
                  else []) @
                 concat (map (param_key_parts c) pk))
              in if key = [] then ''default'' else key)"
proof -
  from assms obtain c where c: "entry_conditions e = Some c"
    by (auto simp: hasAnyConditions_def split: option.splits)
  with assms show ?thesis
    by (simp add: common_params_key_def common_params_key_parts_def hasOnlyDeliveryOption_def
        delivery_option_part_def)
qed

lemma key_examples:
  "common_params_key empty_entry [''delivery_mode'', ''vertical_types''] = ''conditions:none''"
  "common_params_key (empty_entry\<lparr> delivery_option := Some (SStr ''standard'') \<rparr>)
     [''delivery_mode'', ''vertical_types''] =
     ''delivery_option:STANDARD|conditions:delivery_option_only''"
  by (simp_all add: key_eval)

lemma full_key_example:
  "common_params_key (empty_entry\<lparr> delivery_option := Some (SStr ''EXPRESS''),
       entry_conditions := Some (empty_conditions\<lparr> delivery_mode := Some (SStr ''pickup''),
          marketplace := Some (SBool True) \<rparr>) \<rparr>)
     [''delivery_option'', ''delivery_mode'', ''marketplace'', ''vertical_types''] =
   ''delivery_option:EXPRESS|delivery_mode:PICKUP|marketplace:true|vertical_types:ANY''"
  by (simp add: key_eval)

section \<open>Properties of groupings\<close>

lemma foldl_invariant:
  assumes "P a" and "\<And>b x. P b \<Longrightarrow> x \<in> set xs \<Longrightarrow> P (f b x)"
  shows "P (foldl f a xs)"
  using assms by (induction xs arbitrary: a) auto

lemma obj_push_members:
  "(k, ys) \<in> set (obj_push k' x ps) \<Longrightarrow>
     set ys \<subseteq> insert x (\<Union>(set ` snd ` set ps))"
  by (induction k' x ps rule: obj_push.induct) (auto split: if_splits)

lemma group_by_members:
  assumes "(k, ys) \<in> set (group_by key xs)"
  shows "set ys \<subseteq> set xs"
proof -
  have "\<forall>p \<in> set (foldl (\<lambda>groups x. obj_push (key x) x groups) [] xs). set (snd p) \<subseteq> set xs"
  proof (rule foldl_invariant [where P = "\<lambda>ps. \<forall>p \<in> set ps. set (snd p) \<subseteq> set xs"])
    show "\<forall>p \<in> set []. set (snd p) \<subseteq> set xs" by simp
  next
    fix b :: "(string \<times> 'a list) list" and x
    assume b: "\<forall>p \<in> set b. set (snd p) \<subseteq> set xs" and x: "x \<in> set xs"
    show "\<forall>p \<in> set (obj_push (key x) x b). set (snd p) \<subseteq> set xs"
    proof
      fix p assume "p \<in> set (obj_push (key x) x b)"
      then have "(fst p, snd p) \<in> set (obj_push (key x) x b)" by simp
      then have "set (snd p) \<subseteq> insert x (\<Union>(set ` snd ` set b))"
        by (rule obj_push_members)
      with b x show "set (snd p) \<subseteq> set xs" by fastforce
    qed
  qed
  with assms show ?thesis by (fastforce simp: group_by_def)
qed

lemma obj_push_keys:
  "map fst (obj_push k x ps) = (if k \<in> fst ` set ps then map fst ps else map fst ps @ [k])"
  by (induction k x ps rule: obj_push.induct) auto

lemma obj_push_blocks:
  "b \<in> set (obj_push k x ps) \<Longrightarrow>
     b \<in> set ps \<or> (fst b = k \<and> (snd b = [x] \<or> (\<exists>zs. (k, zs) \<in> set ps \<and> snd b = zs @ [x])))"
  by (induction k x ps rule: obj_push.induct) (auto split: if_splits)

lemma keyed_blocks_push:
  assumes "keyed_blocks key ps"
  shows "keyed_blocks key (obj_push (key x) x ps)"
proof -
  have d: "distinct (map fst (obj_push (key x) x ps))"
    using assms by (auto simp: obj_push_keys keyed_blocks_def)
  have "\<forall>b \<in> set (obj_push (key x) x ps). snd b \<noteq> [] \<and> (\<forall>y \<in> set (snd b). key y = fst b)"
  proof
    fix b assume "b \<in> set (obj_push (key x) x ps)"
    then have "b \<in> set ps \<or>
        (fst b = key x \<and> (snd b = [x] \<or> (\<exists>zs. (key x, zs) \<in> set ps \<and> snd b = zs @ [x])))"
      by (rule obj_push_blocks)
    then show "snd b \<noteq> [] \<and> (\<forall>y \<in> set (snd b). key y = fst b)"
      using assms by (fastforce simp: keyed_blocks_def list_all_iff)
  qed
  with d show ?thesis by (simp add: keyed_blocks_def list_all_iff)
qed

lemma foldl_invariant':
  assumes "P a" and "\<And>b x. P b \<Longrightarrow> P (f b x)"
  shows "P (foldl f a xs)"
  using assms by (induction xs arbitrary: a) auto

lemma keyed_blocks_group_by: "keyed_blocks key (group_by key xs)"
  unfolding group_by_def
  by (rule foldl_invariant' [where P = "keyed_blocks key"])
     (simp_all add: keyed_blocks_def keyed_blocks_push [unfolded keyed_blocks_def])

lemma push_new:
  "k \<notin> fst ` set acc \<Longrightarrow> obj_push k x acc = acc @ [(k, [x])]"
  by (induction k x acc rule: obj_push.induct) auto

lemma push_last:
  "k \<notin> fst ` set acc \<Longrightarrow> obj_push k x (acc @ [(k, zs)]) = acc @ [(k, zs @ [x])]"
  by (induction acc) auto

lemma fold_block:
  assumes "k \<notin> fst ` set acc" and "\<forall>y \<in> set ys. key y = k"
  shows "foldl (\<lambda>groups x. obj_push (key x) x groups) (acc @ [(k, zs)]) ys = acc @ [(k, zs @ ys)]"
  using assms by (induction ys arbitrary: zs) (simp_all add: push_last)

lemma fold_blocks:
  assumes "distinct (map fst (acc @ blocks))"
    and "\<forall>b \<in> set blocks. snd b \<noteq> [] \<and> (\<forall>y \<in> set (snd b). key y = fst b)"
  shows "foldl (\<lambda>groups x. obj_push (key x) x groups) acc (concat (map snd blocks)) = acc @ blocks"
  using assms
proof (induction blocks arbitrary: acc)
  case Nil
  show ?case by simp
next
  case (Cons b blocks)
  obtain k ys where b: "b = (k, ys)" by (cases b)
  with Cons.prems obtain y ys' where ys: "ys = y # ys'" by (cases ys) auto
  from Cons.prems b have fresh: "k \<notin> fst ` set acc" by auto
  from Cons.prems b ys have keys: "key y = k" "\<forall>z \<in> set ys'. key z = k" by auto
  have "foldl (\<lambda>groups x. obj_push (key x) x groups) acc (ys @ concat (map snd blocks)) =
        foldl (\<lambda>groups x. obj_push (key x) x groups)
          (foldl (\<lambda>groups x. obj_push (key x) x groups) (acc @ [(k, [y])]) ys')
          (concat (map snd blocks))"
    using fresh keys by (simp add: ys push_new)
  also have "\<dots> = foldl (\<lambda>groups x. obj_push (key x) x groups) (acc @ [(k, ys)])
          (concat (map snd blocks))"
    using fold_block [OF fresh keys(2), of "[y]"] by (simp add: ys)
  also have "\<dots> = (acc @ [(k, ys)]) @ blocks"
    using Cons.prems b by (intro Cons.IH) auto
  finally show ?case by (simp add: b)
qed

lemma group_by_blocks:
  assumes "keyed_blocks key blocks"
  shows "group_by key (concat (map snd blocks)) = blocks"
  using assms fold_blocks [of "[]" blocks key]
  by (simp add: group_by_def keyed_blocks_def list_all_iff)

text \<open>
  Regrouping the output of a grouping whose blocks were transformed: when the
  transformation \<open>t\<close> keeps every block non-empty and under its key, the second
  grouping finds the transformed blocks again.
\<close>

lemma regroup_transformed:
  assumes "\<And>b. b \<in> set (group_by key xs) \<Longrightarrow>
      t b \<noteq> [] \<and> (\<forall>y \<in> set (t b). key y = fst b)"
  shows "group_by key (concat (map t (group_by key xs))) =
         map (\<lambda>b. (fst b, t b)) (group_by key xs)"
proof -
  let ?B = "group_by key xs"
  let ?B' = "map (\<lambda>b. (fst b, t b)) ?B"
  have "keyed_blocks key ?B" by (rule keyed_blocks_group_by)
  then have "keyed_blocks key ?B'"
    using assms by (auto simp: keyed_blocks_def list_all_iff comp_def)
  then have "group_by key (concat (map snd ?B')) = ?B'" by (rule group_by_blocks)
  then show ?thesis by (simp add: comp_def)
qed

lemma regroup_idempotent:
  assumes "\<And>b. b \<in> set (group_by key xs) \<Longrightarrow>
      t b \<noteq> [] \<and> (\<forall>y \<in> set (t b). key y = fst b) \<and> t' (fst b, t b) = t b"
  shows "concat (map t' (group_by key (concat (map t (group_by key xs))))) =
         concat (map t (group_by key xs))"
proof -
  have "group_by key (concat (map t (group_by key xs))) =
         map (\<lambda>b. (fst b, t b)) (group_by key xs)"
    using assms by (intro regroup_transformed) blast
  then have "concat (map t' (group_by key (concat (map t (group_by key xs))))) =
      concat (map (\<lambda>b. t' (fst b, t b)) (group_by key xs))"
    by (simp add: comp_def)
  also have "\<dots> = concat (map t (group_by key xs))"
    using assms by (intro arg_cong [where f = concat] map_cong) auto
  finally show ?thesis .
qed

lemma group_by_subset:
  "b \<in> set (group_by key xs) \<Longrightarrow> set (snd b) \<subseteq> set xs"
  using group_by_members [of "fst b" "snd b" key xs] by simp

lemma group_by_block:
  "b \<in> set (group_by key xs) \<Longrightarrow> snd b \<noteq> [] \<and> (\<forall>y \<in> set (snd b). key y = fst b)"
  using keyed_blocks_group_by [of key xs] by (auto simp: keyed_blocks_def list_all_iff)

lemma group_by_Nil [simp]: "group_by key [] = []"
  by (simp add: group_by_def)

lemma group_by_not_Nil: "xs \<noteq> [] \<Longrightarrow> group_by key xs \<noteq> []"
proof -
  assume "xs \<noteq> []"
  then obtain x xs' where "xs = x # xs'" by (cases xs) auto
  then have "foldl (\<lambda>groups x. obj_push (key x) x groups) [] xs =
     foldl (\<lambda>groups x. obj_push (key x) x groups) ([] @ [(key x, [x])]) xs'"
    by simp
  moreover have "\<And>acc b. foldl (\<lambda>groups x. obj_push (key x) x groups) (b # acc) xs' \<noteq> []"
    by (rule foldl_invariant' [where P = "\<lambda>ps. ps \<noteq> []"])
       (simp, metis obj_push.elims list.distinct(1))
  ultimately show ?thesis by (simp add: group_by_def)
qed

section \<open>Properties of the ConfigManager\<close>

lemma kind_has_group_iff:
  "kind_has_group st kind \<longleftrightarrow> groups_of_type (group_type_of_kind kind) st \<noteq> []"
  by (auto simp: kind_has_group_def groups_of_type_def list_ex_iff filter_empty_conv)

lemma section_keys_single:
  "section_keys (empty_section\<lparr> display_format := Some a \<rparr>) = [''display_format'']"
  "section_keys (empty_section\<lparr> ranges := Some a \<rparr>) = [''ranges'']"
  "section_keys (empty_section\<lparr> capping := Some a \<rparr>) = [''capping'']"
  "section_keys (empty_section\<lparr> rounding := Some a \<rparr>) = [''rounding'']"
  by (simp_all add: section_keys_def empty_section_def)

lemma sections_from_groups_keys:
  "map section_keys (sections_from_groups st) =
     map (\<lambda>kind. [kind]) (filter (kind_has_group st) section_kinds)"
  by (simp add: sections_from_groups_def Let_def section_kinds_def kind_has_group_iff
      group_type_of_kind_def section_keys_single)

lemma kind_has_group_config [simp]:
  "kind_has_group (st\<lparr> config := c \<rparr>) = kind_has_group st"
  "kind_has_group (st\<lparr> localStorage := l \<rparr>) = kind_has_group st"
  "kind_has_group (st\<lparr> storageWrites := w \<rparr>) = kind_has_group st"
  by (simp_all add: kind_has_group_def fun_eq_iff)

lemma updateConfigFromGroups_in_order:
  "sections_in_order (updateConfigFromGroups st)"
  by (simp add: sections_in_order_def updateConfigFromGroups_def saveConfig_def
      sections_from_groups_keys)

lemma saveConfig_in_order:
  "sections_in_order st \<Longrightarrow> sections_in_order (saveConfig st)"
  by (simp add: sections_in_order_def saveConfig_def)

text \<open>
  Claim C10: after every successful mutation (\<^verbatim>\<open>addGroup\<close>, which always
  succeeds, \<^verbatim>\<open>cloneGroup\<close>, \<^verbatim>\<open>deleteGroup\<close>, \<^verbatim>\<open>updateGroupCommonParam\<close>,
  \<^verbatim>\<open>addRule\<close>, \<^verbatim>\<open>updateRule\<close>, \<^verbatim>\<open>deleteRule\<close>, \<^verbatim>\<open>updateGroupTitle\<close>),
  \<^verbatim>\<open>config.pdt\<close> holds at most one section per kind, a section of a kind is
  present exactly when a group of that kind exists, and the sections stand in
  the order display_format, ranges, capping, rounding, whatever the section
  list was before.
\<close>

theorem C10_sections_after_mutation:
  "sections_in_order (snd (addGroup sectionType templateGroup st)) \<and>
   (cloneGroup groupId st = Returns (Some newId) s1 \<longrightarrow> sections_in_order s1) \<and>
   (fst (deleteGroup sectionType groupId st) \<longrightarrow>
      sections_in_order (snd (deleteGroup sectionType groupId st))) \<and>
   (updateGroupCommonParam groupId paramName v st = Returns True s2 \<longrightarrow> sections_in_order s2) \<and>
   (fst (addRule groupId fmt st) \<longrightarrow> sections_in_order (snd (addRule groupId fmt st))) \<and>
   (updateRule groupId ruleIndex field fv st = Returns True s3 \<longrightarrow> sections_in_order s3) \<and>
   (deleteRule groupId ruleIndex st = Returns True s4 \<longrightarrow> sections_in_order s4) \<and>
   (fst (updateGroupTitle groupId newTitle st) \<longrightarrow>
      sections_in_order (snd (updateGroupTitle groupId newTitle st)))"
proof (intro conjI impI)
  show "sections_in_order (snd (addGroup sectionType templateGroup st))"
    by (simp add: addGroup_def Let_def updateConfigFromGroups_in_order)
next
  assume "cloneGroup groupId st = Returns (Some newId) s1"
  then show "sections_in_order s1"
    by (auto simp: cloneGroup_def Let_def updateConfigFromGroups_in_order
        split: member.splits)
next
  assume "fst (deleteGroup sectionType groupId st)"
  then show "sections_in_order (snd (deleteGroup sectionType groupId st))"
    by (simp add: deleteGroup_def updateConfigFromGroups_in_order split: member.splits)
next
  assume "updateGroupCommonParam groupId paramName v st = Returns True s2"
  then show "sections_in_order s2"
    by (auto simp: updateGroupCommonParam_def updateConfigFromGroups_in_order
        split: member.splits)
next
  assume "fst (addRule groupId fmt st)"
  then show "sections_in_order (snd (addRule groupId fmt st))"
    by (simp add: addRule_def updateConfigFromGroups_in_order split: member.splits)
next
  assume "updateRule groupId ruleIndex field fv st = Returns True s3"
  then show "sections_in_order s3"
    by (auto simp: updateRule_def updateConfigFromGroups_in_order
        split: member.splits option.splits)
next
  assume "deleteRule groupId ruleIndex st = Returns True s4"
  then show "sections_in_order s4"
    by (auto simp: deleteRule_def updateConfigFromGroups_in_order
        split: member.splits option.splits)
next
  assume "fst (updateGroupTitle groupId newTitle st)"
  then show "sections_in_order (snd (updateGroupTitle groupId newTitle st))"
    by (simp add: updateGroupTitle_def Let_def updateConfigFromGroups_in_order
        saveConfig_in_order split: member.splits)
qed

lemmas manager_eval = example_manager_def capping_example_def default_single_rule_def
  default_ranges_rule_def empty_rule_def






lemma groups_after_update [simp]:
  "groups (updateConfigFromGroups st) = groups st"
  by (simp add: updateConfigFromGroups_def saveConfig_def)

text \<open>
  The theorem on a state whose section list starts in the order capping,
  ranges: adding a display-format group, and deleting the capping group.
\<close>

theorem C10_sections_after_mutation_witness:
  "map section_keys (pdt (config example_manager)) = [[''capping''], [''ranges'']] \<and>
   map section_keys (pdt (config (snd (addGroup ''display-format'' None example_manager)))) =
     [[''display_format''], [''ranges''], [''capping'']] \<and>
   fst (deleteGroup ''capping'' ''capping-0'' example_manager) \<and>
   map section_keys (pdt (config (snd (deleteGroup ''capping'' ''capping-0'' example_manager)))) =
     [[''ranges'']]"
proof -
  have a: "map section_keys (pdt (config example_manager)) = [[''capping''], [''ranges'']]"
    by (simp add: example_manager_def section_keys_def empty_section_def)
  have d: "fst (deleteGroup ''capping'' ''capping-0'' example_manager)"
    by (simp add: deleteGroup_def obj_member_def example_manager_def)
  have ga: "map (gtype \<circ> snd) (groups (snd (addGroup ''display-format'' None example_manager))) =
      [''capping'', ''ranges'', ''display-format'']"
    by (simp add: addGroup_def Let_def manager_eval)
  have gd: "map (gtype \<circ> snd) (groups (snd (deleteGroup ''capping'' ''capping-0'' example_manager))) =
      [''ranges'']"
    by (simp add: deleteGroup_def obj_member_def obj_delete_def manager_eval)
  have k: "\<And>st kind. kind_has_group st kind \<longleftrightarrow>
      group_type_of_kind kind \<in> set (map (gtype \<circ> snd) (groups st))"
    by (force simp: kind_has_group_def list_ex_iff image_iff)
  from C10_sections_after_mutation [where sectionType = "''display-format''"
      and templateGroup = None and st = example_manager]
  have "sections_in_order (snd (addGroup ''display-format'' None example_manager))"
    by blast
  then have b: "map section_keys (pdt (config (snd (addGroup ''display-format'' None example_manager)))) =
     [[''display_format''], [''ranges''], [''capping'']]"
    by (simp add: sections_in_order_def k ga section_kinds_def group_type_of_kind_def)
  from C10_sections_after_mutation [where sectionType = "''capping''"
      and groupId = "''capping-0''" and st = example_manager] d
  have "sections_in_order (snd (deleteGroup ''capping'' ''capping-0'' example_manager))"
    by blast
  then have c: "map section_keys (pdt (config (snd (deleteGroup ''capping'' ''capping-0'' example_manager)))) =
     [[''ranges'']]"
    by (simp add: sections_in_order_def k gd section_kinds_def group_type_of_kind_def)
  from a b c d show ?thesis by blast
qed

section \<open>Properties of the rebuilt index\<close>

lemma obj_set_members:
  "(k, v) \<in> set (obj_set k' v' ps) \<Longrightarrow> v = v' \<or> (k, v) \<in> set ps"
  by (induction k' v' ps rule: obj_set.induct) (auto split: if_splits)

lemma set_insert_by: "set (insert_by cmp x xs) = insert x (set xs)"
  by (induction xs) auto

lemma set_sort_by: "set (sort_by cmp xs) = set xs"
  by (induction xs) (auto simp: sort_by_def set_insert_by)

lemma set_sortRangeEntries: "set (sortRangeEntries es) = set es"
  by (simp add: sortRangeEntries_def set_sort_by)

lemma register_ranges_from:
  assumes "ranges_from E st"
    and "gtype (build (prefix @ ''-'' @ show_nat (idCounter st)) (fst keyed) (hd (snd keyed)) (snd keyed))
           = ''ranges'' \<longrightarrow>
         set (rules (build (prefix @ ''-'' @ show_nat (idCounter st)) (fst keyed) (hd (snd keyed))
           (snd keyed))) \<subseteq> ranges_rule_of_entry ` E"
  shows "ranges_from E (register_group prefix build st keyed)"
proof (cases "snd keyed")
  case Nil
  with assms show ?thesis by (simp add: register_group_def)
next
  case (Cons firstEntry rest)
  show ?thesis
    unfolding ranges_from_def
  proof (clarify)
    fix k g r
    assume m: "(k, g) \<in> set (groups (register_group prefix build st keyed))"
      and t: "gtype g = ''ranges''" and r: "r \<in> set (rules g)"
    from m Cons have "(k, g) \<in> set (obj_set (prefix @ ''-'' @ show_nat (idCounter st))
        (build (prefix @ ''-'' @ show_nat (idCounter st)) (fst keyed) firstEntry (snd keyed))
        (groups st))"
      by (simp add: register_group_def Let_def)
    then have "g = build (prefix @ ''-'' @ show_nat (idCounter st)) (fst keyed) firstEntry (snd keyed)
        \<or> (k, g) \<in> set (groups st)"
      by (rule obj_set_members)
    then show "r \<in> ranges_rule_of_entry ` E"
    proof
      assume "g = build (prefix @ ''-'' @ show_nat (idCounter st)) (fst keyed) firstEntry (snd keyed)"
      with assms(2) Cons t r show ?thesis by auto
    next
      assume "(k, g) \<in> set (groups st)"
      with assms(1) t r show ?thesis by (auto simp: ranges_from_def)
    qed
  qed
qed

lemma register_rounding_ranges_from:
  assumes "ranges_from E st"
  shows "ranges_from E (register_rounding st indexed)"
  unfolding ranges_from_def
proof (clarify)
  fix k g r
  assume m: "(k, g) \<in> set (groups (register_rounding st indexed))"
    and t: "gtype g = ''ranges''" and r: "r \<in> set (rules g)"
  from m have "g = rounding_group (''rounding-'' @ show_nat (idCounter st)) (fst indexed) (snd indexed)
      \<or> (k, g) \<in> set (groups st)"
    by (auto simp: register_rounding_def Let_def dest: obj_set_members)
  then show "r \<in> ranges_rule_of_entry ` E"
  proof
    assume "g = rounding_group (''rounding-'' @ show_nat (idCounter st)) (fst indexed) (snd indexed)"
    with t show ?thesis by (simp add: rounding_group_def)
  next
    assume "(k, g) \<in> set (groups st)"
    with assms t r show ?thesis by (auto simp: ranges_from_def)
  qed
qed

lemma rebuild_section_ranges_from:
  assumes "ranges_from E st"
    and "getSectionType s = ''ranges'' \<longrightarrow> (\<forall>es. ranges s = Some es \<longrightarrow> set es \<subseteq> E)"
  shows "ranges_from E (rebuild_section st s)"
proof -
  have df: "\<And>es keys. ranges_from E
      (foldl (register_group ''display-format'' display_format_group) st (groupByCommonParams es keys))"
    by (rule foldl_invariant [where P = "ranges_from E"], rule assms(1),
        rule register_ranges_from) (simp_all add: display_format_group_def Let_def)
  have cp: "\<And>es keys. ranges_from E
      (foldl (register_group ''capping'' capping_group) st (groupByCommonParams es keys))"
    by (rule foldl_invariant [where P = "ranges_from E"], rule assms(1),
        rule register_ranges_from) (simp_all add: capping_group_def Let_def)
  have rd: "\<And>es. ranges_from E (foldl register_rounding st (enumerate 0 es))"
    by (rule foldl_invariant [where P = "ranges_from E"], rule assms(1),
        rule register_rounding_ranges_from)
  have rg: "\<And>es keys. set es \<subseteq> E \<Longrightarrow> ranges_from E
      (foldl (register_group ''ranges'' ranges_group) st (groupByCommonParams es keys))"
  proof -
    fix es :: "entry list" and keys assume sub: "set es \<subseteq> E"
    show "ranges_from E
      (foldl (register_group ''ranges'' ranges_group) st (groupByCommonParams es keys))"
    proof (rule foldl_invariant [where P = "ranges_from E"], rule assms(1),
        rule register_ranges_from)
      fix b :: manager and x :: "string \<times> entry list"
      assume "ranges_from E b"
      then show "ranges_from E b" .
    next
      fix b :: manager and x :: "string \<times> entry list"
      assume "x \<in> set (groupByCommonParams es keys)"
      then have "set (snd x) \<subseteq> set es"
        using group_by_members [of "fst x" "snd x"] by (simp add: groupByCommonParams_def)
      with sub show "gtype (ranges_group (''ranges'' @ ''-'' @ show_nat (idCounter b)) (fst x)
            (hd (snd x)) (snd x)) = ''ranges'' \<longrightarrow>
         set (rules (ranges_group (''ranges'' @ ''-'' @ show_nat (idCounter b)) (fst x)
            (hd (snd x)) (snd x))) \<subseteq> ranges_rule_of_entry ` E"
        by (auto simp: ranges_group_def Let_def set_sortRangeEntries)
    qed
  qed
  show ?thesis
    using assms df cp rd rg
    by (auto simp: rebuild_section_def Let_def split: option.splits)
qed

lemma rebuild_ranges_from:
  "ranges_from (set (flat_ranges_entries (config st))) (rebuildGroupsMapping st)"
  unfolding rebuildGroupsMapping_def
proof (rule foldl_invariant [where P = "ranges_from (set (flat_ranges_entries (config st)))"])
  show "ranges_from (set (flat_ranges_entries (config st))) (st\<lparr>groups := [], idCounter := 0\<rparr>)"
    by (simp add: ranges_from_def)
next
  fix b s
  assume "ranges_from (set (flat_ranges_entries (config st))) b"
    and "s \<in> set (pdt (config st))"
  then show "ranges_from (set (flat_ranges_entries (config st))) (rebuild_section b s)"
    by (intro rebuild_section_ranges_from) (auto simp: flat_ranges_entries_def)
qed

lemma number_or_null_not_zero: "number_or_null v \<noteq> Some 0"
  by (cases v rule: number_or_null.cases) auto

lemma ranges_rule_of_entry_no_zero: "no_zero_bound (ranges_rule_of_entry e)"
  by (simp add: no_zero_bound_def ranges_rule_of_entry_def empty_rule_def number_or_null_not_zero)

lemma ranges_conditions_bounds:
  "pdt_greater_than (ranges_conditions g r) = number_of (pdtGreaterThan r)"
  "pdt_less_than_or_equal_to (ranges_conditions g r) = number_of (pdtLessThanOrEqualTo r)"
  "mean_delay_greater_than (ranges_conditions g r) = number_of (meanDelayGreaterThan r)"
  "mean_delay_less_than_or_equal_to (ranges_conditions g r) = number_of (meanDelayLessThanOrEqualTo r)"
  by (simp_all add: ranges_conditions_def Let_def empty_conditions_def)

subsection \<open>Every entry is rebuilt\<close>

lemma show_nat_not_Nil: "show_nat n \<noteq> []"
  by (subst show_nat.simps) simp

lemma digit_char_inj: "a < 10 \<Longrightarrow> b < 10 \<Longrightarrow> digit_char a = digit_char b \<Longrightarrow> a = b"
proof -
  assume a: "a < 10" and b: "b < 10" and e: "digit_char a = digit_char b"
  have d: "distinct ''0123456789''" by simp
  have l: "length ''0123456789'' = 10" by simp
  from e have "''0123456789'' ! a = ''0123456789'' ! b" by (simp add: digit_char_def)
  with d a b l show "a = b" by (metis nth_eq_iff_index_eq)
qed

lemma show_nat_inj: "show_nat n = show_nat m \<Longrightarrow> n = m"
proof (induction n arbitrary: m rule: show_nat.induct)
  case (1 n)
  show ?case
  proof (cases "n < 10")
    case True
    then have n: "show_nat n = [digit_char n]" by (subst show_nat.simps) simp
    show ?thesis
    proof (cases "m < 10")
      case True
      then have "show_nat m = [digit_char m]" by (subst show_nat.simps) simp
      with n 1 \<open>n < 10\<close> True show ?thesis by (auto dest: digit_char_inj)
    next
      case False
      then have "show_nat m = show_nat (m div 10) @ [digit_char (m mod 10)]"
        by (subst show_nat.simps) simp
      with n "1.prems" show_nat_not_Nil [of "m div 10"] show ?thesis by (cases "show_nat (m div 10)") auto
    qed
  next
    case False
    then have n: "show_nat n = show_nat (n div 10) @ [digit_char (n mod 10)]"
      by (subst show_nat.simps) simp
    show ?thesis
    proof (cases "m < 10")
      case True
      then have "show_nat m = [digit_char m]" by (subst show_nat.simps) simp
      with n "1.prems" show_nat_not_Nil [of "n div 10"] show ?thesis by (cases "show_nat (n div 10)") auto
    next
      case m: False
      then have "show_nat m = show_nat (m div 10) @ [digit_char (m mod 10)]"
        by (subst show_nat.simps) simp
      with n "1.prems" have e: "show_nat (n div 10) = show_nat (m div 10)"
        "digit_char (n mod 10) = digit_char (m mod 10)" by auto
      from e(1) False have "n div 10 = m div 10" by (intro "1.IH") auto
      moreover from e(2) have "n mod 10 = m mod 10" by (intro digit_char_inj) auto
      ultimately show ?thesis by (metis div_mult_mod_eq)
    qed
  qed
qed

lemma id_number:
  assumes "p \<in> set id_prefixes" and "q \<in> set id_prefixes"
    and "p @ ''-'' @ show_nat n = q @ ''-'' @ show_nat m"
  shows "n = m"
  using assms by (auto simp: id_prefixes_def dest: show_nat_inj)

lemma fresh_new_id:
  assumes "fresh_ids st" and "p \<in> set id_prefixes"
  shows "p @ ''-'' @ show_nat (idCounter st) \<notin> fst ` set (groups st)"
proof
  assume "p @ ''-'' @ show_nat (idCounter st) \<in> fst ` set (groups st)"
  with assms(1) obtain q n where "q \<in> set id_prefixes" "n < idCounter st"
    "p @ ''-'' @ show_nat (idCounter st) = q @ ''-'' @ show_nat n"
    by (fastforce simp: fresh_ids_def list_all_iff list_ex_iff)
  with assms(2) id_number [of p q "idCounter st" n] show False by simp
qed

lemma obj_set_new:
  "k \<notin> fst ` set ps \<Longrightarrow> obj_set k v ps = ps @ [(k, v)]"
  by (induction k v ps rule: obj_set.induct) auto

lemma fresh_ids_grow:
  assumes "fresh_ids st" and "p \<in> set id_prefixes"
  shows "fresh_ids (st\<lparr> idCounter := idCounter st + 1,
           groups := groups st @ [(p @ ''-'' @ show_nat (idCounter st), g)] \<rparr>)"
proof -
  have "\<And>k. list_ex (\<lambda>p. list_ex (\<lambda>n. k = p @ ''-'' @ show_nat n) [0..<idCounter st]) id_prefixes
      \<Longrightarrow> list_ex (\<lambda>p. list_ex (\<lambda>n. k = p @ ''-'' @ show_nat n) [0..<idCounter st + 1]) id_prefixes"
    by (auto simp: list_ex_iff)
  moreover have "list_ex (\<lambda>q. list_ex (\<lambda>n. p @ ''-'' @ show_nat (idCounter st) = q @ ''-'' @ show_nat n)
      [0..<idCounter st + 1]) id_prefixes"
    using assms(2) by (auto simp: list_ex_iff)
  ultimately show ?thesis
    using assms(1) by (auto simp: fresh_ids_def list_all_iff)
qed

lemma register_group_result:
  assumes "fresh_ids st" and "prefix \<in> set id_prefixes" and "snd keyed = firstEntry # rest"
  shows "register_group prefix build st keyed =
     st\<lparr> idCounter := idCounter st + 1,
         groups := groups st @ [(prefix @ ''-'' @ show_nat (idCounter st),
           build (prefix @ ''-'' @ show_nat (idCounter st)) (fst keyed) firstEntry (snd keyed))] \<rparr>"
  using assms fresh_new_id [OF assms(1,2)]
  by (simp add: register_group_def Let_def obj_set_new)

lemma register_rounding_result:
  assumes "fresh_ids st"
  shows "register_rounding st indexed =
     st\<lparr> idCounter := idCounter st + 1,
         groups := groups st @ [(''rounding'' @ ''-'' @ show_nat (idCounter st),
           rounding_group (''rounding'' @ ''-'' @ show_nat (idCounter st)) (fst indexed) (snd indexed))] \<rparr>"
  using fresh_new_id [OF assms, of "''rounding''"]
  by (simp add: register_rounding_def Let_def obj_set_new id_prefixes_def)

lemma holds_rule_of_grow:
  "holds_rule_of e st \<Longrightarrow>
     holds_rule_of e (st\<lparr> idCounter := n, groups := groups st @ [kg] \<rparr>)"
  by (auto simp: holds_rule_of_def list_ex_iff)

text \<open>
  A loop that keeps an invariant \<open>P\<close>, establishes \<open>Q x\<close> in the step for \<open>x\<close>
  and never loses a \<open>Q y\<close>.
\<close>

lemma foldl_establishes:
  assumes "P a" and "set xs \<subseteq> S"
    and "\<And>b x. P b \<Longrightarrow> x \<in> S \<Longrightarrow> P (f b x) \<and> Q x (f b x)"
    and "\<And>b x y. P b \<Longrightarrow> Q y b \<Longrightarrow> x \<in> S \<Longrightarrow> Q y (f b x)"
  shows "P (foldl f a xs) \<and> (\<forall>x \<in> set xs. Q x (foldl f a xs))"
  using assms(2)
proof (induction xs rule: rev_induct)
  case Nil
  show ?case using assms(1) by simp
next
  case (snoc x xs)
  then have ih: "P (foldl f a xs)" "\<forall>y \<in> set xs. Q y (foldl f a xs)" and x: "x \<in> S"
    by auto
  from assms(3) [OF ih(1) x] have "P (f (foldl f a xs) x)" "Q x (f (foldl f a xs) x)" by auto
  moreover have "\<forall>y \<in> set xs. Q y (f (foldl f a xs) x)"
    using assms(4) [OF ih(1) _ x] ih(2) by blast
  ultimately show ?case by simp
qed

lemma foldl_keeps:
  assumes "P a" and "R a" and "set xs \<subseteq> S"
    and "\<And>b x. P b \<Longrightarrow> x \<in> S \<Longrightarrow> P (f b x)"
    and "\<And>b x. P b \<Longrightarrow> R b \<Longrightarrow> x \<in> S \<Longrightarrow> R (f b x)"
  shows "P (foldl f a xs) \<and> R (foldl f a xs)"
  using assms(3)
proof (induction xs rule: rev_induct)
  case Nil
  show ?case using assms(1,2) by simp
next
  case (snoc x xs)
  then show ?case using assms(4,5) by auto
qed

lemma obj_push_covers:
  "y = x \<or> y \<in> \<Union>(set ` snd ` set ps) \<Longrightarrow> y \<in> \<Union>(set ` snd ` set (obj_push k x ps))"
  by (induction k x ps rule: obj_push.induct) auto

lemma group_by_covers:
  "x \<in> set xs \<Longrightarrow> \<exists>b \<in> set (group_by key xs). x \<in> set (snd b)"
proof -
  have "\<forall>x \<in> set xs. x \<in> \<Union>(set ` snd ` set (foldl (\<lambda>groups x. obj_push (key x) x groups) [] xs))"
  proof (induction xs rule: rev_induct)
    case Nil
    show ?case by simp
  next
    case (snoc z zs)
    show ?case
    proof
      fix x assume "x \<in> set (zs @ [z])"
      with snoc have "x = z \<or>
          x \<in> \<Union>(set ` snd ` set (foldl (\<lambda>groups x. obj_push (key x) x groups) [] zs))"
        by auto
      then have "x \<in> \<Union>(set ` snd ` set (obj_push (key z) z
          (foldl (\<lambda>groups x. obj_push (key x) x groups) [] zs)))"
        by (rule obj_push_covers)
      then show "x \<in> \<Union>(set ` snd ` set (foldl (\<lambda>groups x. obj_push (key x) x groups) [] (zs @ [z])))"
        by simp
    qed
  qed
  moreover assume "x \<in> set xs"
  ultimately show ?thesis by (auto simp: group_by_def)
qed

lemma register_step:
  assumes "fresh_ids b" and "prefix \<in> set id_prefixes" and "x \<in> set (group_by key es)"
  shows "fresh_ids (register_group prefix build b x)"
    and "holds_rule_of e b \<Longrightarrow> holds_rule_of e (register_group prefix build b x)"
proof -
  from group_by_block [OF assms(3)] obtain firstEntry rest where r: "snd x = firstEntry # rest"
    by (cases "snd x") auto
  note res = register_group_result [OF assms(1,2) r]
  show "fresh_ids (register_group prefix build b x)"
    unfolding res using assms(1,2) by (rule fresh_ids_grow)
  show "holds_rule_of e b \<Longrightarrow> holds_rule_of e (register_group prefix build b x)"
    unfolding res by (rule holds_rule_of_grow)
qed

lemma register_loop:
  assumes "fresh_ids st" and "prefix \<in> set id_prefixes"
  shows "fresh_ids (foldl (register_group prefix build) st (group_by key es)) \<and>
         (\<forall>e. holds_rule_of e st \<longrightarrow>
              holds_rule_of e (foldl (register_group prefix build) st (group_by key es)))"
proof (rule foldl_keeps [where S = "set (group_by key es)" and P = fresh_ids])
  show "fresh_ids st" by (rule assms(1))
  show "\<forall>e. holds_rule_of e st \<longrightarrow> holds_rule_of e st" by simp
  show "set (group_by key es) \<subseteq> set (group_by key es)" by simp
next
  fix b x assume "fresh_ids b" "x \<in> set (group_by key es)"
  then show "fresh_ids (register_group prefix build b x)"
    using assms(2) by (intro register_step(1))
next
  fix b x
  assume "fresh_ids b" "\<forall>e. holds_rule_of e st \<longrightarrow> holds_rule_of e b" "x \<in> set (group_by key es)"
  then show "\<forall>e. holds_rule_of e st \<longrightarrow> holds_rule_of e (register_group prefix build b x)"
    using assms(2) register_step(2) by blast
qed

lemma rounding_loop:
  assumes "fresh_ids st"
  shows "fresh_ids (foldl register_rounding st xs) \<and>
         (\<forall>e. holds_rule_of e st \<longrightarrow> holds_rule_of e (foldl register_rounding st xs))"
proof (rule foldl_keeps [where S = UNIV and P = fresh_ids])
  show "fresh_ids st" by (rule assms)
  show "\<forall>e. holds_rule_of e st \<longrightarrow> holds_rule_of e st" by simp
  show "set xs \<subseteq> UNIV" by simp
next
  fix b x assume b: "fresh_ids b"
  show "fresh_ids (register_rounding b x)"
    unfolding register_rounding_result [OF b]
    using b by (rule fresh_ids_grow) (simp add: id_prefixes_def)
next
  fix b x
  assume b: "fresh_ids b" and h: "\<forall>e. holds_rule_of e st \<longrightarrow> holds_rule_of e b"
  show "\<forall>e. holds_rule_of e st \<longrightarrow> holds_rule_of e (register_rounding b x)"
    unfolding register_rounding_result [OF b] using h holds_rule_of_grow by blast
qed

lemma ranges_loop_covers:
  assumes "fresh_ids st"
  shows "\<forall>e \<in> set es. holds_rule_of e
      (foldl (register_group ''ranges'' ranges_group) st (group_by key es))"
proof -
  let ?final = "foldl (register_group ''ranges'' ranges_group) st (group_by key es)"
  have p: "''ranges'' \<in> set id_prefixes" by (simp add: id_prefixes_def)
  have "fresh_ids ?final \<and>
      (\<forall>x \<in> set (group_by key es). \<forall>e \<in> set (snd x). holds_rule_of e ?final)"
  proof (rule foldl_establishes [where S = "set (group_by key es)" and P = fresh_ids
        and Q = "\<lambda>x b. \<forall>e \<in> set (snd x). holds_rule_of e b"])
    show "fresh_ids st" by (rule assms)
    show "set (group_by key es) \<subseteq> set (group_by key es)" by simp
  next
    fix b x assume b: "fresh_ids b" and x: "x \<in> set (group_by key es)"
    from group_by_block [OF x] obtain firstEntry rest where r: "snd x = firstEntry # rest"
      by (cases "snd x") auto
    note res = register_group_result [OF b p r]
    have "\<forall>e \<in> set (snd x). holds_rule_of e (register_group ''ranges'' ranges_group b x)"
      unfolding res
      by (auto simp: holds_rule_of_def ranges_group_def Let_def set_sortRangeEntries)
    with register_step(1) [OF b p x]
    show "fresh_ids (register_group ''ranges'' ranges_group b x) \<and>
        (\<forall>e \<in> set (snd x). holds_rule_of e (register_group ''ranges'' ranges_group b x))"
      by simp
  next
    fix b x y
    assume "fresh_ids b" "\<forall>e \<in> set (snd y). holds_rule_of e b" "x \<in> set (group_by key es)"
    then show "\<forall>e \<in> set (snd y). holds_rule_of e (register_group ''ranges'' ranges_group b x)"
      using register_step(2) [OF _ p] by blast
  qed
  then show ?thesis using group_by_covers [of _ es key] by blast
qed

lemma rebuild_section_keeps:
  assumes "fresh_ids st"
  shows "fresh_ids (rebuild_section st s) \<and>
         (\<forall>e. holds_rule_of e st \<longrightarrow> holds_rule_of e (rebuild_section st s))"
  using assms register_loop [OF assms, of "''display-format''"]
    register_loop [OF assms, of "''ranges''"] register_loop [OF assms, of "''capping''"]
    rounding_loop [OF assms]
  by (simp add: rebuild_section_def Let_def groupByCommonParams_def id_prefixes_def
      split: option.splits)

lemma rebuild_section_covers:
  assumes "fresh_ids st" and "getSectionType s = ''ranges''" and "ranges s = Some es"
  shows "\<forall>e \<in> set es. holds_rule_of e (rebuild_section st s)"
  using assms ranges_loop_covers [OF assms(1)]
  by (simp add: rebuild_section_def Let_def groupByCommonParams_def)

lemma flat_ranges_entries_member:
  assumes "e \<in> set (flat_ranges_entries cfg)"
  shows "\<exists>s \<in> set (pdt cfg). getSectionType s = ''ranges'' \<and>
           (\<exists>es. ranges s = Some es \<and> e \<in> set es)"
proof -
  from assms obtain s where s: "s \<in> set (pdt cfg)"
    and e: "e \<in> set (if getSectionType s = ''ranges''
                       then (case ranges s of None \<Rightarrow> [] | Some es \<Rightarrow> es) else [])"
    unfolding flat_ranges_entries_def set_concat set_map by blast
  have t: "getSectionType s = ''ranges''"
  proof (rule ccontr)
    assume "getSectionType s \<noteq> ''ranges''"
    with e show False by simp
  qed
  from e t have "e \<in> set (case ranges s of None \<Rightarrow> [] | Some es \<Rightarrow> es)"
    by simp
  then obtain es where "ranges s = Some es" "e \<in> set es"
    by (cases "ranges s") simp_all
  with s t show ?thesis by blast
qed

lemma rebuild_covers:
  assumes "e \<in> set (flat_ranges_entries (config st))"
  shows "holds_rule_of e (rebuildGroupsMapping st)"
proof -
  let ?start = "st\<lparr> groups := [], idCounter := 0 \<rparr>"
  let ?Q = "\<lambda>s b. getSectionType s = ''ranges'' \<longrightarrow>
      (\<forall>es. ranges s = Some es \<longrightarrow> (\<forall>e \<in> set es. holds_rule_of e b))"
  have "fresh_ids (foldl rebuild_section ?start (pdt (config st))) \<and>
      (\<forall>s \<in> set (pdt (config st)). ?Q s (foldl rebuild_section ?start (pdt (config st))))"
  proof (rule foldl_establishes [where S = UNIV and P = fresh_ids and Q = ?Q])
    show "fresh_ids ?start" by (simp add: fresh_ids_def)
    show "set (pdt (config st)) \<subseteq> UNIV" by simp
  next
    fix b x assume b: "fresh_ids b"
    with rebuild_section_keeps [OF b, of x] rebuild_section_covers [OF b, of x]
    show "fresh_ids (rebuild_section b x) \<and> ?Q x (rebuild_section b x)" by blast
  next
    fix b x y assume "fresh_ids b" "?Q y b"
    with rebuild_section_keeps [of b x] show "?Q y (rebuild_section b x)" by blast
  qed
  moreover from flat_ranges_entries_member [OF assms]
  obtain s es where "s \<in> set (pdt (config st))"
    "getSectionType s = ''ranges''" "ranges s = Some es" "e \<in> set es"
    by blast
  ultimately show ?thesis by (auto simp: rebuildGroupsMapping_def)
qed


text \<open>
  Claim C9: a flat ranges entry whose conditions give one of the four numeric
  bounds the integer value 0 is rebuilt into a rule in which that bound is
  \<^verbatim>\<open>null\<close>, since \<^verbatim>\<open>0 || null\<close> is \<^verbatim>\<open>null\<close>; the next re-serialization of
  that rule has no such condition. In the index rebuilt from any flat
  configuration, the rule built from each flat ranges entry stands in a ranges
  group, every rule of every ranges group is built from a flat ranges entry,
  and none has a bound equal to 0.
\<close>

theorem C9_zero_bound_becomes_null:
  "(cond_number e pdt_greater_than = Some (Finite 0) \<longrightarrow>
      pdtGreaterThan (ranges_rule_of_entry e) = None \<and>
      pdt_greater_than (ranges_conditions g (ranges_rule_of_entry e)) = None) \<and>
   (cond_number e pdt_less_than_or_equal_to = Some (Finite 0) \<longrightarrow>
      pdtLessThanOrEqualTo (ranges_rule_of_entry e) = None \<and>
      pdt_less_than_or_equal_to (ranges_conditions g (ranges_rule_of_entry e)) = None) \<and>
   (cond_number e mean_delay_greater_than = Some (Finite 0) \<longrightarrow>
      meanDelayGreaterThan (ranges_rule_of_entry e) = None \<and>
      mean_delay_greater_than (ranges_conditions g (ranges_rule_of_entry e)) = None) \<and>
   (cond_number e mean_delay_less_than_or_equal_to = Some (Finite 0) \<longrightarrow>
      meanDelayLessThanOrEqualTo (ranges_rule_of_entry e) = None \<and>
      mean_delay_less_than_or_equal_to (ranges_conditions g (ranges_rule_of_entry e)) = None) \<and>
   (e \<in> set (flat_ranges_entries (config st)) \<longrightarrow>
      holds_rule_of e (rebuildGroupsMapping st)) \<and>
   ((k, grp) \<in> set (groups (rebuildGroupsMapping st)) \<and> gtype grp = ''ranges'' \<and>
    r \<in> set (rules grp) \<longrightarrow>
      (\<exists>e' \<in> set (flat_ranges_entries (config st)). r = ranges_rule_of_entry e') \<and>
      no_zero_bound r)"
proof (intro conjI impI)
  assume "e \<in> set (flat_ranges_entries (config st))"
  then show "holds_rule_of e (rebuildGroupsMapping st)" by (rule rebuild_covers)
next
  assume h: "(k, grp) \<in> set (groups (rebuildGroupsMapping st)) \<and> gtype grp = ''ranges'' \<and>
    r \<in> set (rules grp)"
  with rebuild_ranges_from [of st]
  show "\<exists>e' \<in> set (flat_ranges_entries (config st)). r = ranges_rule_of_entry e'"
    by (fastforce simp: ranges_from_def)
  then show "no_zero_bound r"
    by (auto simp: ranges_rule_of_entry_no_zero)
qed (simp_all add: ranges_rule_of_entry_def empty_rule_def ranges_conditions_bounds number_of_def)

lemmas rebuild_eval = rebuildGroupsMapping_def rebuild_section_def getSectionType_def
  groupByCommonParams_def group_by_def register_group_def ranges_group_def
  key_without_conditions_def startsWith_def sortRangeEntries_def sort_by_def
  ranges_rule_of_entry_def cond_number_def cond_scalar_def cond_verticals_def
  scalar_or_def blank_if_def marketplace_text_def truthy_str_def
  loaded_manager_def ranges_entry_def empty_section_def empty_rule_def
  show_nat.simps digit_char_def

lemma rebuilt_example:
  "map (\<lambda>(k, g). (k, gtype g, map pdtGreaterThan (rules g), map pdtLessThanOrEqualTo (rules g)))
     (groups (rebuildGroupsMapping
        (loaded_manager [ranges_entry (Some (Finite 0)) (Some (Finite 18))]))) =
   [(''ranges-0'', ''ranges'', [None], [Some 18])]"
  by (simp add: rebuild_eval key_eval)

text \<open>
  The theorem at the entry with PDT bounds \<open>(0, 18]\<close>, and at the index
  rebuilt from the configuration that holds this entry alone.
\<close>

theorem C9_zero_bound_becomes_null_witness:
  "cond_number (ranges_entry (Some (Finite 0)) (Some (Finite 18))) pdt_greater_than = Some (Finite 0) \<and>
   pdtGreaterThan (ranges_rule_of_entry (ranges_entry (Some (Finite 0)) (Some (Finite 18)))) = None \<and>
   pdt_greater_than (ranges_conditions (capping_example [])
      (ranges_rule_of_entry (ranges_entry (Some (Finite 0)) (Some (Finite 18))))) = None \<and>
   map (\<lambda>(k, g). (k, gtype g, map pdtGreaterThan (rules g), map pdtLessThanOrEqualTo (rules g)))
     (groups (rebuildGroupsMapping
        (loaded_manager [ranges_entry (Some (Finite 0)) (Some (Finite 18))]))) =
     [(''ranges-0'', ''ranges'', [None], [Some 18])] \<and>
   list_all no_zero_bound (concat (map (rules \<circ> snd) (groups (rebuildGroupsMapping
        (loaded_manager [ranges_entry (Some (Finite 0)) (Some (Finite 18))]))))) \<and>
   holds_rule_of (ranges_entry (Some (Finite 0)) (Some (Finite 18)))
     (rebuildGroupsMapping (loaded_manager [ranges_entry (Some (Finite 0)) (Some (Finite 18))]))"
proof -
  let ?e = "ranges_entry (Some (Finite 0)) (Some (Finite 18))"
  let ?m = "loaded_manager [?e]"
  have h: "cond_number ?e pdt_greater_than = Some (Finite 0)"
    by (simp add: cond_number_def ranges_entry_def empty_entry_def empty_conditions_def)
  from C9_zero_bound_becomes_null [where e = ?e and g = "capping_example []"] h
  have a: "pdtGreaterThan (ranges_rule_of_entry ?e) = None \<and>
      pdt_greater_than (ranges_conditions (capping_example []) (ranges_rule_of_entry ?e)) = None"
    by blast
  have ev: "map (\<lambda>(k, g). (k, gtype g, map pdtGreaterThan (rules g), map pdtLessThanOrEqualTo (rules g)))
     (groups (rebuildGroupsMapping ?m)) = [(''ranges-0'', ''ranges'', [None], [Some 18])]"
    by (simp add: rebuild_eval key_eval)
  have ty: "\<forall>p \<in> set (groups (rebuildGroupsMapping ?m)). gtype (snd p) = ''ranges''"
    using arg_cong [OF ev, of "map (fst \<circ> snd)"] by (auto simp: map_eq_Cons_conv)
  have "\<forall>r \<in> set (concat (map (rules \<circ> snd) (groups (rebuildGroupsMapping ?m)))). no_zero_bound r"
  proof
    fix r assume "r \<in> set (concat (map (rules \<circ> snd) (groups (rebuildGroupsMapping ?m))))"
    then obtain p where p: "p \<in> set (groups (rebuildGroupsMapping ?m))" "r \<in> set (rules (snd p))"
      by auto
    with ty have "(fst p, snd p) \<in> set (groups (rebuildGroupsMapping ?m)) \<and>
        gtype (snd p) = ''ranges'' \<and> r \<in> set (rules (snd p))"
      by simp
    with C9_zero_bound_becomes_null [where k = "fst p" and grp = "snd p" and r = r and st = ?m]
    show "no_zero_bound r" by blast
  qed
  then have "list_all no_zero_bound (concat (map (rules \<circ> snd) (groups (rebuildGroupsMapping ?m))))"
    by (simp add: list_all_iff)
  moreover have "?e \<in> set (flat_ranges_entries (config ?m))"
    by (simp add: flat_ranges_entries_def loaded_manager_def getSectionType_def empty_section_def)
  with C9_zero_bound_becomes_null [where e = ?e and st = ?m]
  have "holds_rule_of ?e (rebuildGroupsMapping ?m)" by blast
  ultimately show ?thesis using h a ev by blast
qed

section \<open>Properties of the import merge\<close>

subsection \<open>Titles given by the merge\<close>

lemma key_ignores_title [simp]:
  "generateEntryKey (e\<lparr> entry_title := t \<rparr>) ks = generateEntryKey e ks"
  "pdt_bounds_key (e\<lparr> entry_title := t \<rparr>) = pdt_bounds_key e"
  "mean_delay_key (e\<lparr> entry_title := t \<rparr>) = mean_delay_key e"
  by (simp_all add: generateEntryKey_def pdt_bounds_key_def mean_delay_key_def cond_number_def)

lemma title_kept:
  "truthy_str (entry_title e) \<Longrightarrow> e\<lparr> entry_title := Some (title_or e x) \<rparr> = e"
  by (cases "entry_title e") (simp_all add: title_or_def truthy_str_def format_text_def)

lemma title_or_truthy:
  "x \<noteq> [] \<Longrightarrow> truthy_str (Some (title_or e x))"
  by (cases "entry_title e") (simp_all add: title_or_def truthy_str_def format_text_def)

lemma retitle_titled:
  "all_titled es \<Longrightarrow>
     map (\<lambda>(i, e). e\<lparr> entry_title := Some (title_or e (f i e)) \<rparr>) (enumerate n es) = es"
  by (induction es arbitrary: n) (simp_all add: all_titled_def title_kept)

lemma all_titled_retitle:
  assumes "\<And>i e. f i e \<noteq> []"
  shows "all_titled (map (\<lambda>(i, e). e\<lparr> entry_title := Some (title_or e (f i e)) \<rparr>) (enumerate n es))"
  using assms by (induction es arbitrary: n) (simp_all add: all_titled_def title_or_truthy)

lemma enumerate_Nil_iff [simp]: "enumerate n xs = [] \<longleftrightarrow> xs = []"
  by (cases xs) simp_all

lemma retitle_members:
  assumes "y \<in> set (map (\<lambda>(i, e). e\<lparr> entry_title := Some (title_or e (f i e)) \<rparr>) (enumerate n es))"
  shows "\<exists>e \<in> set es. \<exists>t. y = e\<lparr> entry_title := t \<rparr>"
proof -
  from assms obtain i e where ie: "(i, e) \<in> set (enumerate n es)"
    and y: "y = e\<lparr> entry_title := Some (title_or e (f i e)) \<rparr>"
    by auto
  from ie have "e \<in> set es" by (auto simp: in_set_enumerate_eq)
  with y show ?thesis by blast
qed

subsection \<open>Capping entries\<close>

lemma merge_capping_twice:
  "merge_capping ty (merge_capping ty es ks) ks = merge_capping ty es ks"
  unfolding merge_capping_def
proof (rule regroup_idempotent, intro conjI ballI)
  fix b :: "string \<times> entry list"
  assume b: "b \<in> set (group_by (\<lambda>e. generateEntryKey e ks) es)"
  obtain k bs where kb: "b = (k, bs)" by (cases b)
  let ?f = "\<lambda>index e. capitalize ty @ '' '' @
      (if truthy_opt (delivery_option e) then scalar_text (delivery_option e) else []) @
      '' '' @ (if index > 0 then show_nat (index + 1) else [])"
  let ?t = "\<lambda>bs. map (\<lambda>(index, e). e\<lparr> entry_title := Some (title_or e (?f index e)) \<rparr>)
      (enumerate 0 bs)"
  from group_by_block [OF b] kb
  have blk: "bs \<noteq> []" "\<forall>y \<in> set bs. generateEntryKey y ks = k" by auto
  show "(case b of (key, entriesGroup) \<Rightarrow> ?t entriesGroup) \<noteq> []"
    using blk by (simp add: kb)
  {
    fix y assume "y \<in> set (case b of (key, entriesGroup) \<Rightarrow> ?t entriesGroup)"
    then have "y \<in> set (?t bs)" by (simp add: kb)
    then obtain e t where "e \<in> set bs" "y = e\<lparr> entry_title := t \<rparr>"
      using retitle_members [of y ?f 0 bs] by blast
    with blk show "generateEntryKey y ks = fst b" by (simp add: kb)
  }
  have "all_titled (?t bs)" by (rule all_titled_retitle) simp
  then have "?t (?t bs) = ?t bs" by (rule retitle_titled)
  then show "(case (fst b, case b of (key, entriesGroup) \<Rightarrow> ?t entriesGroup) of
      (key, entriesGroup) \<Rightarrow> ?t entriesGroup) = (case b of (key, entriesGroup) \<Rightarrow> ?t entriesGroup)"
    by (simp add: kb)
qed

subsection \<open>Display-format entries\<close>

lemma rebuilt_format_entry_key:
  "\<not> truthy_opt (delivery_option e) \<Longrightarrow>
     generateEntryKey (rebuilt_format_entry e) ks = generateEntryKey e ks"
  by (simp add: generateEntryKey_def rebuilt_format_entry_def empty_entry_def truthy_opt_def)

lemma rebuilt_format_entry_twice:
  "rebuilt_format_entry (rebuilt_format_entry e) = rebuilt_format_entry e"
  by (cases "entry_title e")
     (simp_all add: rebuilt_format_entry_def empty_entry_def title_or_def truthy_str_def
       format_text_def)

lemma merge_display_format_twice:
  assumes "\<forall>e \<in> set es. \<not> truthy_opt (delivery_option e)"
  shows "merge_display_format (merge_display_format es ks) ks = merge_display_format es ks"
  unfolding merge_display_format_def rebuilt_format_entry_def [symmetric]
proof (rule regroup_idempotent, intro conjI ballI)
  fix b :: "string \<times> entry list"
  assume b: "b \<in> set (group_by (\<lambda>e. generateEntryKey e ks) es)"
  obtain k bs where kb: "b = (k, bs)" by (cases b)
  from group_by_block [OF b] kb
  have blk: "bs \<noteq> []" "\<forall>y \<in> set bs. generateEntryKey y ks = k" by auto
  from group_by_subset [OF b] kb assms
  have plain: "\<forall>y \<in> set bs. \<not> truthy_opt (delivery_option y)" by auto
  show "(case b of (key, entriesGroup) \<Rightarrow> map rebuilt_format_entry entriesGroup) \<noteq> []"
    using blk by (simp add: kb)
  {
    fix y assume "y \<in> set (case b of (key, entriesGroup) \<Rightarrow> map rebuilt_format_entry entriesGroup)"
    then obtain e where "e \<in> set bs" "y = rebuilt_format_entry e" by (auto simp: kb)
    with blk plain show "generateEntryKey y ks = fst b"
      by (simp add: kb rebuilt_format_entry_key)
  }
  show "(case (fst b, case b of (key, entriesGroup) \<Rightarrow> map rebuilt_format_entry entriesGroup) of
      (key, entriesGroup) \<Rightarrow> map rebuilt_format_entry entriesGroup) =
      (case b of (key, entriesGroup) \<Rightarrow> map rebuilt_format_entry entriesGroup)"
    by (simp add: kb rebuilt_format_entry_twice)
qed

subsection \<open>Ranges entries\<close>

lemma titled_group_titled:
  "baseTitle \<noteq> [] \<Longrightarrow> all_titled (titled_mean_delay_group baseTitle n b)"
  unfolding titled_mean_delay_group_def Let_def
  by (rule all_titled_retitle) simp

lemma titled_group_kept:
  "all_titled (snd b) \<Longrightarrow> titled_mean_delay_group baseTitle n b = snd b"
  unfolding titled_mean_delay_group_def Let_def
  by (rule retitle_titled)

lemma titled_group_retitled:
  "retitled (snd b) (titled_mean_delay_group baseTitle n b)"
  unfolding retitled_def
proof
  fix y assume "y \<in> set (titled_mean_delay_group baseTitle n b)"
  then show "\<exists>x \<in> set (snd b). \<exists>t. y = x\<lparr> entry_title := t \<rparr>"
    unfolding titled_mean_delay_group_def Let_def by (rule retitle_members)
qed

lemma titled_group_not_Nil:
  "snd b \<noteq> [] \<Longrightarrow> titled_mean_delay_group baseTitle n b \<noteq> []"
  by (simp add: titled_mean_delay_group_def Let_def)

lemma base_title_not_Nil: "capitalize ty @ '' '' @ d \<noteq> []"
  by simp

lemma subgroup_twice:
  "merge_ranges_subgroup ty (merge_ranges_subgroup ty es) = merge_ranges_subgroup ty es"
proof -
  let ?base = "capitalize ty @ '' '' @ getPdtRangeDescription (first_conditions es)"
  let ?n = "length (groupEntriesByMeanDelay es)"
  let ?t = "titled_mean_delay_group ?base ?n"
  let ?once = "concat (map ?t (group_by mean_delay_key es))"
  let ?base' = "capitalize ty @ '' '' @ getPdtRangeDescription (first_conditions ?once)"
  let ?n' = "length (groupEntriesByMeanDelay ?once)"
  let ?t' = "titled_mean_delay_group ?base' ?n'"
  have "concat (map ?t' (group_by mean_delay_key ?once)) = ?once"
  proof (rule regroup_idempotent, intro conjI ballI)
    fix b :: "string \<times> entry list"
    assume b: "b \<in> set (group_by mean_delay_key es)"
    from group_by_block [OF b]
    have blk: "snd b \<noteq> []" "\<forall>y \<in> set (snd b). mean_delay_key y = fst b" by auto
    from blk show "?t b \<noteq> []" by (simp add: titled_group_not_Nil)
    {
      fix y assume "y \<in> set (?t b)"
      with titled_group_retitled [of b ?base ?n]
      obtain x t where "x \<in> set (snd b)" "y = x\<lparr> entry_title := t \<rparr>"
        by (auto simp: retitled_def)
      with blk show "mean_delay_key y = fst b" by simp
    }
    have "all_titled (?t b)" by (rule titled_group_titled) simp
    then show "?t' (fst b, ?t b) = ?t b"
      using titled_group_kept [of "(fst b, ?t b)" ?base' ?n'] by simp
  qed
  then show ?thesis
    by (simp add: merge_ranges_subgroup_def Let_def groupEntriesByMeanDelay_def)
qed

lemma concat_not_Nil:
  "bs \<noteq> [] \<Longrightarrow> \<forall>b \<in> set bs. t b \<noteq> [] \<Longrightarrow> concat (map t bs) \<noteq> []"
  by (cases bs) auto

lemma subgroup_not_Nil:
  assumes "es \<noteq> []"
  shows "merge_ranges_subgroup ty es \<noteq> []"
  unfolding merge_ranges_subgroup_def Let_def groupEntriesByMeanDelay_def
proof (rule concat_not_Nil)
  show "group_by mean_delay_key es \<noteq> []" using assms by (rule group_by_not_Nil)
  show "\<forall>b \<in> set (group_by mean_delay_key es).
      titled_mean_delay_group (capitalize ty @ '' '' @ getPdtRangeDescription (first_conditions es))
        (length (group_by mean_delay_key es)) b \<noteq> []"
  proof
    fix b assume "b \<in> set (group_by mean_delay_key es)"
    from group_by_block [OF this] have "snd b \<noteq> []" by simp
    then show "titled_mean_delay_group
        (capitalize ty @ '' '' @ getPdtRangeDescription (first_conditions es))
        (length (group_by mean_delay_key es)) b \<noteq> []"
      by (rule titled_group_not_Nil)
  qed
qed

lemma subgroup_retitled:
  "retitled es (merge_ranges_subgroup ty es)"
  unfolding retitled_def
proof
  fix y assume "y \<in> set (merge_ranges_subgroup ty es)"
  then obtain b where b: "b \<in> set (group_by mean_delay_key es)"
    and y: "y \<in> set (titled_mean_delay_group
        (capitalize ty @ '' '' @ getPdtRangeDescription (first_conditions es))
        (length (group_by mean_delay_key es)) b)"
    by (auto simp: merge_ranges_subgroup_def Let_def groupEntriesByMeanDelay_def)
  from y titled_group_retitled obtain x t where "x \<in> set (snd b)" "y = x\<lparr> entry_title := t \<rparr>"
    by (fastforce simp: retitled_def)
  with group_by_subset [OF b] show "\<exists>x \<in> set es. \<exists>t. y = x\<lparr> entry_title := t \<rparr>" by blast
qed

lemma pdt_group_twice:
  "merge_pdt_group ty ks (merge_pdt_group ty ks es) = merge_pdt_group ty ks es"
  unfolding merge_pdt_group_def
proof (rule regroup_idempotent, intro conjI ballI)
  fix b :: "string \<times> entry list"
  assume b: "b \<in> set (group_by (\<lambda>e. generateEntryKey e ks) es)"
  obtain k bs where kb: "b = (k, bs)" by (cases b)
  from group_by_block [OF b] kb
  have blk: "bs \<noteq> []" "\<forall>y \<in> set bs. generateEntryKey y ks = k" by auto
  show "(case b of (key, entriesGroup) \<Rightarrow> merge_ranges_subgroup ty entriesGroup) \<noteq> []"
    using blk by (simp add: kb subgroup_not_Nil)
  {
    fix y assume "y \<in> set (case b of (key, entriesGroup) \<Rightarrow> merge_ranges_subgroup ty entriesGroup)"
    with subgroup_retitled [of bs ty] obtain x t where "x \<in> set bs" "y = x\<lparr> entry_title := t \<rparr>"
      by (auto simp: kb retitled_def)
    with blk show "generateEntryKey y ks = fst b" by (simp add: kb)
  }
  show "(case (fst b, case b of (key, entriesGroup) \<Rightarrow> merge_ranges_subgroup ty entriesGroup) of
      (key, entriesGroup) \<Rightarrow> merge_ranges_subgroup ty entriesGroup) =
      (case b of (key, entriesGroup) \<Rightarrow> merge_ranges_subgroup ty entriesGroup)"
    by (simp add: kb subgroup_twice)
qed

lemma pdt_group_not_Nil:
  assumes "es \<noteq> []"
  shows "merge_pdt_group ty ks es \<noteq> []"
  unfolding merge_pdt_group_def
proof (rule concat_not_Nil)
  show "group_by (\<lambda>e. generateEntryKey e ks) es \<noteq> []" using assms by (rule group_by_not_Nil)
  show "\<forall>b \<in> set (group_by (\<lambda>e. generateEntryKey e ks) es).
      (case b of (key, entriesGroup) \<Rightarrow> merge_ranges_subgroup ty entriesGroup) \<noteq> []"
  proof
    fix b assume "b \<in> set (group_by (\<lambda>e. generateEntryKey e ks) es)"
    from group_by_block [OF this] have "snd b \<noteq> []" by simp
    then show "(case b of (key, entriesGroup) \<Rightarrow> merge_ranges_subgroup ty entriesGroup) \<noteq> []"
      by (cases b) (simp add: subgroup_not_Nil)
  qed
qed

lemma pdt_group_retitled:
  "retitled es (merge_pdt_group ty ks es)"
  unfolding retitled_def
proof
  fix y assume "y \<in> set (merge_pdt_group ty ks es)"
  then obtain b where b: "b \<in> set (group_by (\<lambda>e. generateEntryKey e ks) es)"
    and y: "y \<in> set (merge_ranges_subgroup ty (snd b))"
    by (auto simp: merge_pdt_group_def)
  from y subgroup_retitled obtain x t where "x \<in> set (snd b)" "y = x\<lparr> entry_title := t \<rparr>"
    by (fastforce simp: retitled_def)
  with group_by_subset [OF b] show "\<exists>x \<in> set es. \<exists>t. y = x\<lparr> entry_title := t \<rparr>" by blast
qed

lemma merge_ranges_as_groups:
  "merge_ranges ty es ks =
     concat (map (\<lambda>(pdtKey, pdtEntries). merge_pdt_group ty
         (filter (\<lambda>k. k \<noteq> ''pdt_greater_than'' \<and> k \<noteq> ''pdt_less_than_or_equal_to'') ks) pdtEntries)
       (group_by pdt_bounds_key es))"
  by (simp add: merge_ranges_def merge_pdt_group_def groupRangesByPdtBounds_def Let_def)

lemma merge_ranges_twice:
  "merge_ranges ty (merge_ranges ty es ks) ks = merge_ranges ty es ks"
  unfolding merge_ranges_as_groups
proof (rule regroup_idempotent, intro conjI ballI)
  let ?ks = "filter (\<lambda>k. k \<noteq> ''pdt_greater_than'' \<and> k \<noteq> ''pdt_less_than_or_equal_to'') ks"
  fix b :: "string \<times> entry list"
  assume b: "b \<in> set (group_by pdt_bounds_key es)"
  obtain k bs where kb: "b = (k, bs)" by (cases b)
  from group_by_block [OF b] kb
  have blk: "bs \<noteq> []" "\<forall>y \<in> set bs. pdt_bounds_key y = k" by auto
  show "(case b of (pdtKey, pdtEntries) \<Rightarrow> merge_pdt_group ty ?ks pdtEntries) \<noteq> []"
    using blk by (simp add: kb pdt_group_not_Nil)
  {
    fix y assume "y \<in> set (case b of (pdtKey, pdtEntries) \<Rightarrow> merge_pdt_group ty ?ks pdtEntries)"
    with pdt_group_retitled [of bs ty ?ks] obtain x t where "x \<in> set bs" "y = x\<lparr> entry_title := t \<rparr>"
      by (auto simp: kb retitled_def)
    with blk show "pdt_bounds_key y = fst b" by (simp add: kb)
  }
  show "(case (fst b, case b of (pdtKey, pdtEntries) \<Rightarrow> merge_pdt_group ty ?ks pdtEntries) of
      (pdtKey, pdtEntries) \<Rightarrow> merge_pdt_group ty ?ks pdtEntries) =
      (case b of (pdtKey, pdtEntries) \<Rightarrow> merge_pdt_group ty ?ks pdtEntries)"
    by (simp add: kb pdt_group_twice)
qed

subsection \<open>Merging the sections twice\<close>

lemma merge_of_nothing [simp]:
  "merge_display_format [] ks = []" "merge_ranges ty [] ks = []" "merge_capping ty [] ks = []"
  by (simp_all add: merge_display_format_def merge_ranges_def merge_capping_def
      groupRangesByPdtBounds_def Let_def)

lemma merge_display_format_not_Nil:
  assumes "es \<noteq> []"
  shows "merge_display_format es ks \<noteq> []"
  unfolding merge_display_format_def
proof (rule concat_not_Nil)
  show "group_by (\<lambda>e. generateEntryKey e ks) es \<noteq> []" using assms by (rule group_by_not_Nil)
  show "\<forall>b \<in> set (group_by (\<lambda>e. generateEntryKey e ks) es).
      (case b of (key, entriesGroup) \<Rightarrow>
         map (\<lambda>e. empty_entry\<lparr> entry_format := entry_format e,
                    entry_conditions := entry_conditions e,
                    entry_title := Some (title_or e (''Format: '' @ string_text (entry_format e))) \<rparr>)
          entriesGroup) \<noteq> []"
  proof
    fix b assume "b \<in> set (group_by (\<lambda>e. generateEntryKey e ks) es)"
    from group_by_block [OF this] have "snd b \<noteq> []" by simp
    then show "(case b of (key, entriesGroup) \<Rightarrow>
         map (\<lambda>e. empty_entry\<lparr> entry_format := entry_format e,
                    entry_conditions := entry_conditions e,
                    entry_title := Some (title_or e (''Format: '' @ string_text (entry_format e))) \<rparr>)
          entriesGroup) \<noteq> []"
      by (cases b) simp
  qed
qed

lemma merge_capping_not_Nil:
  assumes "es \<noteq> []"
  shows "merge_capping ty es ks \<noteq> []"
  unfolding merge_capping_def
proof (rule concat_not_Nil)
  show "group_by (\<lambda>e. generateEntryKey e ks) es \<noteq> []" using assms by (rule group_by_not_Nil)
  show "\<forall>b \<in> set (group_by (\<lambda>e. generateEntryKey e ks) es).
      (case b of (key, entriesGroup) \<Rightarrow>
        map (\<lambda>(index, e). e\<lparr> entry_title := Some (title_or e
                (capitalize ty @ '' '' @
                 (if truthy_opt (delivery_option e) then scalar_text (delivery_option e) else []) @
                 '' '' @ (if index > 0 then show_nat (index + 1) else []))) \<rparr>)
          (enumerate 0 entriesGroup)) \<noteq> []"
  proof
    fix b assume "b \<in> set (group_by (\<lambda>e. generateEntryKey e ks) es)"
    from group_by_block [OF this] have "snd b \<noteq> []" by simp
    then show "(case b of (key, entriesGroup) \<Rightarrow>
        map (\<lambda>(index, e). e\<lparr> entry_title := Some (title_or e
                (capitalize ty @ '' '' @
                 (if truthy_opt (delivery_option e) then scalar_text (delivery_option e) else []) @
                 '' '' @ (if index > 0 then show_nat (index + 1) else []))) \<rparr>)
          (enumerate 0 entriesGroup)) \<noteq> []"
      by (cases b) simp
  qed
qed

lemma merge_ranges_not_Nil:
  assumes "es \<noteq> []"
  shows "merge_ranges ty es ks \<noteq> []"
  unfolding merge_ranges_as_groups
proof (rule concat_not_Nil)
  let ?ks = "filter (\<lambda>k. k \<noteq> ''pdt_greater_than'' \<and> k \<noteq> ''pdt_less_than_or_equal_to'') ks"
  show "group_by pdt_bounds_key es \<noteq> []" using assms by (rule group_by_not_Nil)
  show "\<forall>b \<in> set (group_by pdt_bounds_key es).
      (case b of (pdtKey, pdtEntries) \<Rightarrow> merge_pdt_group ty ?ks pdtEntries) \<noteq> []"
  proof
    fix b assume "b \<in> set (group_by pdt_bounds_key es)"
    from group_by_block [OF this] have "snd b \<noteq> []" by simp
    then show "(case b of (pdtKey, pdtEntries) \<Rightarrow> merge_pdt_group ty ?ks pdtEntries) \<noteq> []"
      by (cases b) (simp add: pdt_group_not_Nil)
  qed
qed

lemma collect_merged:
  "collect_sections
     ((if a then [empty_section\<lparr> display_format := Some a' \<rparr>] else []) @
      (if b then [empty_section\<lparr> ranges := Some b' \<rparr>] else []) @
      (if c then [empty_section\<lparr> capping := Some c' \<rparr>] else []) @
      (if d then [empty_section\<lparr> rounding := Some d' \<rparr>] else [])) =
   \<lparr> all_display_format = (if a then a' else []), all_ranges = (if b then b' else []),
     all_capping = (if c then c' else []), all_rounding = (if d then d' else []) \<rparr>"
  by (simp add: collect_sections_def collect_section_def empty_section_def)

lemma collected_display_formats:
  "set (all_display_format (foldl collect_section acc ss)) \<subseteq>
     set (all_display_format acc) \<union>
     {e. \<exists>s \<in> set ss. \<exists>es. display_format s = Some es \<and> e \<in> set es}"
proof (induction ss arbitrary: acc)
  case Nil
  show ?case by simp
next
  case (Cons s ss)
  have "set (all_display_format (collect_section acc s)) \<subseteq>
      set (all_display_format acc) \<union> {e. \<exists>es. display_format s = Some es \<and> e \<in> set es}"
    by (auto simp: collect_section_def split: option.splits)
  with Cons.IH [of "collect_section acc s"] show ?case by auto
qed

lemma collected_without_option:
  assumes "display_formats_without_option ss"
  shows "\<forall>e \<in> set (all_display_format (collect_sections ss)). \<not> truthy_opt (delivery_option e)"
proof
  fix e assume "e \<in> set (all_display_format (collect_sections ss))"
  with collected_display_formats [of _ ss]
  obtain s es where "s \<in> set ss" "display_format s = Some es" "e \<in> set es"
    unfolding collect_sections_def by fastforce
  with assms show "\<not> truthy_opt (delivery_option e)"
    by (auto simp: display_formats_without_option_def list_all_iff)
qed

lemma merge_sections_twice:
  assumes "display_formats_without_option pdtSections"
  shows "mergePdtSectionsByCommonParams (mergePdtSectionsByCommonParams pdtSections) =
         mergePdtSectionsByCommonParams pdtSections"
proof -
  define D where "D = all_display_format (collect_sections pdtSections)"
  define R where "R = all_ranges (collect_sections pdtSections)"
  define C where "C = all_capping (collect_sections pdtSections)"
  define rds where "rds = all_rounding (collect_sections pdtSections)"
  define D' where "D' = merge_display_format D display_format_keys"
  define R' where "R' = merge_ranges ''ranges'' R ranges_capping_keys"
  define C' where "C' = merge_capping ''capping'' C ranges_capping_keys"
  have once: "mergePdtSectionsByCommonParams pdtSections =
     (if D \<noteq> [] then [empty_section\<lparr> display_format := Some D' \<rparr>] else []) @
     (if R \<noteq> [] then [empty_section\<lparr> ranges := Some R' \<rparr>] else []) @
     (if C \<noteq> [] then [empty_section\<lparr> capping := Some C' \<rparr>] else []) @
     (if rds \<noteq> [] then [empty_section\<lparr> rounding := Some rds \<rparr>] else [])"
    by (simp add: mergePdtSectionsByCommonParams_def mergeEntriesByCommonParams_def Let_def
        D_def R_def C_def rds_def D'_def R'_def C'_def)
  have d: "(if D \<noteq> [] then D' else []) = D'" "D' \<noteq> [] \<longleftrightarrow> D \<noteq> []"
    using merge_display_format_not_Nil [of D display_format_keys] by (auto simp: D'_def)
  have r: "(if R \<noteq> [] then R' else []) = R'" "R' \<noteq> [] \<longleftrightarrow> R \<noteq> []"
    using merge_ranges_not_Nil [of R "''ranges''" ranges_capping_keys] by (auto simp: R'_def)
  have c: "(if C \<noteq> [] then C' else []) = C'" "C' \<noteq> [] \<longleftrightarrow> C \<noteq> []"
    using merge_capping_not_Nil [of C "''capping''" ranges_capping_keys] by (auto simp: C'_def)
  have o: "(if rds \<noteq> [] then rds else []) = rds" by simp
  have collected: "collect_sections (mergePdtSectionsByCommonParams pdtSections) =
     \<lparr> all_display_format = D', all_ranges = R', all_capping = C', all_rounding = rds \<rparr>"
    unfolding once collect_merged d(1) r(1) c(1) o ..
  have dd: "merge_display_format D' display_format_keys = D'"
    unfolding D'_def D_def
    by (rule merge_display_format_twice) (rule collected_without_option [OF assms])
  have rr: "merge_ranges ''ranges'' R' ranges_capping_keys = R'"
    unfolding R'_def by (rule merge_ranges_twice)
  have cc: "merge_capping ''capping'' C' ranges_capping_keys = C'"
    unfolding C'_def by (rule merge_capping_twice)
  have "mergePdtSectionsByCommonParams (mergePdtSectionsByCommonParams pdtSections) =
     (if D' \<noteq> [] then [empty_section\<lparr> display_format := Some D' \<rparr>] else []) @
     (if R' \<noteq> [] then [empty_section\<lparr> ranges := Some R' \<rparr>] else []) @
     (if C' \<noteq> [] then [empty_section\<lparr> capping := Some C' \<rparr>] else []) @
     (if rds \<noteq> [] then [empty_section\<lparr> rounding := Some rds \<rparr>] else [])"
    unfolding mergePdtSectionsByCommonParams_def [of "mergePdtSectionsByCommonParams pdtSections"]
      collected
    by (simp add: mergeEntriesByCommonParams_def Let_def dd rr cc)
  also have "\<dots> = mergePdtSectionsByCommonParams pdtSections"
    unfolding once by (simp only: d(2) r(2) c(2))
  finally show ?thesis .
qed

subsection \<open>The groups found by a second merge\<close>

lemma block_functions:
  "(\<lambda>(key, entriesGroup). map rebuilt_format_entry entriesGroup) = display_block"
  "(\<lambda>(key, entriesGroup).
      map (\<lambda>(index, e). e\<lparr> entry_title := Some (title_or e
                (capitalize ty @ '' '' @
                 (if truthy_opt (delivery_option e) then scalar_text (delivery_option e) else []) @
                 '' '' @ (if index > 0 then show_nat (index + 1) else []))) \<rparr>)
          (enumerate 0 entriesGroup)) = capping_block ty"
  "(\<lambda>(pdtKey, pdtEntries). merge_pdt_group ty
      (filter (\<lambda>k. k \<noteq> ''pdt_greater_than'' \<and> k \<noteq> ''pdt_less_than_or_equal_to'') ks)
      pdtEntries) = pdt_block ty ks"
  by (simp_all add: fun_eq_iff display_block_def capping_block_def pdt_block_def)

lemma merge_as_blocks:
  "merge_display_format es ks = concat (map display_block (group_by (\<lambda>e. generateEntryKey e ks) es))"
  "merge_capping ty es ks = concat (map (capping_block ty) (group_by (\<lambda>e. generateEntryKey e ks) es))"
  "merge_ranges ty es ks = concat (map (pdt_block ty ks) (group_by pdt_bounds_key es))"
  unfolding merge_display_format_def rebuilt_format_entry_def [symmetric] merge_capping_def
    merge_ranges_as_groups block_functions
  by (rule refl)+

lemma display_groups_kept:
  assumes "\<forall>e \<in> set es. \<not> truthy_opt (delivery_option e)"
  shows "group_by (\<lambda>e. generateEntryKey e ks) (merge_display_format es ks) =
         map (\<lambda>b. (fst b, display_block b)) (group_by (\<lambda>e. generateEntryKey e ks) es)"
  unfolding merge_as_blocks
proof (rule regroup_transformed, intro conjI ballI)
  fix b :: "string \<times> entry list"
  assume b: "b \<in> set (group_by (\<lambda>e. generateEntryKey e ks) es)"
  from group_by_block [OF b]
  have blk: "snd b \<noteq> []" "\<forall>y \<in> set (snd b). generateEntryKey y ks = fst b" by auto
  from group_by_subset [OF b] assms
  have plain: "\<forall>y \<in> set (snd b). \<not> truthy_opt (delivery_option y)" by auto
  show "display_block b \<noteq> []" using blk by (simp add: display_block_def)
  fix y assume "y \<in> set (display_block b)"
  then obtain e where "e \<in> set (snd b)" "y = rebuilt_format_entry e"
    by (auto simp: display_block_def)
  with blk plain show "generateEntryKey y ks = fst b"
    by (simp add: rebuilt_format_entry_key)
qed

lemma capping_groups_kept:
  "group_by (\<lambda>e. generateEntryKey e ks) (merge_capping ty es ks) =
   map (\<lambda>b. (fst b, capping_block ty b)) (group_by (\<lambda>e. generateEntryKey e ks) es)"
  unfolding merge_as_blocks
proof (rule regroup_transformed, intro conjI ballI)
  fix b :: "string \<times> entry list"
  assume b: "b \<in> set (group_by (\<lambda>e. generateEntryKey e ks) es)"
  from group_by_block [OF b]
  have blk: "snd b \<noteq> []" "\<forall>y \<in> set (snd b). generateEntryKey y ks = fst b" by auto
  show "capping_block ty b \<noteq> []" using blk by (simp add: capping_block_def)
  fix y assume "y \<in> set (capping_block ty b)"
  then have "\<exists>e \<in> set (snd b). \<exists>t. y = e\<lparr> entry_title := t \<rparr>"
    unfolding capping_block_def by (rule retitle_members)
  with blk show "generateEntryKey y ks = fst b" by auto
qed

lemma ranges_groups_kept:
  "group_by pdt_bounds_key (merge_ranges ty es ks) =
   map (\<lambda>b. (fst b, pdt_block ty ks b)) (group_by pdt_bounds_key es)"
  unfolding merge_as_blocks
proof (rule regroup_transformed, intro conjI ballI)
  fix b :: "string \<times> entry list"
  assume b: "b \<in> set (group_by pdt_bounds_key es)"
  from group_by_block [OF b]
  have blk: "snd b \<noteq> []" "\<forall>y \<in> set (snd b). pdt_bounds_key y = fst b" by auto
  show "pdt_block ty ks b \<noteq> []" using blk by (simp add: pdt_block_def pdt_group_not_Nil)
  fix y assume "y \<in> set (pdt_block ty ks b)"
  with pdt_group_retitled obtain x t where "x \<in> set (snd b)" "y = x\<lparr> entry_title := t \<rparr>"
    unfolding pdt_block_def retitled_def by blast
  with blk show "pdt_bounds_key y = fst b" by simp
qed

lemmas merge_eval = mergePdtSectionsByCommonParams_def collect_sections_def collect_section_def
  mergeEntriesByCommonParams_def merge_display_format_def group_by_def generateEntryKey_def
  condition_value_def display_format_keys_def title_or_def truthy_str_def truthy_opt_def
  string_text_def scalar_text_def format_text_def
  mixed_display_formats_def format_entry_def empty_section_def empty_entry_def
  empty_conditions_def Let_def

lemma mixed_once:
  "map (map entry_format) (map (\<lambda>s. case display_format s of Some es \<Rightarrow> es | None \<Rightarrow> [])
      (mergePdtSectionsByCommonParams mixed_display_formats)) =
   [[Some ''A'', Some ''B'', Some ''C'']]"
  by (simp add: merge_eval)

lemma mixed_twice:
  "map (map entry_format) (map (\<lambda>s. case display_format s of Some es \<Rightarrow> es | None \<Rightarrow> [])
      (mergePdtSectionsByCommonParams (mergePdtSectionsByCommonParams mixed_display_formats))) =
   [[Some ''A'', Some ''C'', Some ''B'']]"
  by (simp add: merge_eval)

text \<open>
  Claim C5, as stated, fails on display-format entries that carry a delivery
  option. The merge emits a display-format entry with its format, conditions
  and title only, while the key of an entry ends in its delivery option: two
  entries that the first run keeps apart by their delivery option fall into
  one group in the second run, and the output changes its order.
\<close>

theorem C5_display_option_counterexample:
  "mergePdtSectionsByCommonParams (mergePdtSectionsByCommonParams mixed_display_formats) \<noteq>
   mergePdtSectionsByCommonParams mixed_display_formats"
proof
  assume "mergePdtSectionsByCommonParams (mergePdtSectionsByCommonParams mixed_display_formats) =
   mergePdtSectionsByCommonParams mixed_display_formats"
  with mixed_once mixed_twice show False by simp
qed

text \<open>
  Claim C5, amended: for every sections list whose display-format entries carry
  no delivery option, \<^verbatim>\<open>mergePdtSectionsByCommonParams\<close> applied to its own
  output returns that output. When the merge of a kind is run again on its
  output, the grouping finds the groups of the first run: the same keys in the
  same order, each with the entries that the first run emitted for it (for
  display-format entries, again when they carry no delivery option); no
  entries are coalesced further.
\<close>

theorem C5_merge_idempotent:
  "(display_formats_without_option pdtSections \<longrightarrow>
      mergePdtSectionsByCommonParams (mergePdtSectionsByCommonParams pdtSections) =
      mergePdtSectionsByCommonParams pdtSections) \<and>
   ((\<forall>e \<in> set ds. \<not> truthy_opt (delivery_option e)) \<longrightarrow>
      group_by (\<lambda>e. generateEntryKey e ks) (merge_display_format ds ks) =
      map (\<lambda>b. (fst b, display_block b)) (group_by (\<lambda>e. generateEntryKey e ks) ds)) \<and>
   group_by pdt_bounds_key (merge_ranges ty es ks) =
     map (\<lambda>b. (fst b, pdt_block ty ks b)) (group_by pdt_bounds_key es) \<and>
   group_by (\<lambda>e. generateEntryKey e ks) (merge_capping ty es ks) =
     map (\<lambda>b. (fst b, capping_block ty b)) (group_by (\<lambda>e. generateEntryKey e ks) es)"
  using merge_sections_twice display_groups_kept ranges_groups_kept capping_groups_kept
  by blast

lemmas imported_eval = imported_sections_def ranges_entry_def format_entry_def
  empty_section_def empty_entry_def empty_conditions_def

text \<open>
  The theorem at an imported document with four ranges entries over three PDT
  bound pairs, spread over two sections.
\<close>

theorem C5_merge_idempotent_witness:
  "display_formats_without_option imported_sections \<and>
   mergePdtSectionsByCommonParams (mergePdtSectionsByCommonParams imported_sections) =
   mergePdtSectionsByCommonParams imported_sections \<and>
   map fst (group_by pdt_bounds_key (all_ranges (collect_sections imported_sections))) =
     [''13-18'', [CHR 0xE2, CHR 0x89, CHR 0xA4] @ ''13'', ''18-23'']"
proof -
  have h: "display_formats_without_option imported_sections"
    by (simp add: display_formats_without_option_def imported_eval truthy_opt_def)
  have k: "map fst (group_by pdt_bounds_key (all_ranges (collect_sections imported_sections))) =
     [''13-18'', [CHR 0xE2, CHR 0x89, CHR 0xA4] @ ''13'', ''18-23'']"
    by (simp add: imported_eval collect_sections_def collect_section_def group_by_def
        pdt_bounds_key_def bounds_key_def cond_number_def number_text_def le_sign_def
        show_int_def show_nat.simps digit_char_def)
  from C5_merge_idempotent [where pdtSections = imported_sections] h
  have "mergePdtSectionsByCommonParams (mergePdtSectionsByCommonParams imported_sections) =
   mergePdtSectionsByCommonParams imported_sections"
    by blast
  with h k show ?thesis by blast
qed

section \<open>The grouping key across a rebuild\<close>

lemmas scenario_eval = two_ranges_manager_def two_option_manager_def new_manager_def addGroup_def
  updateGroupCommonParam_def obj_member_def obj_assign_def Let_def createDefaultRules_def
  sectionTypeToDisplayName_def updateConfigFromGroups_def saveConfig_def sections_from_groups_def
  groups_of_type_def ranges_entries_def ranges_conditions_def cp_def scalar_or_def number_of_def
  default_ranges_rule_def empty_rule_def truthy_opt_def marketplace_is_set_def show_nat.simps
  digit_char_def empty_section_def

lemma two_option_sections:
  "pdt (config two_option_manager) = [empty_section\<lparr> ranges := Some
     [express_entry\<lparr> delivery_option := Some (SStr ''STANDARD'') \<rparr>, express_entry] \<rparr>]"
  by (simp add: scenario_eval express_entry_def empty_entry_def empty_conditions_def)

lemma two_option_rebuilt:
  "map (\<lambda>g. (gid g, cp g ''deliveryOption'', length (rules g)))
     (map snd (groups (rebuildGroupsMapping two_option_manager))) =
     [(''ranges-0'', Some (SStr ''STANDARD''), 2)]"
  by (simp add: rebuildGroupsMapping_def two_option_sections rebuild_section_def
      getSectionType_def groupByCommonParams_def group_by_def register_group_def
      ranges_group_def key_without_conditions_def startsWith_def sortRangeEntries_def
      sort_by_def ranges_rule_of_entry_def cond_number_def cond_scalar_def cond_verticals_def
      scalar_or_def blank_if_def marketplace_text_def truthy_str_def empty_section_def
      empty_rule_def show_nat.simps digit_char_def key_eval express_entry_def cp_def)

text \<open>
  Claim C3 says that an entry with a delivery option never receives the key
  \<open>conditions:none\<close>, the entry with a delivery option and an explicitly empty
  conditions object included. The program gives exactly that entry the key
  \<open>conditions:none\<close>: the test of the first case lets through every entry
  without condition content that is not of the second case, and the second
  case asks for the conditions object to be absent. The serializer writes
  every ranges entry with a conditions object, so the entries of two ranges
  groups that differ in their delivery option only, \<^verbatim>\<open>STANDARD\<close> and
  \<^verbatim>\<open>EXPRESS\<close>, fall under one key; the index rebuilt from the configuration
  holds one group with both rules and the option \<^verbatim>\<open>STANDARD\<close>, and \<^verbatim>\<open>EXPRESS\<close>
  is gone.
\<close>

theorem C3_delivery_option_lost:
  "truthy_opt (delivery_option express_entry) \<and>
   entry_conditions express_entry = Some empty_conditions \<and>
   common_params_key express_entry
     [''delivery_option'', ''delivery_mode'', ''marketplace'', ''vertical_types''] =
     ''conditions:none'' \<and>
   updateGroupCommonParam ''ranges-1'' ''deliveryOption'' (SStr ''EXPRESS'') two_ranges_manager =
     Returns True two_option_manager \<and>
   map (\<lambda>g. (gid g, cp g ''deliveryOption'', length (rules g))) (map snd (groups two_option_manager)) =
     [(''ranges-0'', None, 1), (''ranges-1'', Some (SStr ''EXPRESS''), 1)] \<and>
   flat_ranges_entries (config two_option_manager) =
     [express_entry\<lparr> delivery_option := Some (SStr ''STANDARD'') \<rparr>, express_entry] \<and>
   map (\<lambda>g. (gid g, cp g ''deliveryOption'', length (rules g)))
     (map snd (groups (rebuildGroupsMapping two_option_manager))) =
     [(''ranges-0'', Some (SStr ''STANDARD''), 2)]"
proof -
  have a: "truthy_opt (delivery_option express_entry) \<and>
      entry_conditions express_entry = Some empty_conditions"
    by (simp add: express_entry_def truthy_opt_def)
  have b: "common_params_key express_entry
     [''delivery_option'', ''delivery_mode'', ''marketplace'', ''vertical_types''] =
     ''conditions:none''"
    by (simp add: key_eval express_entry_def)
  have c: "updateGroupCommonParam ''ranges-1'' ''deliveryOption'' (SStr ''EXPRESS'')
      two_ranges_manager = Returns True two_option_manager"
    by (simp add: scenario_eval)
  have d: "map (\<lambda>g. (gid g, cp g ''deliveryOption'', length (rules g)))
      (map snd (groups two_option_manager)) =
     [(''ranges-0'', None, 1), (''ranges-1'', Some (SStr ''EXPRESS''), 1)]"
    by (simp add: scenario_eval)
  have e: "flat_ranges_entries (config two_option_manager) =
     [express_entry\<lparr> delivery_option := Some (SStr ''STANDARD'') \<rparr>, express_entry]"
    by (simp add: flat_ranges_entries_def two_option_sections getSectionType_def empty_section_def)
  from a b c d e two_option_rebuilt show ?thesis by simp
qed


end
